(* ===== verification/Prelude.thy ===== *)
theory Prelude
  imports Complex_Main "HOL-Library.Sublist"
begin

section \<open>Prelude: results, dictionaries, invariants of step relations\<close>

text \<open>
  What every component of the development shares: Python exceptions as values and the result
  type of fallible code, insertion-ordered dictionaries as association lists, lemmas on lists
  and maps that the component proofs use as rewrite rules, and a locale that lifts a one-step
  invariant to whole runs of a step relation.
\<close>

named_theorems py_simps \<open>defining equations that evaluate small pieces of Python\<close>
named_theorems repo_simps \<open>defining equations of the repository statements\<close>
named_theorems phase_simps \<open>defining equations of the transaction blocks of the services\<close>

subsection \<open>Exceptions and results\<close>

text \<open>
  An exception is its class name and its message: the sources only ever take \<open>str(exc)\<close> and
  \<open>type(exc).__name__\<close> of one. Fallible code returns \<open>Inl\<close> of the exception it raises.
\<close>

datatype py_exc = PyExc (exc_type: string) (exc_str: string)

type_synonym 'a res = "py_exc + 'a"

definition bind_res :: "'a res \<Rightarrow> ('a \<Rightarrow> 'b res) \<Rightarrow> 'b res" where
  "bind_res m f = (case m of Inl e \<Rightarrow> Inl e | Inr a \<Rightarrow> f a)"

lemma bind_res_simps [simp]:
  "bind_res (Inl e) f = Inl e"
  "bind_res (Inr a) f = f a"
  by (simp_all add: bind_res_def)

lemma bind_res_Inr [simp]: "bind_res m f = Inr b \<longleftrightarrow> (\<exists>a. m = Inr a \<and> f a = Inr b)"
  by (cases m) simp_all

lemma bind_res_Inl [simp]:
  "bind_res m f = Inl e \<longleftrightarrow> m = Inl e \<or> (\<exists>a. m = Inr a \<and> f a = Inl e)"
  by (cases m) simp_all

subsection \<open>Dictionaries in insertion order\<close>

text \<open>
  A Python dict keeps insertion order: overwriting a key keeps its place, a new key goes last,
  popping removes it. Lookup is \<open>map_of\<close>.
\<close>

fun dict_set :: "'k \<Rightarrow> 'v \<Rightarrow> ('k \<times> 'v) list \<Rightarrow> ('k \<times> 'v) list" where
  "dict_set k v [] = [(k, v)]"
| "dict_set k v ((k', v') # d) = (if k' = k then (k, v) # d else (k', v') # dict_set k v d)"

definition dict_pop :: "'k \<Rightarrow> ('k \<times> 'v) list \<Rightarrow> ('k \<times> 'v) list" where
  "dict_pop k d = filter (\<lambda>(k', _). k' \<noteq> k) d"

lemma map_of_dict_set [simp]: "map_of (dict_set k v d) = (map_of d)(k \<mapsto> v)"
  by (induction d) auto

lemma map_of_dict_pop [simp]: "map_of (dict_pop k d) = (map_of d)(k := None)"
  by (induction d) (auto simp: dict_pop_def)

lemma dict_set_keys [simp]: "fst ` set (dict_set k v d) = insert k (fst ` set d)"
  by (induction k v d rule: dict_set.induct) (simp_all add: insert_commute)

lemma dict_set_fresh: "k \<notin> set (map fst d) \<Longrightarrow> dict_set k v d = d @ [(k, v)]"
  by (induction d) auto

lemma distinct_dict_set [simp]:
  "distinct (map fst d) \<Longrightarrow> distinct (map fst (dict_set k v d))"
  by (induction d) auto

subsection \<open>Lists and maps\<close>

lemma filter_take_sublist: "set (take n (filter P xs)) \<subseteq> set xs"
  using set_take_subset [of n "filter P xs"] by auto

lemma map_upd_Some_iff:
  "(m(k \<mapsto> v)) x = Some y \<longleftrightarrow> (if x = k then y = v else m x = Some y)"
  by auto

lemma sorted_map_less_distinct:
  "sorted_wrt (<) (map f xs) \<Longrightarrow> distinct (map f (xs :: 'a list))"
  for f :: "'a \<Rightarrow> int"
  by (simp add: strict_sorted_iff)

lemma sort_key_sorted_wrt:
  "sorted_wrt (<) (map f xs) \<Longrightarrow> sort_key f xs = xs"
  for f :: "'a \<Rightarrow> int"
  by (simp add: strict_sorted_iff sort_key_id_if_sorted)

subsection \<open>Invariants of step relations\<close>

text \<open>
  A client gives the step relation of its system and a predicate that one step keeps; the
  locale carries the predicate along every finite run.
\<close>

locale invariant_system =
  fixes step :: "'s \<Rightarrow> 's \<Rightarrow> bool"
    and inv :: "'s \<Rightarrow> bool"
  assumes inv_step: "step s t \<Longrightarrow> inv s \<Longrightarrow> inv t"
begin

lemma inv_steps: "step\<^sup>*\<^sup>* s t \<Longrightarrow> inv s \<Longrightarrow> inv t"
  by (induction rule: rtranclp_induct) (auto intro: inv_step)

end

text \<open>
  A quantity that no step lowers (a version, an epoch) is monotone along runs.
\<close>

locale monotone_system =
  fixes step :: "'s \<Rightarrow> 's \<Rightarrow> bool"
    and le :: "'s \<Rightarrow> 's \<Rightarrow> bool"
  assumes le_refl: "le s s"
    and le_trans: "le s t \<Longrightarrow> le t u \<Longrightarrow> le s u"
    and le_step: "step s t \<Longrightarrow> le s t"
begin

lemma le_steps: "step\<^sup>*\<^sup>* s t \<Longrightarrow> le s t"
  by (induction rule: rtranclp_induct) (auto intro: le_refl le_trans le_step)

end

text \<open>
  A system whose every step is a step of an abstract machine, or none, runs as the machine does.
\<close>

locale simulation =
  fixes concrete :: "'c \<Rightarrow> 'c \<Rightarrow> bool" and abstract :: "'a \<Rightarrow> 'a \<Rightarrow> bool" and match :: "'c \<Rightarrow> 'a \<Rightarrow> bool"
  assumes simulated: "concrete s t \<Longrightarrow> match s a \<Longrightarrow> \<exists>b. abstract\<^sup>=\<^sup>= a b \<and> match t b"
begin

lemma simulated_runs:
  assumes "concrete\<^sup>*\<^sup>* s t" "match s a"
  shows "\<exists>b. abstract\<^sup>*\<^sup>* a b \<and> match t b"
  using assms(1)
proof (induction rule: rtranclp_induct)
  case base
  with assms(2) show ?case by blast
next
  case (step t u)
  then obtain b c where "abstract\<^sup>*\<^sup>* a b" "abstract\<^sup>=\<^sup>= b c" "match u c"
    using simulated by blast
  then show ?case by (auto intro: rtranclp.rtrancl_into_rtrancl)
qed

end

end
