(* ===== verification/Py_Text.thy ===== *)
theory Py_Text
  imports Prelude
begin

section \<open>Python strings and integers\<close>

text \<open>
  The parts of \<open>str\<close>, \<open>bytes\<close> and \<open>int\<close> that the sources use. A \<open>str\<close> is represented by
  its UTF-8 encoding, so \<open>encode("utf-8")\<close> is the identity, \<open>len\<close> counts the bytes that are
  not continuation bytes and a string with lone surrogates does not exist.
\<close>

subsection \<open>Strings as UTF-8\<close>

definition byte_in :: "nat \<Rightarrow> nat \<Rightarrow> char \<Rightarrow> bool" where
  "byte_in lo hi c \<longleftrightarrow> lo \<le> of_char c \<and> of_char c \<le> hi"

definition is_cont :: "char \<Rightarrow> bool" where
  "is_cont c = byte_in 0x80 0xBF c"

text \<open>Code points of a string: \<open>len(s)\<close>, and \<open>s[:k]\<close>.\<close>

definition str_len :: "string \<Rightarrow> nat" where
  "str_len s = length (filter (\<lambda>c. \<not> is_cont c) s)"

fun str_take :: "nat \<Rightarrow> string \<Rightarrow> string" where
  "str_take k [] = []"
| "str_take k (c # cs) =
     (if is_cont c then c # str_take k cs
      else if k = 0 then [] else c # str_take (k - 1) cs)"

text \<open>
  \<open>bytes.decode("utf-8", errors="replace")\<close>: every maximal ill-formed part becomes U+FFFD.
  \<open>utf8_step\<close> says how many bytes the next unit takes and whether it is well formed.
\<close>

definition utf8_need :: "char \<Rightarrow> nat option" where
  "utf8_need c =
     (if byte_in 0x00 0x7F c then Some 0
      else if byte_in 0xC2 0xDF c then Some 1
      else if byte_in 0xE0 0xEF c then Some 2
      else if byte_in 0xF0 0xF4 c then Some 3
      else None)"

definition utf8_second :: "char \<Rightarrow> char \<Rightarrow> bool" where
  "utf8_second c d =
     (if of_char c = (0xE0 :: nat) then byte_in 0xA0 0xBF d
      else if of_char c = (0xED :: nat) then byte_in 0x80 0x9F d
      else if of_char c = (0xF0 :: nat) then byte_in 0x90 0xBF d
      else if of_char c = (0xF4 :: nat) then byte_in 0x80 0x8F d
      else is_cont d)"

definition utf8_run :: "nat \<Rightarrow> char \<Rightarrow> string \<Rightarrow> nat" where
  "utf8_run k c cs =
     (case take k cs of
        [] \<Rightarrow> 0
      | d # ds \<Rightarrow> if utf8_second c d then Suc (length (takeWhile is_cont ds)) else 0)"

fun utf8_step :: "string \<Rightarrow> nat \<times> bool" where
  "utf8_step [] = (0, True)"
| "utf8_step (c # cs) =
     (case utf8_need c of
        None \<Rightarrow> (1, False)
      | Some k \<Rightarrow> (Suc (utf8_run k c cs), utf8_run k c cs = k))"

lemma utf8_step_pos: "s \<noteq> [] \<Longrightarrow> 0 < fst (utf8_step s)"
  by (cases s) (auto split: option.splits)

definition replacement_char :: string where
  "replacement_char = [CHR 0xEF, CHR 0xBF, CHR 0xBD]"

function utf8_decode :: "string \<Rightarrow> string" where
  "utf8_decode s =
     (if s = [] then []
      else (if snd (utf8_step s) then take (fst (utf8_step s)) s else replacement_char)
           @ utf8_decode (drop (fst (utf8_step s)) s))"
  by pat_completeness auto
termination
  by (relation "measure length") (auto simp: utf8_step_pos)

declare utf8_decode.simps [simp del]

text \<open>The byte strings that are encodings of a \<open>str\<close>.\<close>

function utf8_wf :: "string \<Rightarrow> bool" where
  "utf8_wf s =
     (if s = [] then True else snd (utf8_step s) \<and> utf8_wf (drop (fst (utf8_step s)) s))"
  by pat_completeness auto
termination
  by (relation "measure length") (auto simp: utf8_step_pos)

declare utf8_wf.simps [simp del]

lemma utf8_decode_wf: "utf8_wf s \<Longrightarrow> utf8_decode s = s"
proof (induction s rule: utf8_wf.induct)
  case (1 s)
  show ?case
  proof (cases "s = []")
    case True
    then show ?thesis by (simp add: utf8_decode.simps)
  next
    case False
    with "1.prems" have ok: "snd (utf8_step s)" "utf8_wf (drop (fst (utf8_step s)) s)"
      by (auto simp: utf8_wf.simps [of s])
    with False "1.IH" have "utf8_decode (drop (fst (utf8_step s)) s) = drop (fst (utf8_step s)) s"
      by simp
    with False ok(1) show ?thesis
      by (simp add: utf8_decode.simps [of s])
  qed
qed

definition is_ascii :: "char \<Rightarrow> bool" where
  "is_ascii c = byte_in 0x00 0x7F c"

lemma utf8_wf_ascii: "list_all is_ascii s \<Longrightarrow> utf8_wf s"
proof (induction s)
  case Nil
  then show ?case by (simp add: utf8_wf.simps)
next
  case (Cons c s)
  then have "utf8_need c = Some 0"
    by (simp add: utf8_need_def is_ascii_def)
  then have "utf8_step (c # s) = (1, True)"
    by (simp add: utf8_run_def)
  with Cons show ?case
    by (simp add: utf8_wf.simps [of "c # s"])
qed

lemma str_len_take: "str_len (str_take k s) = min k (str_len s)"
  by (induction k s rule: str_take.induct) (auto simp: str_len_def)

lemma str_take_prefix: "prefix (str_take k s) s"
  by (induction k s rule: str_take.induct) auto

subsection \<open>Whitespace\<close>

text \<open>The encodings of the characters \<open>str.strip()\<close> removes.\<close>

definition ws_units :: "string list" where
  "ws_units =
     map (\<lambda>n. [char_of (n :: nat)]) [9, 10, 11, 12, 13, 28, 29, 30, 31, 32]
     @ [[CHR 0xC2, CHR 0x85], [CHR 0xC2, CHR 0xA0], [CHR 0xE1, CHR 0x9A, CHR 0x80]]
     @ map (\<lambda>n. [CHR 0xE2, CHR 0x80, char_of (n :: nat)]) ([0x80..<0x8B] @ [0xA8, 0xA9, 0xAF])
     @ [[CHR 0xE2, CHR 0x81, CHR 0x9F], [CHR 0xE3, CHR 0x80, CHR 0x80]]"

function strip_units :: "string list \<Rightarrow> string \<Rightarrow> string" where
  "strip_units us s =
     (case find (\<lambda>u. u \<noteq> [] \<and> prefix u s) us of
        None \<Rightarrow> s
      | Some u \<Rightarrow> strip_units us (drop (length u) s))"
  by pat_completeness auto
termination
  by (relation "measure (\<lambda>(us, s). length s)") (auto simp: find_Some_iff prefix_def)

declare strip_units.simps [simp del]

definition py_strip :: "string \<Rightarrow> string" where
  "py_strip s = rev (strip_units (map rev ws_units) (rev (strip_units ws_units s)))"

subsection \<open>Integers in decimal\<close>

definition is_digit :: "char \<Rightarrow> bool" where
  "is_digit c = byte_in 48 57 c"

definition digit_char :: "nat \<Rightarrow> char" where
  "digit_char n = char_of (48 + n)"

definition digit_val :: "char \<Rightarrow> nat" where
  "digit_val c = of_char c - 48"

fun nat_str :: "nat \<Rightarrow> string" where
  "nat_str n = (if n < 10 then [digit_char n] else nat_str (n div 10) @ [digit_char (n mod 10)])"

declare nat_str.simps [simp del]

text \<open>\<open>str(n)\<close> of an \<open>int\<close>.\<close>

definition str_int :: "int \<Rightarrow> string" where
  "str_int n = (if n < 0 then CHR ''-'' # nat_str (nat (- n)) else nat_str (nat n))"

text \<open>
  \<open>int(s)\<close> of a \<open>str\<close>: surrounding whitespace, an optional sign, decimal digits with single
  underscores between them, at most 4300 digits; \<open>None\<close> is \<open>ValueError\<close>. Decimal digits of
  other scripts are not read.
\<close>

fun digits_val :: "nat \<Rightarrow> bool \<Rightarrow> string \<Rightarrow> nat option" where
  "digits_val acc prev [] = (if prev then Some acc else None)"
| "digits_val acc prev (c # cs) =
     (if is_digit c then digits_val (10 * acc + digit_val c) True cs
      else if c = CHR ''_'' \<and> prev then digits_val acc False cs
      else None)"

definition digits_int :: "string \<Rightarrow> nat option" where
  "digits_int s = (if 4300 < length (filter is_digit s) then None else digits_val 0 False s)"

definition py_int :: "string \<Rightarrow> int option" where
  "py_int raw =
     (case py_strip raw of
        [] \<Rightarrow> None
      | c # cs \<Rightarrow>
          if c = CHR ''-'' then map_option (\<lambda>n. - int n) (digits_int cs)
          else if c = CHR ''+'' then map_option int (digits_int cs)
          else map_option int (digits_int (c # cs)))"

subsection \<open>Round trip of integers through decimal text\<close>

lemma digit_char [simp]:
  assumes "n < 10"
  shows "is_digit (digit_char n)" "digit_val (digit_char n) = n"
  using assms by (simp_all add: is_digit_def digit_val_def digit_char_def byte_in_def)

lemma nat_str_digits: "list_all is_digit (nat_str n)"
  by (induction n rule: nat_str.induct) (subst nat_str.simps, simp)

lemma nat_str_nonempty [simp]: "nat_str n \<noteq> []"
  by (subst nat_str.simps) simp

lemma digits_val_digits:
  "list_all is_digit ds \<Longrightarrow> ds \<noteq> [] \<or> prev \<Longrightarrow>
     digits_val acc prev ds = Some (foldl (\<lambda>a c. 10 * a + digit_val c) acc ds)"
  by (induction acc prev ds rule: digits_val.induct) auto

lemma foldl_nat_str: "foldl (\<lambda>a c. 10 * a + digit_val c) 0 (nat_str n) = n"
proof (induction n rule: nat_str.induct)
  case (1 n)
  then show ?case by (subst nat_str.simps) simp
qed

lemma digits_int_nat_str:
  "length (nat_str n) \<le> 4300 \<Longrightarrow> digits_int (nat_str n) = Some n"
  using nat_str_digits [of n]
  by (simp add: digits_int_def digits_val_digits foldl_nat_str list.pred_set)

text \<open>No whitespace unit starts or ends with a printable ASCII character.\<close>

definition is_plain :: "char \<Rightarrow> bool" where
  "is_plain c = byte_in 33 126 c"

lemma ws_units_edges:
  "\<forall>u \<in> set ws_units. u \<noteq> [] \<and> \<not> is_plain (hd u) \<and> \<not> is_plain (last u)"
  by (simp add: ws_units_def is_plain_def byte_in_def upt_conv_Cons)

lemma strip_units_id:
  assumes "\<forall>u \<in> set us. u \<noteq> [] \<longrightarrow> \<not> is_plain (hd u)" and "s = [] \<or> is_plain (hd s)"
  shows "strip_units us s = s"
proof -
  have "find (\<lambda>u. u \<noteq> [] \<and> prefix u s) us = None"
    using assms by (auto simp: find_None_iff prefix_def)
  then show ?thesis by (simp add: strip_units.simps)
qed

lemma py_strip_plain:
  assumes "s \<noteq> []" and "is_plain (hd s)" and "is_plain (last s)"
  shows "py_strip s = s"
proof -
  have "strip_units ws_units s = s"
    using assms ws_units_edges by (intro strip_units_id) auto
  moreover have "strip_units (map rev ws_units) (rev s) = rev s"
    using assms ws_units_edges by (intro strip_units_id) (auto simp: hd_rev)
  ultimately show ?thesis by (simp add: py_strip_def)
qed

lemma is_digit_plain: "is_digit c \<Longrightarrow> is_plain c"
  by (simp add: is_digit_def is_plain_def byte_in_def)

lemma nat_str_plain: "is_plain (hd (nat_str n))" "is_plain (last (nat_str n))"
  using nat_str_digits [of n] by (auto intro!: is_digit_plain simp: list.pred_set)

lemma is_digit_sign: "\<not> is_digit (CHR ''-'')" "\<not> is_digit (CHR ''+'')"
  by (simp_all add: is_digit_def byte_in_def)

lemma py_int_str_int:
  assumes "length (nat_str (nat \<bar>n\<bar>)) \<le> 4300"
  shows "py_int (str_int n) = Some n"
proof (cases "n < 0")
  case True
  have "py_strip (CHR ''-'' # nat_str (nat (- n))) = CHR ''-'' # nat_str (nat (- n))"
    using nat_str_plain by (intro py_strip_plain) (simp_all add: is_plain_def byte_in_def)
  with True assms show ?thesis
    by (simp add: py_int_def str_int_def digits_int_nat_str)
next
  case False
  have strip: "py_strip (nat_str (nat n)) = nat_str (nat n)"
    using nat_str_plain by (intro py_strip_plain) simp_all
  obtain c cs where c: "nat_str (nat n) = c # cs"
    by (meson nat_str_nonempty neq_Nil_conv)
  have "is_digit c"
    using nat_str_digits [of "nat n"] c by simp
  then have "c \<noteq> CHR ''-''" "c \<noteq> CHR ''+''"
    using is_digit_sign by auto
  with False assms strip c show ?thesis
    using digits_int_nat_str [of "nat n"] by (simp add: py_int_def str_int_def)
qed

lemma nat_str_length: "0 < k \<Longrightarrow> n < 10 ^ k \<Longrightarrow> length (nat_str n) \<le> k"
proof (induction k arbitrary: n)
  case 0
  then show ?case by simp
next
  case (Suc k)
  show ?case
  proof (cases "n < 10")
    case True
    then show ?thesis by (simp add: nat_str.simps [of n])
  next
    case False
    with Suc.prems have "0 < k" "n div 10 < 10 ^ k"
      by (auto intro: Nat.gr0I simp: less_mult_imp_div_less mult.commute)
    then have "length (nat_str (n div 10)) \<le> k" by (rule Suc.IH)
    with False show ?thesis by (simp add: nat_str.simps [of n])
  qed
qed

lemma str_int_ascii: "list_all is_ascii (str_int n)"
proof -
  have "list_all is_ascii (nat_str k)" for k
    using nat_str_digits [of k]
    by (auto simp: list.pred_set is_ascii_def is_digit_def byte_in_def)
  then show ?thesis by (simp add: str_int_def is_ascii_def byte_in_def)
qed

end
