(* ===== verification/Py_Value.thy ===== *)
theory Py_Value
  imports Py_Text
begin

section \<open>Python values\<close>

text \<open>
  The values that travel through the program as JSON documents (\<open>dict[str, Any]\<close>): the
  subscript, \<open>.get\<close>, \<open>len\<close> and truth operations the sources apply to them, with the
  exceptions they raise. A \<open>float\<close> is the exact rational it denotes: products are not
  rounded, and \<open>**\<close> raises where the double overflows.
\<close>

datatype pyval =
    PNone
  | PBool bool
  | PInt int
  | PFloat rat
  | PStr string
  | PList "pyval list"
  | PDict "(string \<times> pyval) list"

definition quoted :: "string \<Rightarrow> string" where
  "quoted s = CHR 0x27 # s @ [CHR 0x27]"

fun type_name :: "pyval \<Rightarrow> string" where
  "type_name PNone = ''NoneType''"
| "type_name (PBool _) = ''bool''"
| "type_name (PInt _) = ''int''"
| "type_name (PFloat _) = ''float''"
| "type_name (PStr _) = ''str''"
| "type_name (PList _) = ''list''"
| "type_name (PDict _) = ''dict''"

definition is_dict :: "pyval \<Rightarrow> bool" where
  "is_dict v = (case v of PDict _ \<Rightarrow> True | _ \<Rightarrow> False)"

text \<open>\<open>v[k]\<close> for a string \<open>k\<close>.\<close>

fun py_getitem :: "pyval \<Rightarrow> string \<Rightarrow> pyval res" where
  "py_getitem (PDict d) k =
     (case map_of d k of None \<Rightarrow> Inl (PyExc ''KeyError'' (quoted k)) | Some x \<Rightarrow> Inr x)"
| "py_getitem (PStr _) k =
     Inl (PyExc ''TypeError'' (''string indices must be integers, not '' @ quoted ''str''))"
| "py_getitem (PList _) k =
     Inl (PyExc ''TypeError'' ''list indices must be integers or slices, not str'')"
| "py_getitem v k =
     Inl (PyExc ''TypeError'' (quoted (type_name v) @ '' object is not subscriptable''))"

text \<open>\<open>v.get(k, dflt)\<close>.\<close>

fun py_get :: "pyval \<Rightarrow> string \<Rightarrow> pyval \<Rightarrow> pyval res" where
  "py_get (PDict d) k dflt = Inr (case map_of d k of None \<Rightarrow> dflt | Some x \<Rightarrow> x)"
| "py_get v k dflt =
     Inl (PyExc ''AttributeError''
            (quoted (type_name v) @ '' object has no attribute '' @ quoted ''get''))"

text \<open>\<open>len(v)\<close>.\<close>

fun py_len :: "pyval \<Rightarrow> int res" where
  "py_len (PStr s) = Inr (int (str_len s))"
| "py_len (PList xs) = Inr (int (length xs))"
| "py_len (PDict d) = Inr (int (length d))"
| "py_len v =
     Inl (PyExc ''TypeError'' (''object of type '' @ quoted (type_name v) @ '' has no len()''))"

text \<open>The truth value of \<open>v\<close>.\<close>

fun py_truth :: "pyval \<Rightarrow> bool" where
  "py_truth PNone \<longleftrightarrow> False"
| "py_truth (PBool b) \<longleftrightarrow> b"
| "py_truth (PInt i) \<longleftrightarrow> i \<noteq> 0"
| "py_truth (PFloat x) \<longleftrightarrow> x \<noteq> 0"
| "py_truth (PStr s) \<longleftrightarrow> s \<noteq> []"
| "py_truth (PList xs) \<longleftrightarrow> xs \<noteq> []"
| "py_truth (PDict d) \<longleftrightarrow> d \<noteq> []"

lemma py_getitem_Inr:
  "py_getitem v k = Inr x \<longleftrightarrow> (\<exists>d. v = PDict d \<and> map_of d k = Some x)"
  by (cases v) (auto split: option.splits)

lemma py_get_Inr:
  "py_get v k dflt = Inr x \<longleftrightarrow>
     (\<exists>d. v = PDict d \<and> x = (case map_of d k of None \<Rightarrow> dflt | Some y \<Rightarrow> y))"
  by (cases v) auto

subsection \<open>Floats\<close>

text \<open>\<open>int(x)\<close> of a float truncates towards zero.\<close>

definition float_int :: "rat \<Rightarrow> int" where
  "float_int x = (if 0 \<le> x then \<lfloor>x\<rfloor> else \<lceil>x\<rceil>)"

text \<open>
  The least magnitude that rounds beyond the largest double: \<open>**\<close> raises \<open>OverflowError\<close>
  there.
\<close>

definition float_limit :: rat where
  "float_limit = 2 ^ 1024 - 2 ^ 970"

definition float_pow :: "rat \<Rightarrow> nat \<Rightarrow> rat res" where
  "float_pow x n =
     (if float_limit \<le> \<bar>x ^ n\<bar> then 
        Inl (PyExc ''OverflowError'' (''(34, '' @ quoted ''Numerical result out of range'' @ '')''))
      else Inr (x ^ n))"

lemma float_int_mono: "x \<le> y \<Longrightarrow> float_int x \<le> float_int y"
  by (auto simp: float_int_def intro: floor_mono ceiling_mono)
     (meson ceiling_le_zero le_cases order_trans zero_le_floor)

lemma float_int_nonneg: "0 \<le> x \<Longrightarrow> 0 \<le> float_int x"
  by (simp add: float_int_def)

end
