(* ===== verification/Domain.thy ===== *)
theory Domain
  imports Py_Value
begin

section \<open>Domain: job statuses, transitions, jobs, leases, events\<close>

text \<open>
  \<open>app/domain/models.py\<close> and \<open>app/domain/events.py\<close>: the status enumeration with its string
  values, the transition table, the domain records, and the event envelope. The metric
  registry of \<open>app/core/metrics.py\<close> is here too, since every component counts into it.
\<close>

subsection \<open>Statuses and transitions\<close>

datatype JobStatus = PENDING | PROCESSING | SUCCESS | FAILED

fun status_value :: "JobStatus \<Rightarrow> string" where
  "status_value PENDING = ''PENDING''"
| "status_value PROCESSING = ''PROCESSING''"
| "status_value SUCCESS = ''SUCCESS''"
| "status_value FAILED = ''FAILED''"

instantiation JobStatus :: enum
begin

definition enum_JobStatus :: "JobStatus list" where
  "enum_JobStatus = [PENDING, PROCESSING, SUCCESS, FAILED]"

definition enum_all_JobStatus :: "(JobStatus \<Rightarrow> bool) \<Rightarrow> bool" where
  "enum_all_JobStatus P \<longleftrightarrow> P PENDING \<and> P PROCESSING \<and> P SUCCESS \<and> P FAILED"

definition enum_ex_JobStatus :: "(JobStatus \<Rightarrow> bool) \<Rightarrow> bool" where
  "enum_ex_JobStatus P \<longleftrightarrow> P PENDING \<or> P PROCESSING \<or> P SUCCESS \<or> P FAILED"

instance
proof
  show univ: "(UNIV :: JobStatus set) = set enum_class.enum"
    unfolding enum_JobStatus_def using JobStatus.exhaust by auto
  show "distinct (enum_class.enum :: JobStatus list)"
    by (simp add: enum_JobStatus_def)
  show "enum_class.enum_all P \<longleftrightarrow> Ball UNIV P" for P :: "JobStatus \<Rightarrow> bool"
    unfolding enum_all_JobStatus_def univ enum_JobStatus_def by simp
  show "enum_class.enum_ex P \<longleftrightarrow> Bex UNIV P" for P :: "JobStatus \<Rightarrow> bool"
    unfolding enum_ex_JobStatus_def univ enum_JobStatus_def by simp
qed

end

text \<open>\<open>JobStatus(s)\<close>: the member with that value, \<open>ValueError\<close> if there is none.\<close>

definition JobStatus_of :: "string \<Rightarrow> JobStatus res" where
  "JobStatus_of s =
     (case find (\<lambda>st. status_value st = s) [PENDING, PROCESSING, SUCCESS, FAILED] of
        None \<Rightarrow> Inl (PyExc ''ValueError'' (quoted s @ '' is not a valid JobStatus''))
      | Some st \<Rightarrow> Inr st)"

fun ALLOWED_TRANSITIONS :: "JobStatus \<rightharpoonup> JobStatus set" where
  "ALLOWED_TRANSITIONS PROCESSING = Some {PENDING, FAILED, PROCESSING}"
| "ALLOWED_TRANSITIONS SUCCESS = Some {PROCESSING}"
| "ALLOWED_TRANSITIONS FAILED = Some {PENDING, PROCESSING}"
| "ALLOWED_TRANSITIONS PENDING = None"

definition TERMINAL_STATUSES :: "JobStatus set" where
  "TERMINAL_STATUSES = {SUCCESS}"

definition allowed_source_statuses :: "JobStatus \<Rightarrow> JobStatus set" where
  "allowed_source_statuses target =
     (case ALLOWED_TRANSITIONS target of None \<Rightarrow> {} | Some ss \<Rightarrow> ss)"

lemma status_value_inj [simp]: "status_value a = status_value b \<longleftrightarrow> a = b"
  by (cases a; cases b) simp_all

declare status_value.simps [simp del]

lemma JobStatus_of_value [simp]: "JobStatus_of (status_value st) = Inr st"
  by (cases st) (simp_all add: JobStatus_of_def)

lemma JobStatus_of_Inr: "JobStatus_of s = Inr st \<longleftrightarrow> s = status_value st"
proof
  assume "JobStatus_of s = Inr st"
  then show "s = status_value st"
    by (auto simp: JobStatus_of_def split: option.splits if_splits)
qed simp

lemma allowed_source_simps [simp]:
  "allowed_source_statuses PENDING = {}"
  "allowed_source_statuses PROCESSING = {PENDING, FAILED, PROCESSING}"
  "allowed_source_statuses SUCCESS = {PROCESSING}"
  "allowed_source_statuses FAILED = {PENDING, PROCESSING}"
  by (simp_all add: allowed_source_statuses_def)

lemma terminal_not_source:
  "st \<in> TERMINAL_STATUSES \<Longrightarrow> st \<notin> allowed_source_statuses target"
  by (cases target) (simp_all add: TERMINAL_STATUSES_def)

subsection \<open>Domain records\<close>

text \<open>
  Instants (\<open>datetime\<close>) are microseconds since the epoch. \<open>JobEvent\<close> of the sources is not
  instantiated anywhere; events travel as the dictionaries of \<open>build_event\<close>.
\<close>

type_synonym instant = int

record Job =
  job_id :: string
  job_status :: JobStatus
  job_request_payload :: pyval
  job_result :: "pyval option"
  job_error :: "string option"
  job_retry_count :: int
  job_created_at :: instant
  job_updated_at :: instant

record JobLease =
  lease_job_id :: string
  lease_owner :: string
  lease_epoch :: int
  lease_expires_at :: "instant option"

subsection \<open>Events\<close>

datatype EventType =
    REQUESTED
  | PROCESSING_STARTED
  | PROCESSING_COMPLETED
  | INFERENCE_COMPLETED
  | DOWNSTREAM_COMPLETED
  | EVENT_FAILED

fun event_value :: "EventType \<Rightarrow> string" where
  "event_value REQUESTED = ''REQUESTED''"
| "event_value PROCESSING_STARTED = ''PROCESSING_STARTED''"
| "event_value PROCESSING_COMPLETED = ''PROCESSING_COMPLETED''"
| "event_value INFERENCE_COMPLETED = ''INFERENCE_COMPLETED''"
| "event_value DOWNSTREAM_COMPLETED = ''DOWNSTREAM_COMPLETED''"
| "event_value EVENT_FAILED = ''FAILED''"

text \<open>
  The identifier (\<open>str(uuid4())\<close>) and the creation time (\<open>datetime.now(UTC).isoformat()\<close>) are
  drawn by the caller and passed in.
\<close>

definition build_event ::
  "string \<Rightarrow> string \<Rightarrow> pyval \<Rightarrow> EventType \<Rightarrow> string \<Rightarrow> pyval \<Rightarrow> pyval \<Rightarrow> pyval" where
  "build_event uuid isonow jid event_type source trace_id payload =
     PDict [(''event_id'', PStr uuid),
            (''job_id'', jid),
            (''event_type'', PStr (event_value event_type)),
            (''trace_id'', trace_id),
            (''source'', PStr source),
            (''created_at'', PStr isonow),
            (''payload'', payload)]"

lemma event_value_inj [simp]: "event_value a = event_value b \<longleftrightarrow> a = b"
  by (cases a; cases b) simp_all

declare event_value.simps [simp del]

lemma build_event_fields [simp]:
  "py_getitem (build_event u t j ty src tr p) ''event_id'' = Inr (PStr u)"
  "py_getitem (build_event u t j ty src tr p) ''job_id'' = Inr j"
  "py_getitem (build_event u t j ty src tr p) ''event_type'' = Inr (PStr (event_value ty))"
  "py_getitem (build_event u t j ty src tr p) ''trace_id'' = Inr tr"
  "py_getitem (build_event u t j ty src tr p) ''source'' = Inr (PStr src)"
  "py_getitem (build_event u t j ty src tr p) ''payload'' = Inr p"
  by (simp_all add: build_event_def)

subsection \<open>Metrics\<close>

text \<open>
  Counters and gauges hold a value; of a histogram the number of observations is kept.
\<close>

datatype metric =
    JOB_CREATED_TOTAL
  | JOB_DUPLICATE_TOTAL
  | JOB_PROCESSING_SECONDS
  | INFERENCE_PROCESSING_SECONDS
  | INFERENCE_SEMAPHORE_WAIT_SECONDS
  | INFERENCE_ACTIVE_JOBS
  | INFERENCE_SIMULATED_GPU_UTILIZATION
  | INFERENCE_SIMULATED_FAILURE_TOTAL
  | DOWNSTREAM_PROCESSING_SECONDS
  | DOWNSTREAM_EVENT_PUBLISHED_TOTAL
  | DOWNSTREAM_SUCCESS_TOTAL
  | DOWNSTREAM_FAILURE_TOTAL
  | JOB_SUCCESS_TOTAL
  | JOB_FAILURE_TOTAL
  | JOB_EVENT_PUBLISHED_TOTAL
  | RETRY_PUBLISHED_TOTAL
  | DLQ_MESSAGES_TOTAL
  | RETRY_FAILURE_TOTAL
  | RETRY_DEFERRED_TOTAL
  | HTTP_REQUESTS_TOTAL string string int
  | OUTBOX_PUBLISHED_TOTAL
  | OUTBOX_PUBLISH_FAILURE_TOTAL
  | OUTBOX_PENDING_BACKLOG
  | JOB_LEASE_TAKEOVER_TOTAL
  | JOB_TRANSITION_CONFLICT_TOTAL string

type_synonym metrics = "metric \<Rightarrow> rat"

definition metric_add :: "metric \<Rightarrow> rat \<Rightarrow> metrics \<Rightarrow> metrics" where
  "metric_add k n m = m(k := m k + n)"

definition metric_set :: "metric \<Rightarrow> rat \<Rightarrow> metrics \<Rightarrow> metrics" where
  "metric_set k n m = m(k := n)"

abbreviation metric_inc :: "metric \<Rightarrow> metrics \<Rightarrow> metrics" where
  "metric_inc k \<equiv> metric_add k 1"

lemma metric_add_same [simp]: "metric_add k n m k = m k + n"
  by (simp add: metric_add_def)

lemma metric_add_other [simp]: "k' \<noteq> k \<Longrightarrow> metric_add k n m k' = m k'"
  by (simp add: metric_add_def)

lemma metric_set_apply [simp]: "metric_set k n m k' = (if k' = k then n else m k')"
  by (simp add: metric_set_def)

end
