(* ===== verification/Database.thy ===== *)
theory Database
  imports Domain
begin

section \<open>Tables, columns and transactions\<close>

text \<open>
  The schema of \<open>app/adapters/db/models.py\<close> as records, the database as the contents of its
  three tables, the checks the server makes on what is inserted, and the session blocks of the
  services: a block works on the state it read and ends by committing or rolling back, and the
  server may fail it. Integer columns are unbounded integers; the text of a driver's message is
  abbreviated.
\<close>

subsection \<open>Rows\<close>

record JobModel =
  jm_id :: string
  jm_request_payload :: pyval
  jm_status :: string
  jm_retry_count :: int
  jm_result :: "pyval option"
  jm_error_message :: "string option"
  jm_lease_owner :: "string option"
  jm_lease_expires_at :: "instant option"
  jm_lease_epoch :: int
  jm_created_at :: instant
  jm_updated_at :: instant

record OutboxMessageModel =
  ob_id :: int
  ob_message_id :: string
  ob_topic :: string
  ob_payload :: pyval
  ob_headers :: "(string \<times> string) list option"
  ob_status :: string
  ob_attempts :: int
  ob_last_error :: "string option"
  ob_created_at :: instant
  ob_published_at :: "instant option"

record JobEventModel =
  je_id :: int
  je_event_id :: string
  je_job_id :: string
  je_event_type :: string
  je_source :: string
  je_trace_id :: string
  je_payload :: pyval
  je_created_at :: instant

text \<open>The tables; a sequence holds the last autoincrement value it gave.\<close>

record db =
  jobs :: "string \<rightharpoonup> JobModel"
  job_events :: "JobEventModel list"
  outbox_messages :: "OutboxMessageModel list"
  event_seq :: int
  outbox_seq :: int

definition empty_db :: db where
  "empty_db = \<lparr>jobs = Map.empty, job_events = [], outbox_messages = [],
               event_seq = 0, outbox_seq = 0\<rparr>"

subsection \<open>Column checks\<close>

text \<open>A value for a \<open>String(n)\<close> column declared \<open>nullable=False\<close>.\<close>

definition varchar :: "nat \<Rightarrow> pyval \<Rightarrow> string res" where
  "varchar n v =
     (case v of
        PStr s \<Rightarrow> if str_len s \<le> n then Inr s
                  else Inl (PyExc ''DBAPIError'' ''value too long for type character varying'')
      | PNone \<Rightarrow> Inl (PyExc ''IntegrityError'' ''null value violates not-null constraint'')
      | _ \<Rightarrow> Inl (PyExc ''DBAPIError'' ''invalid input for query argument''))"

text \<open>
  A value compared with a string primary key: \<open>None\<close> becomes \<open>IS NULL\<close> and matches no row.
\<close>

definition key_arg :: "pyval \<Rightarrow> string option res" where
  "key_arg v =
     (case v of
        PStr s \<Rightarrow> Inr (Some s)
      | PNone \<Rightarrow> Inr None
      | _ \<Rightarrow> Inl (PyExc ''DBAPIError'' ''invalid input for query argument''))"

lemma varchar_Inr: "varchar n v = Inr s \<longleftrightarrow> v = PStr s \<and> str_len s \<le> n"
  by (cases v) (auto simp: varchar_def)

lemma key_arg_PStr [simp]: "key_arg (PStr s) = Inr (Some s)"
  by (simp add: key_arg_def)

lemma key_arg_Some: "key_arg v = Inr (Some s) \<longleftrightarrow> v = PStr s"
  by (cases v) (auto simp: key_arg_def)

subsection \<open>Transactions\<close>

text \<open>
  How a session block ends, and what the server makes of it: \<open>TxAbort\<close> refuses the block at its
  first statement, \<open>TxCommitFail\<close> runs it and then fails the commit keeping nothing,
  \<open>TxAmbiguous\<close> commits but the client sees an exception (the connection was lost after the
  commit record was written).
\<close>

datatype 'a tx = Commit 'a db | Rollback 'a

datatype tx_fault = TxOk | TxAbort py_exc | TxCommitFail py_exc | TxAmbiguous py_exc

fun end_session :: "tx_fault \<Rightarrow> 'a \<Rightarrow> db \<Rightarrow> db \<Rightarrow> 'a res \<times> db" where
  "end_session TxOk a d d' = (Inr a, d')"
| "end_session (TxAbort e) a d d' = (Inl e, d)"
| "end_session (TxCommitFail e) a d d' = (Inl e, d)"
| "end_session (TxAmbiguous e) a d d' = (Inl e, d')"

definition refused :: "tx_fault \<Rightarrow> bool" where
  "refused f = (case f of TxAbort _ \<Rightarrow> True | _ \<Rightarrow> False)"

definition run_session :: "tx_fault \<Rightarrow> (db \<Rightarrow> 'a tx res) \<Rightarrow> db \<Rightarrow> 'a res \<times> db" where
  "run_session f block d =
     (case f of
        TxAbort e \<Rightarrow> (Inl e, d)
      | _ \<Rightarrow>
          (case block d of
             Inl e \<Rightarrow> (Inl e, d)
           | Inr (Rollback a) \<Rightarrow> (Inr a, d)
           | Inr (Commit a d') \<Rightarrow> end_session f a d d'))"

text \<open>
  What each transaction of a service draws from its surroundings: the clock of the process, the
  clock of the server, the identifiers \<open>uuid4\<close> returns (numbered in call order within the
  block), the text of \<open>datetime.now(UTC).isoformat()\<close>, and the server's verdict.
\<close>

record tx_env =
  tx_now :: instant
  tx_dbnow :: instant
  tx_uuid :: "nat \<Rightarrow> string"
  tx_isonow :: string
  tx_fault :: tx_fault

lemma run_session_TxOk [simp]:
  "run_session TxOk block d =
     (case block d of
        Inl e \<Rightarrow> (Inl e, d)
      | Inr (Rollback a) \<Rightarrow> (Inr a, d)
      | Inr (Commit a d') \<Rightarrow> (Inr a, d'))"
  by (simp add: run_session_def split: sum.splits tx.splits)

text \<open>A block leaves the database as it was, or as the block committed it.\<close>

lemma run_session_cases:
  assumes "run_session f block d = (r, d')"
  obtains (unchanged) "d' = d"
        | (committed) a where "block d = Inr (Commit a d')" "r = Inr a \<or> (\<exists>e. r = Inl e)"
  using assms
  by (cases f) (auto simp: run_session_def split: sum.splits tx.splits)

lemma run_session_keeps:
  assumes "run_session f block d = (r, d')" and "P d"
    and "\<And>a d''. block d = Inr (Commit a d'') \<Longrightarrow> P d''"
  shows "P d'"
  using assms(1) by (rule run_session_cases) (auto intro: assms)

lemma run_session_Inr:
  assumes "run_session f block d = (Inr a, d')"
  obtains (rollback) "block d = Inr (Rollback a)" "d' = d"
        | (commit) "block d = Inr (Commit a d')" "f = TxOk"
  using assms
  by (cases f) (auto simp: run_session_def split: sum.splits tx.splits)

end
