(* ===== verification/Job_Repository.thy ===== *)
theory Job_Repository
  imports Database
begin

section \<open>Job and event repositories\<close>

text \<open>
  \<open>SqlAlchemyJobRepository\<close> and \<open>SqlAlchemyJobEventRepository\<close> of
  \<open>app/adapters/db/repositories.py\<close>. Each statement is a function on the contents of the
  tables, with its \<open>WHERE\<close> clause as a predicate on a row. The locale \<open>lease_store\<close> is the
  contract of a store with fencing tokens; the repository is an instance of it.
\<close>

subsection \<open>Reading and inserting jobs\<close>

definition job_of_row :: "JobModel \<Rightarrow> Job res" where
  "job_of_row r =
     bind_res (JobStatus_of (jm_status r)) (\<lambda>st.
       Inr \<lparr>job_id = jm_id r, job_status = st, job_request_payload = jm_request_payload r,
            job_result = jm_result r, job_error = jm_error_message r,
            job_retry_count = jm_retry_count r, job_created_at = jm_created_at r,
            job_updated_at = jm_updated_at r\<rparr>)"

definition job_add :: "instant \<Rightarrow> Job \<Rightarrow> db \<Rightarrow> db res" where
  "job_add dbnow j d =
     bind_res (varchar 64 (PStr (job_id j))) (\<lambda>k.
       if jobs d k \<noteq> None then Inl (PyExc ''IntegrityError'' ''duplicate key in jobs'')
       else Inr (d\<lparr>jobs := (jobs d)(k \<mapsto>
              \<lparr>jm_id = k, jm_request_payload = job_request_payload j,
               jm_status = status_value (job_status j), jm_retry_count = job_retry_count j,
               jm_result = job_result j, jm_error_message = job_error j,
               jm_lease_owner = None, jm_lease_expires_at = None, jm_lease_epoch = 0,
               jm_created_at = dbnow, jm_updated_at = dbnow\<rparr>)\<rparr>))"

definition job_get :: "pyval \<Rightarrow> db \<Rightarrow> Job option res" where
  "job_get jid d =
     bind_res (key_arg jid) (\<lambda>key.
       case Option.bind key (jobs d) of
         None \<Rightarrow> Inr None
       | Some r \<Rightarrow> bind_res (job_of_row r) (\<lambda>j. Inr (Some j)))"

subsection \<open>Conditional status update\<close>

text \<open>
  \<open>UPDATE jobs SET ... WHERE id = :jid AND cond RETURNING jobs\<close>, then
  \<open>scalar_one_or_none()\<close>: the row as it is after the update, if one matched.
\<close>

definition update_returning ::
  "pyval \<Rightarrow> (JobModel \<Rightarrow> bool) \<Rightarrow> (JobModel \<Rightarrow> JobModel) \<Rightarrow> db \<Rightarrow> (JobModel option \<times> db) res" where
  "update_returning jid cond upd d =
     bind_res (key_arg jid) (\<lambda>key.
       case key of
         None \<Rightarrow> Inr (None, d)
       | Some k \<Rightarrow>
           (case jobs d k of
              None \<Rightarrow> Inr (None, d)
            | Some r \<Rightarrow>
                if cond r then Inr (Some (upd r), d\<lparr>jobs := (jobs d)(k \<mapsto> upd r)\<rparr>)
                else Inr (None, d)))"

text \<open>The keyword arguments of \<open>update_status\<close> with their defaults.\<close>

record update_opts =
  opt_result :: "pyval option"
  opt_error :: "string option"
  opt_clear_error :: bool
  opt_expected_statuses :: "string list option"
  opt_lease_owner :: "string option"
  opt_lease_epoch :: "int option"
  opt_release_lease :: bool

definition default_opts :: update_opts where
  "default_opts = \<lparr>opt_result = None, opt_error = None, opt_clear_error = False,
                   opt_expected_statuses = None, opt_lease_owner = None,
                   opt_lease_epoch = None, opt_release_lease = False\<rparr>"

fun statuses_of :: "string list \<Rightarrow> JobStatus set res" where
  "statuses_of [] = Inr {}"
| "statuses_of (s # ss) =
     bind_res (JobStatus_of s) (\<lambda>st. bind_res (statuses_of ss) (\<lambda>sts. Inr (insert st sts)))"

definition cas_matches :: "JobStatus set \<Rightarrow> update_opts \<Rightarrow> JobModel \<Rightarrow> bool" where
  "cas_matches sources opts r \<longleftrightarrow>
     jm_status r \<in> status_value ` sources
     \<and> (case opt_lease_owner opts of None \<Rightarrow> True | Some ow \<Rightarrow> jm_lease_owner r = Some ow)
     \<and> (case opt_lease_epoch opts of None \<Rightarrow> True | Some ep \<Rightarrow> jm_lease_epoch r = ep)"

definition cas_row :: "instant \<Rightarrow> JobStatus \<Rightarrow> update_opts \<Rightarrow> JobModel \<Rightarrow> JobModel" where
  "cas_row dbnow target opts r =
     r\<lparr>jm_status := status_value target,
       jm_updated_at := dbnow,
       jm_result := (case opt_result opts of None \<Rightarrow> jm_result r | Some v \<Rightarrow> Some v),
       jm_error_message :=
         (if opt_clear_error opts then None
          else case opt_error opts of None \<Rightarrow> jm_error_message r | Some e \<Rightarrow> Some e),
       jm_lease_owner := (if opt_release_lease opts then None else jm_lease_owner r),
       jm_lease_expires_at := (if opt_release_lease opts then None else jm_lease_expires_at r)\<rparr>"

definition update_status ::
  "instant \<Rightarrow> pyval \<Rightarrow> string \<Rightarrow> update_opts \<Rightarrow> db \<Rightarrow> (Job option \<times> db) res" where
  "update_status dbnow jid status opts d =
     bind_res (JobStatus_of status) (\<lambda>target.
     bind_res (case opt_expected_statuses opts of
                 None \<Rightarrow> Inr (allowed_source_statuses target)
               | Some ss \<Rightarrow> statuses_of ss) (\<lambda>sources.
     if sources = {} then
       Inl (PyExc ''ValueError''
              (''no allowed source status for transition to '' @ status_value target))
     else
       bind_res (update_returning jid (cas_matches sources opts) (cas_row dbnow target opts) d)
         (\<lambda>(row, d').
            case row of
              None \<Rightarrow> Inr (None, d')
            | Some r \<Rightarrow> bind_res (job_of_row r) (\<lambda>j. Inr (Some j, d')))))"

subsection \<open>Leases\<close>

definition claimable :: "instant \<Rightarrow> JobModel \<Rightarrow> bool" where
  "claimable now r \<longleftrightarrow>
     jm_status r \<in> {status_value PENDING, status_value FAILED}
     \<or> (jm_status r = status_value PROCESSING
        \<and> (case jm_lease_expires_at r of None \<Rightarrow> True | Some t \<Rightarrow> t < now))"

definition lease_until :: "instant \<Rightarrow> int \<Rightarrow> instant" where
  "lease_until now lease_seconds = now + lease_seconds * 1000000"

definition claim_row :: "instant \<Rightarrow> instant \<Rightarrow> string \<Rightarrow> int \<Rightarrow> JobModel \<Rightarrow> JobModel" where
  "claim_row now dbnow owner lease_seconds r =
     r\<lparr>jm_status := status_value PROCESSING,
       jm_lease_owner := Some owner,
       jm_lease_expires_at := Some (lease_until now lease_seconds),
       jm_lease_epoch := jm_lease_epoch r + 1,
       jm_updated_at := dbnow\<rparr>"

definition claim_for_processing ::
  "instant \<Rightarrow> instant \<Rightarrow> pyval \<Rightarrow> string \<Rightarrow> int \<Rightarrow> db \<Rightarrow> (JobLease option \<times> db) res" where
  "claim_for_processing now dbnow jid owner lease_seconds d =
     bind_res (update_returning jid (claimable now) (claim_row now dbnow owner lease_seconds) d)
       (\<lambda>(row, d').
          Inr (case row of
                 None \<Rightarrow> None
               | Some r \<Rightarrow> Some \<lparr>lease_job_id = jm_id r, lease_owner = owner,
                                 lease_epoch = jm_lease_epoch r,
                                 lease_expires_at = jm_lease_expires_at r\<rparr>,
               d'))"

text \<open>
  \<open>updated_at\<close> carries \<open>onupdate=func.now()\<close>, so the renewal touches it as well.
\<close>

definition renew_row :: "instant \<Rightarrow> instant \<Rightarrow> int \<Rightarrow> JobModel \<Rightarrow> JobModel" where
  "renew_row now dbnow lease_seconds r =
     r\<lparr>jm_lease_expires_at := Some (lease_until now lease_seconds), jm_updated_at := dbnow\<rparr>"

definition renew_lease ::
  "instant \<Rightarrow> instant \<Rightarrow> pyval \<Rightarrow> string \<Rightarrow> int \<Rightarrow> int \<Rightarrow> db \<Rightarrow> (bool \<times> db) res" where
  "renew_lease now dbnow jid owner epoch lease_seconds d =
     bind_res (update_returning jid
                 (\<lambda>r. jm_lease_owner r = Some owner \<and> jm_lease_epoch r = epoch)
                 (renew_row now dbnow lease_seconds) d)
       (\<lambda>(row, d'). Inr (row \<noteq> None, d'))"

subsection \<open>The event log\<close>

definition event_row :: "instant \<Rightarrow> int \<Rightarrow> pyval \<Rightarrow> JobEventModel res" where
  "event_row dbnow rid ev =
     bind_res (bind_res (py_getitem ev ''event_id'') (varchar 64)) (\<lambda>eid.
     bind_res (bind_res (py_getitem ev ''job_id'') (varchar 64)) (\<lambda>jid.
     bind_res (bind_res (py_getitem ev ''event_type'') (varchar 64)) (\<lambda>ety.
     bind_res (bind_res (py_getitem ev ''source'') (varchar 64)) (\<lambda>src.
     bind_res (bind_res (py_getitem ev ''trace_id'') (varchar 64)) (\<lambda>tid.
     bind_res (py_getitem ev ''payload'') (\<lambda>pl.
       Inr \<lparr>je_id = rid, je_event_id = eid, je_job_id = jid, je_event_type = ety,
            je_source = src, je_trace_id = tid, je_payload = pl, je_created_at = dbnow\<rparr>))))))"

definition event_add :: "instant \<Rightarrow> pyval \<Rightarrow> db \<Rightarrow> db res" where
  "event_add dbnow ev d =
     bind_res (event_row dbnow (event_seq d + 1) ev) (\<lambda>row.
       if je_event_id row \<in> je_event_id ` set (job_events d)
       then Inl (PyExc ''IntegrityError'' ''duplicate key in uq_job_events_event_id'')
       else Inr (d\<lparr>event_seq := event_seq d + 1, job_events := job_events d @ [row]\<rparr>))"

definition list_for_job :: "string \<Rightarrow> db \<Rightarrow> JobEventModel list" where
  "list_for_job jid d = filter (\<lambda>e. je_job_id e = jid) (job_events d)"

subsection \<open>What the statements do\<close>

lemma job_get_PStr:
  "job_get (PStr k) d =
     (case jobs d k of None \<Rightarrow> Inr None
      | Some r \<Rightarrow> bind_res (job_of_row r) (\<lambda>j. Inr (Some j)))"
  by (simp add: job_get_def)

lemma job_of_row_ok:
  "jm_status r = status_value st \<Longrightarrow>
     job_of_row r = Inr \<lparr>job_id = jm_id r, job_status = st,
       job_request_payload = jm_request_payload r, job_result = jm_result r,
       job_error = jm_error_message r, job_retry_count = jm_retry_count r,
       job_created_at = jm_created_at r, job_updated_at = jm_updated_at r\<rparr>"
  by (simp add: job_of_row_def)

lemma cas_row_status [simp]: "jm_status (cas_row now target opts r) = status_value target"
  by (simp add: cas_row_def)

lemma cas_row_epoch [simp]: "jm_lease_epoch (cas_row now target opts r) = jm_lease_epoch r"
  by (simp add: cas_row_def)

lemma cas_row_id [simp]: "jm_id (cas_row now target opts r) = jm_id r"
  by (simp add: cas_row_def)

lemma allowed_sources_empty: "allowed_source_statuses target = {} \<longleftrightarrow> target = PENDING"
  by (cases target) simp_all

lemma update_returning_Some:
  "update_returning jid cond upd d = Inr (Some r', d') \<longleftrightarrow>
     (\<exists>k r. jid = PStr k \<and> jobs d k = Some r \<and> cond r \<and> r' = upd r
            \<and> d' = d\<lparr>jobs := (jobs d)(k \<mapsto> upd r)\<rparr>)"
  by (cases jid) (auto simp: update_returning_def key_arg_def split: option.splits if_splits)

lemma update_returning_None [dest]:
  "update_returning jid cond upd d = Inr (None, d') \<Longrightarrow> d' = d"
  by (cases jid) (auto simp: update_returning_def key_arg_def split: option.splits if_splits)

lemma update_returning_PStr:
  "update_returning (PStr k) cond upd d =
     (case jobs d k of
        None \<Rightarrow> Inr (None, d)
      | Some r \<Rightarrow> if cond r then Inr (Some (upd r), d\<lparr>jobs := (jobs d)(k \<mapsto> upd r)\<rparr>)
                  else Inr (None, d))"
  by (simp add: update_returning_def)

lemma update_status_Some:
  assumes "update_status now jid st opts d = Inr (Some j, d')"
    and "opt_expected_statuses opts = None"
  obtains k r target where
    "jid = PStr k" "st = status_value target" "jobs d k = Some r"
    "cas_matches (allowed_source_statuses target) opts r"
    "d' = d\<lparr>jobs := (jobs d)(k \<mapsto> cas_row now target opts r)\<rparr>"
    "job_of_row (cas_row now target opts r) = Inr j"
  using assms
  by (fastforce simp: update_status_def JobStatus_of_Inr update_returning_Some
                split: if_splits option.splits)

text \<open>The statuses an update may start from: those the caller expects, or those of the domain's rule.\<close>

definition source_statuses :: "string list option \<Rightarrow> string \<Rightarrow> JobStatus set" where
  "source_statuses expected st =
     (case expected of
        None \<Rightarrow> (case JobStatus_of st of Inl _ \<Rightarrow> {} | Inr t \<Rightarrow> allowed_source_statuses t)
      | Some ss \<Rightarrow> {t. status_value t \<in> set ss})"

lemma statuses_of_Inr: "statuses_of ss = Inr sts \<Longrightarrow> sts = {t. status_value t \<in> set ss}"
  by (induction ss arbitrary: sts) (auto simp: JobStatus_of_Inr)

lemma update_status_won:
  assumes "update_status now jid st opts d = Inr (Some j, d')"
  obtains k r target where "jid = PStr k" "st = status_value target" "jobs d k = Some r"
    "cas_matches (source_statuses (opt_expected_statuses opts) (status_value target)) opts r"
    "d' = d\<lparr>jobs := (jobs d)(k \<mapsto> cas_row now target opts r)\<rparr>"
    "job_of_row (cas_row now target opts r) = Inr j"
proof -
  from assms obtain target sources row where t: "JobStatus_of st = Inr target"
    and s: "(case opt_expected_statuses opts of None \<Rightarrow> Inr (allowed_source_statuses target)
        | Some ss \<Rightarrow> statuses_of ss) = Inr sources"
    and u: "update_returning jid (cas_matches sources opts) (cas_row now target opts) d = Inr (Some row, d')"
    and j: "job_of_row row = Inr j"
    by (auto simp: update_status_def split: if_splits option.splits)
  have "sources = source_statuses (opt_expected_statuses opts) st"
    using s t by (auto simp: source_statuses_def split: option.splits dest: statuses_of_Inr)
  with u t j show thesis
    by (auto simp: update_returning_Some JobStatus_of_Inr intro!: that)
qed

lemma update_status_None:
  "update_status now jid st opts d = Inr (None, d') \<Longrightarrow> d' = d"
  by (auto simp: update_status_def split: if_splits option.splits)

lemma update_status_eq:
  assumes "jobs d k = Some r" and "target \<noteq> PENDING" and "opt_expected_statuses opts = None"
  shows "update_status now (PStr k) (status_value target) opts d =
     (if cas_matches (allowed_source_statuses target) opts r then
        bind_res (job_of_row (cas_row now target opts r)) (\<lambda>j.
          Inr (Some j, d\<lparr>jobs := (jobs d)(k \<mapsto> cas_row now target opts r)\<rparr>))
      else Inr (None, d))"
  using assms by (simp add: update_status_def update_returning_PStr allowed_sources_empty)

lemma claim_Some:
  assumes "claim_for_processing now dbnow jid owner secs d = Inr (Some l, d')"
  obtains k r where
    "jid = PStr k" "jobs d k = Some r" "claimable now r"
    "d' = d\<lparr>jobs := (jobs d)(k \<mapsto> claim_row now dbnow owner secs r)\<rparr>"
    "l = \<lparr>lease_job_id = jm_id r, lease_owner = owner, lease_epoch = jm_lease_epoch r + 1,
          lease_expires_at = Some (lease_until now secs)\<rparr>"
  using assms
  by (auto simp: claim_for_processing_def update_returning_Some claim_row_def
           split: option.splits)

lemma claim_None:
  "claim_for_processing now dbnow jid owner secs d = Inr (None, d') \<Longrightarrow> d' = d"
  by (auto simp: claim_for_processing_def split: option.splits)

lemma claim_eq:
  "claim_for_processing now dbnow (PStr k) owner secs d =
     (case jobs d k of
        None \<Rightarrow> Inr (None, d)
      | Some r \<Rightarrow>
          if claimable now r then
            Inr (Some \<lparr>lease_job_id = jm_id r, lease_owner = owner,
                       lease_epoch = jm_lease_epoch r + 1,
                       lease_expires_at = Some (lease_until now secs)\<rparr>,
                 d\<lparr>jobs := (jobs d)(k \<mapsto> claim_row now dbnow owner secs r)\<rparr>)
          else Inr (None, d))"
  by (simp add: claim_for_processing_def update_returning_PStr claim_row_def
           split: option.splits)

lemma renew_True:
  assumes "renew_lease now dbnow jid owner ep secs d = Inr (True, d')"
  obtains k r where
    "jid = PStr k" "jobs d k = Some r" "jm_lease_owner r = Some owner" "jm_lease_epoch r = ep"
    "d' = d\<lparr>jobs := (jobs d)(k \<mapsto> renew_row now dbnow secs r)\<rparr>"
  using assms by (auto simp: renew_lease_def update_returning_Some)

lemma renew_False: "renew_lease now dbnow jid owner ep secs d = Inr (False, d') \<Longrightarrow> d' = d"
  by (auto simp: renew_lease_def)

lemma event_add_frame:
  assumes "event_add now ev d = Inr d'"
  shows "jobs d' = jobs d" "outbox_messages d' = outbox_messages d" "outbox_seq d' = outbox_seq d"
  using assms by (auto simp: event_add_def split: if_splits)

lemma event_row_build:
  "event_row now rid (build_event u t j ty src tr p) =
     bind_res (varchar 64 (PStr u)) (\<lambda>eid.
     bind_res (varchar 64 j) (\<lambda>jid.
     bind_res (varchar 64 (PStr (event_value ty))) (\<lambda>ety.
     bind_res (varchar 64 (PStr src)) (\<lambda>src.
     bind_res (varchar 64 tr) (\<lambda>tid.
       Inr \<lparr>je_id = rid, je_event_id = eid, je_job_id = jid, je_event_type = ety,
            je_source = src, je_trace_id = tid, je_payload = p, je_created_at = now\<rparr>)))))"
  by (simp only: event_row_def build_event_fields bind_res_simps)

lemma event_add_build:
  assumes "event_add now (build_event u t j ty src tr p) d = Inr d'"
  obtains k tid where "j = PStr k" "tr = PStr tid"
     "u \<notin> je_event_id ` set (job_events d)"
     "d' = d\<lparr>event_seq := event_seq d + 1,
             job_events := job_events d @
               [\<lparr>je_id = event_seq d + 1, je_event_id = u, je_job_id = k,
                 je_event_type = event_value ty, je_source = src, je_trace_id = tid,
                 je_payload = p, je_created_at = now\<rparr>]\<rparr>"
proof -
  from assms obtain row where row: "event_row now (event_seq d + 1) (build_event u t j ty src tr p) = Inr row"
    and fresh: "je_event_id row \<notin> je_event_id ` set (job_events d)"
    and d': "d' = d\<lparr>event_seq := event_seq d + 1, job_events := job_events d @ [row]\<rparr>"
    by (auto simp: event_add_def split: if_splits)
  from row obtain k tid where "j = PStr k" "tr = PStr tid"
    "row = \<lparr>je_id = event_seq d + 1, je_event_id = u, je_job_id = k,
            je_event_type = event_value ty, je_source = src, je_trace_id = tid,
            je_payload = p, je_created_at = now\<rparr>"
    by (auto simp: event_row_build varchar_Inr)
  with fresh d' show thesis by (intro that) simp_all
qed

text \<open>An event with well-sized columns and a new id is appended.\<close>

definition uuid_fresh :: "string \<Rightarrow> db \<Rightarrow> bool" where
  "uuid_fresh u d \<longleftrightarrow> str_len u \<le> 64 \<and> u \<notin> je_event_id ` set (job_events d)"

definition new_event ::
  "instant \<Rightarrow> string \<Rightarrow> string \<Rightarrow> EventType \<Rightarrow> string \<Rightarrow> string \<Rightarrow> pyval \<Rightarrow> db \<Rightarrow> JobEventModel" where
  "new_event now u k ty src t p d =
     \<lparr>je_id = event_seq d + 1, je_event_id = u, je_job_id = k, je_event_type = event_value ty,
      je_source = src, je_trace_id = t, je_payload = p, je_created_at = now\<rparr>"

lemma event_value_size: "str_len (event_value ty) \<le> 64"
  by (cases ty) (simp_all add: str_len_def is_cont_def byte_in_def event_value.simps)

lemma event_add_new:
  assumes "uuid_fresh u d" and "str_len k \<le> 64" and "str_len t \<le> 64" and "str_len src \<le> 64"
  shows "event_add now (build_event u ts (PStr k) ty src (PStr t) p) d =
     Inr (d\<lparr>event_seq := event_seq d + 1,
            job_events := job_events d @ [new_event now u k ty src t p d]\<rparr>)"
  using assms event_value_size [of ty]
  by (simp add: event_add_def event_row_build varchar_def uuid_fresh_def new_event_def)

subsection \<open>Statements of any client\<close>

text \<open>
  One statement of some client of the repositories, in any order and with any arguments; \<open>P\<close> says which
  options of \<open>update_status\<close> the clients use. Statements on the other tables leave \<open>jobs\<close> alone.
\<close>

inductive client_step :: "(update_opts \<Rightarrow> bool) \<Rightarrow> db \<Rightarrow> db \<Rightarrow> bool" for P where
  add: "job_add now j d = Inr d' \<Longrightarrow> client_step P d d'"
| update: "update_status now jid st opts d = Inr (r, d') \<Longrightarrow> P opts \<Longrightarrow> client_step P d d'"
| claim: "claim_for_processing now dbnow jid owner secs d = Inr (l, d') \<Longrightarrow> client_step P d d'"
| renew: "renew_lease now dbnow jid owner ep secs d = Inr (b, d') \<Longrightarrow> client_step P d d'"
| other: "jobs d' = jobs d \<Longrightarrow> client_step P d d'"

text \<open>
  Any statement at all, and the statements of clients that never name SUCCESS as the status an update
  expects. The components of the program are such clients: none of them passes \<open>expected_statuses\<close>.
\<close>

abbreviation repo_step :: "db \<Rightarrow> db \<Rightarrow> bool" where
  "repo_step \<equiv> client_step (\<lambda>_. True)"

definition spares_success :: "update_opts \<Rightarrow> bool" where
  "spares_success opts \<longleftrightarrow> (\<forall>ss. opt_expected_statuses opts = Some ss \<longrightarrow> status_value SUCCESS \<notin> set ss)"

abbreviation domain_step :: "db \<Rightarrow> db \<Rightarrow> bool" where
  "domain_step \<equiv> client_step spares_success"

lemma spares_success_None [simp]: "opt_expected_statuses opts = None \<Longrightarrow> spares_success opts"
  by (simp add: spares_success_def)

text \<open>
  Every statement changes one row at most, and in one of four ways.
\<close>

inductive row_step :: "(update_opts \<Rightarrow> bool) \<Rightarrow> JobModel option \<Rightarrow> JobModel option \<Rightarrow> bool" for P where
  same: "row_step P r r"
| insert: "jm_lease_epoch r = 0 \<Longrightarrow> jm_lease_owner r = None \<Longrightarrow> row_step P None (Some r)"
| cas: "cas_matches (source_statuses (opt_expected_statuses opts) (status_value target)) opts r \<Longrightarrow>
     P opts \<Longrightarrow> row_step P (Some r) (Some (cas_row now target opts r))"
| claim: "claimable now r \<Longrightarrow> row_step P (Some r) (Some (claim_row now dbnow owner secs r))"
| renew: "jm_lease_owner r = Some owner \<Longrightarrow>
     row_step P (Some r) (Some (renew_row now dbnow secs r))"

inductive_cases row_step_Some: "row_step P (Some r) x"
inductive_cases row_step_None: "row_step P None x"

lemma repo_step_row:
  assumes "client_step P d d'"
  shows "row_step P (jobs d k) (jobs d' k)"
  using assms
proof (cases rule: client_step.cases)
  case (add now j)
  then show ?thesis
    by (auto simp: job_add_def varchar_Inr intro!: row_step.insert row_step.same split: if_splits)
next
  case (update now jid st opts x)
  show ?thesis
  proof (cases x)
    case None
    with update show ?thesis by (auto dest: update_status_None intro: row_step.same)
  next
    case (Some j)
    with update show ?thesis
      by (auto elim!: update_status_won intro: row_step.intros)
  qed
next
  case (claim now dbnow jid owner secs x)
  show ?thesis
  proof (cases x)
    case None
    with claim show ?thesis by (auto dest: claim_None intro: row_step.same)
  next
    case (Some l)
    with claim show ?thesis by (auto elim!: claim_Some intro: row_step.intros)
  qed
next
  case (renew now dbnow jid owner ep secs b)
  show ?thesis
  proof (cases b)
    case True
    with renew show ?thesis by (auto elim!: renew_True intro: row_step.intros)
  next
    case False
    with renew show ?thesis by (auto dest: renew_False intro: row_step.same)
  qed
next
  case other
  then show ?thesis by (simp add: row_step.same)
qed

subsection \<open>Row invariant\<close>

definition row_ok :: "string \<Rightarrow> JobModel \<Rightarrow> bool" where
  "row_ok k r \<longleftrightarrow>
     jm_id r = k \<and> jm_status r \<in> range status_value \<and> 0 \<le> jm_lease_epoch r
     \<and> (jm_lease_owner r \<noteq> None \<longrightarrow> 0 < jm_lease_epoch r)"

definition jobs_ok :: "db \<Rightarrow> bool" where
  "jobs_ok d \<longleftrightarrow> (\<forall>k r. jobs d k = Some r \<longrightarrow> row_ok k r)"

lemma row_step_ok:
  assumes "row_step P x y" and "\<And>r. x = Some r \<Longrightarrow> row_ok k r"
    and "y = Some r'" and "x \<noteq> None"
  shows "row_ok k r'"
  using assms
  by (cases rule: row_step.cases)
     (auto simp: row_ok_def cas_row_def claim_row_def renew_row_def split: if_splits)

lemma job_add_ok: "job_add now j d = Inr d' \<Longrightarrow> jobs_ok d \<Longrightarrow> jobs_ok d'"
  by (auto simp: job_add_def jobs_ok_def row_ok_def varchar_Inr split: if_splits)

lemma repo_step_dom:
  assumes "client_step P d d'" and "\<nexists>now j. job_add now j d = Inr d'" and "jobs d' k = Some r'"
  shows "jobs d k \<noteq> None"
  using assms
proof (cases rule: client_step.cases)
  case (update now jid st opts x)
  with assms(3) show ?thesis
    by (cases x) (auto dest: update_status_None elim!: update_status_won split: if_splits)
next
  case (claim now dbnow jid owner secs x)
  with assms(3) show ?thesis
    by (cases x) (auto dest: claim_None elim!: claim_Some split: if_splits)
next
  case (renew now dbnow jid owner ep secs b)
  with assms(3) show ?thesis
    by (cases b) (auto dest: renew_False elim!: renew_True split: if_splits)
qed auto

lemma repo_step_ok: "client_step P d d' \<Longrightarrow> jobs_ok d \<Longrightarrow> jobs_ok d'"
proof (cases "\<exists>now j. job_add now j d = Inr d'")
  case False
  assume step: "client_step P d d'" and ok: "jobs_ok d"
  show ?thesis
    unfolding jobs_ok_def
  proof (intro allI impI)
    fix k r'
    assume r': "jobs d' k = Some r'"
    have "jobs d k \<noteq> None"
      using step False r' by (rule repo_step_dom)
    then show "row_ok k r'"
      using repo_step_row [OF step, of k] ok r'
      by (auto simp: jobs_ok_def intro: row_step_ok)
  qed
qed (auto intro: job_add_ok)

interpretation jobs_inv: invariant_system "client_step P" jobs_ok for P
  by unfold_locales (rule repo_step_ok)

subsection \<open>A small database\<close>

text \<open>One job, for the concrete runs below.\<close>

definition sample_row :: "JobStatus \<Rightarrow> string option \<Rightarrow> instant option \<Rightarrow> int \<Rightarrow> JobModel" where
  "sample_row st owner until epoch =
     \<lparr>jm_id = ''j1'', jm_request_payload = PDict [], jm_status = status_value st,
      jm_retry_count = 0, jm_result = None, jm_error_message = None, jm_lease_owner = owner,
      jm_lease_expires_at = until, jm_lease_epoch = epoch, jm_created_at = 0,
      jm_updated_at = 0\<rparr>"

definition sample_db :: "JobModel \<Rightarrow> db" where
  "sample_db r = empty_db\<lparr>jobs := [''j1'' \<mapsto> r]\<rparr>"

lemma sample_row_fields [simp]:
  "jm_status (sample_row st owner until epoch) = status_value st"
  "jm_lease_owner (sample_row st owner until epoch) = owner"
  "jm_lease_expires_at (sample_row st owner until epoch) = until"
  "jm_lease_epoch (sample_row st owner until epoch) = epoch"
  "jm_id (sample_row st owner until epoch) = ''j1''"
  by (simp_all add: sample_row_def)

lemma sample_db_fields [simp]:
  "jobs (sample_db r) = [''j1'' \<mapsto> r]" "job_events (sample_db r) = []"
  "outbox_messages (sample_db r) = []" "event_seq (sample_db r) = 0"
  "outbox_seq (sample_db r) = 0"
  by (simp_all add: sample_db_def empty_db_def)

lemma sample_db_upd [simp]: "(sample_db r)\<lparr>jobs := [''j1'' \<mapsto> r']\<rparr> = sample_db r'"
  by (simp add: sample_db_def)

subsection \<open>Fencing tokens\<close>

text \<open>
  The contract of a store that hands out fencing tokens: no statement lowers the epoch of a key,
  a claim raises it and returns the new value as its token, and a write that carries a token
  takes effect only while the token is the current epoch.
\<close>

locale lease_store =
  fixes step :: "'d \<Rightarrow> 'd \<Rightarrow> bool"
    and epoch :: "'d \<Rightarrow> 'k \<Rightarrow> int option"
    and claims :: "'d \<Rightarrow> 'k \<Rightarrow> int \<Rightarrow> 'd \<Rightarrow> bool"
    and writes :: "'d \<Rightarrow> 'k \<Rightarrow> int \<Rightarrow> 'd \<Rightarrow> bool"
  assumes step_epoch: "step d d' \<Longrightarrow> epoch d k = Some e \<Longrightarrow> \<exists>e'. epoch d' k = Some e' \<and> e \<le> e'"
    and claim_epoch:
      "claims d k e d' \<Longrightarrow> epoch d' k = Some e \<and> (\<exists>e0. epoch d k = Some e0 \<and> e0 < e)"
    and write_token: "writes d k e d' \<Longrightarrow> epoch d k = Some e"
begin

lemma epoch_steps:
  assumes "step\<^sup>*\<^sup>* d d'" and "epoch d k = Some e"
  shows "\<exists>e'. epoch d' k = Some e' \<and> e \<le> e'"
  using assms(1)
proof (induction rule: rtranclp_induct)
  case base
  with assms(2) show ?case by simp
next
  case (step y z)
  then obtain e1 where "epoch y k = Some e1" "e \<le> e1" by blast
  with step_epoch [OF step.hyps(2)] show ?case by (meson order_trans)
qed

lemma tokens_increase:
  assumes "claims d0 k e d1" and "step\<^sup>*\<^sup>* d1 d2" and "claims d2 k e2 d3"
  shows "e < e2"
proof -
  from epoch_steps [OF assms(2)] claim_epoch [OF assms(1)]
  obtain e1 where "epoch d2 k = Some e1" "e \<le> e1" by blast
  with claim_epoch [OF assms(3)] show ?thesis by auto
qed

lemma stale_write_impossible:
  assumes "claims d0 k e d1" and "step\<^sup>*\<^sup>* d1 d2" and "claims d2 k e2 d3" and "step\<^sup>*\<^sup>* d3 d4"
  shows "\<not> writes d4 k e d5"
proof
  assume "writes d4 k e d5"
  then have "epoch d4 k = Some e" by (rule write_token)
  moreover from epoch_steps [OF assms(4)] claim_epoch [OF assms(3)]
  obtain e4 where "epoch d4 k = Some e4" "e2 \<le> e4" by blast
  moreover have "e < e2" using assms(1-3) by (rule tokens_increase)
  ultimately show False by simp
qed

end

text \<open>The repository as an instance: the epoch is the \<open>lease_epoch\<close> column.\<close>

definition job_epoch :: "db \<Rightarrow> string \<Rightarrow> int option" where
  "job_epoch d k = map_option jm_lease_epoch (jobs d k)"

definition claims_job :: "db \<Rightarrow> string \<Rightarrow> int \<Rightarrow> db \<Rightarrow> bool" where
  "claims_job d k e d' \<longleftrightarrow>
     (\<exists>now dbnow owner secs l.
        claim_for_processing now dbnow (PStr k) owner secs d = Inr (Some l, d')
        \<and> lease_epoch l = e)"

definition writes_job :: "db \<Rightarrow> string \<Rightarrow> int \<Rightarrow> db \<Rightarrow> bool" where
  "writes_job d k e d' \<longleftrightarrow>
     (\<exists>now st opts j.
        update_status now (PStr k) st opts d = Inr (Some j, d')
        \<and> opt_lease_epoch opts = Some e \<and> opt_expected_statuses opts = None)"

lemma row_step_epoch:
  "row_step P (Some r) x \<Longrightarrow> \<exists>r'. x = Some r' \<and> jm_lease_epoch r \<le> jm_lease_epoch r'"
  by (erule row_step_Some) (auto simp: claim_row_def renew_row_def)

interpretation fencing: lease_store "client_step P" job_epoch claims_job writes_job for P
proof unfold_locales
  fix d d' k e
  assume "client_step P d d'" and "job_epoch d k = Some e"
  then obtain r where "row_step P (Some r) (jobs d' k)" "e = jm_lease_epoch r"
    by (auto simp: job_epoch_def dest: repo_step_row [of P d d' k])
  then show "\<exists>e'. job_epoch d' k = Some e' \<and> e \<le> e'"
    by (auto simp: job_epoch_def dest: row_step_epoch)
next
  fix d k e d'
  assume "claims_job d k e d'"
  then show "job_epoch d' k = Some e \<and> (\<exists>e0. job_epoch d k = Some e0 \<and> e0 < e)"
    by (auto simp: claims_job_def job_epoch_def claim_row_def elim!: claim_Some)
next
  fix d k e d'
  assume "writes_job d k e d'"
  then show "job_epoch d k = Some e"
    by (auto simp: writes_job_def job_epoch_def cas_matches_def elim!: update_status_Some)
qed

text \<open>
  C7: Fencing. After a worker's claim of a job, once another claim of the same job has succeeded,
  with any statements of any clients in between and afterwards, a status update that carries the
  first worker's epoch matches no row and changes nothing; the second epoch is larger.
\<close>

theorem stale_writer_fenced:
  assumes "claim_for_processing t1 s1 (PStr k) ow1 secs1 d0 = Inr (Some l1, d1)"
    and "repo_step\<^sup>*\<^sup>* d1 d2"
    and "claim_for_processing t2 s2 (PStr k) ow2 secs2 d2 = Inr (Some l2, d3)"
    and "repo_step\<^sup>*\<^sup>* d3 d4"
    and "target \<noteq> PENDING"
    and "opt_lease_epoch opts = Some (lease_epoch l1)" and "opt_expected_statuses opts = None"
  shows "update_status s3 (PStr k) (status_value target) opts d4 = Inr (None, d4)
         \<and> lease_epoch l1 < lease_epoch l2"
proof -
  have c1: "claims_job d0 k (lease_epoch l1) d1" and c2: "claims_job d2 k (lease_epoch l2) d3"
    using assms(1,3) unfolding claims_job_def by blast+
  have no: "\<not> writes_job d4 k (lease_epoch l1) d5" for d5
    using c1 assms(2) c2 assms(4) by (rule fencing.stale_write_impossible)
  have "job_epoch d4 k \<noteq> None"
    using fencing.epoch_steps [OF assms(4)] fencing.claim_epoch [OF c2] by fastforce
  then obtain r where r: "jobs d4 k = Some r" by (auto simp: job_epoch_def)
  have "\<not> cas_matches (allowed_source_statuses target) opts r"
  proof
    assume "cas_matches (allowed_source_statuses target) opts r"
    then have "\<exists>j d5. update_status s3 (PStr k) (status_value target) opts d4 = Inr (Some j, d5)"
      using r assms(5,7) by (simp add: update_status_eq job_of_row_ok)
    with no assms(6,7) show False unfolding writes_job_def by blast
  qed
  then have "update_status s3 (PStr k) (status_value target) opts d4 = Inr (None, d4)"
    using r assms(5,7) by (simp add: update_status_eq)
  moreover have "lease_epoch l1 < lease_epoch l2"
    using c1 assms(2) c2 by (rule fencing.tokens_increase)
  ultimately show ?thesis by simp
qed

text \<open>
  A worker's lease of one second is taken over five seconds later; its late result is refused.
\<close>

theorem stale_writer_fenced_witness:
  "let r2 = claim_row 5000000 0 ''b'' 1 (claim_row 0 0 ''a'' 1 (sample_row PENDING None None 0))
   in update_status 6000000 (PStr ''j1'') (status_value SUCCESS)
        (default_opts\<lparr>opt_lease_epoch := Some 1\<rparr>) (sample_db r2) = Inr (None, sample_db r2)"
proof -
  let ?r0 = "sample_row PENDING None None 0"
  let ?r1 = "claim_row 0 0 ''a'' 1 ?r0" and ?r2 = "claim_row 5000000 0 ''b'' 1 (claim_row 0 0 ''a'' 1 ?r0)"
  have "\<exists>l. claim_for_processing 0 0 (PStr ''j1'') ''a'' 1 (sample_db ?r0)
      = Inr (Some l, sample_db ?r1) \<and> lease_epoch l = 1"
    by (simp add: claim_eq claimable_def)
  then obtain l1 where l1: "claim_for_processing 0 0 (PStr ''j1'') ''a'' 1 (sample_db ?r0)
      = Inr (Some l1, sample_db ?r1)" "lease_epoch l1 = 1" by blast
  have "\<exists>l. claim_for_processing 5000000 0 (PStr ''j1'') ''b'' 1 (sample_db ?r1)
      = Inr (Some l, sample_db ?r2)"
    by (simp add: claim_eq claimable_def) (simp add: claim_row_def lease_until_def)
  then obtain l2 where l2: "claim_for_processing 5000000 0 (PStr ''j1'') ''b'' 1 (sample_db ?r1)
      = Inr (Some l2, sample_db ?r2)" by blast
  from stale_writer_fenced [OF l1(1) rtranclp.rtrancl_refl l2 rtranclp.rtrancl_refl, of SUCCESS
      "default_opts\<lparr>opt_lease_epoch := Some 1\<rparr>" 6000000] l1(2)
  show ?thesis by (simp add: default_opts_def)
qed

subsection \<open>SUCCESS is final\<close>

definition outcome :: "JobModel \<Rightarrow> string \<times> pyval option \<times> string option" where
  "outcome r = (jm_status r, jm_result r, jm_error_message r)"

lemma row_step_success:
  assumes "row_step spares_success (Some r) x" and "jm_status r = status_value SUCCESS"
  shows "\<exists>r'. x = Some r' \<and> outcome r' = outcome r"
  using assms(1)
proof (cases rule: row_step.cases)
  case (cas opts target now)
  with assms(2) have "SUCCESS \<in> source_statuses (opt_expected_statuses opts) (status_value target)"
    by (auto simp: cas_matches_def)
  with cas(3) show ?thesis using terminal_not_source [of SUCCESS target]
    by (auto simp: source_statuses_def spares_success_def TERMINAL_STATUSES_def split: option.splits)
next
  case (claim now dbnow owner secs)
  with assms(2) show ?thesis by (auto simp: claimable_def)
qed (auto simp: outcome_def renew_row_def)

definition same_success :: "db \<Rightarrow> db \<Rightarrow> bool" where
  "same_success d d' \<longleftrightarrow>
     (\<forall>k r. jobs d k = Some r \<longrightarrow> jm_status r = status_value SUCCESS \<longrightarrow>
        (\<exists>r'. jobs d' k = Some r' \<and> outcome r' = outcome r))"

lemma same_success_refl: "same_success d d"
  by (simp add: same_success_def)

lemma same_success_trans: "same_success d d' \<Longrightarrow> same_success d' d'' \<Longrightarrow> same_success d d''"
  unfolding same_success_def outcome_def by (metis prod.inject)

lemma same_success_jobs: "jobs d' = jobs d \<Longrightarrow> same_success d d'"
  by (simp add: same_success_def)

lemma repo_step_success: "domain_step d d' \<Longrightarrow> same_success d d'"
  unfolding same_success_def using repo_step_row row_step_success by metis

interpretation success_final: monotone_system domain_step same_success
  by unfold_locales (auto intro: same_success_refl same_success_trans repo_step_success)

text \<open>
  C9: A finished job stays finished. Whatever statements any clients run, in any order, a row that is SUCCESS
  keeps its status, its result and its error column, as long as no status update names SUCCESS among the
  \<open>expected_statuses\<close> it starts from; the components of the program pass no \<open>expected_statuses\<close> at all.
\<close>

theorem success_outcome_stable:
  assumes "(client_step P)\<^sup>*\<^sup>* d d'"
    and "\<forall>opts. P opts \<longrightarrow> (\<forall>ss. opt_expected_statuses opts = Some ss \<longrightarrow> status_value SUCCESS \<notin> set ss)"
    and "jobs d k = Some r" and "jm_status r = status_value SUCCESS"
  shows "\<exists>r'. jobs d' k = Some r' \<and> outcome r' = outcome r"
proof -
  have "domain_step x y" if "client_step P x y" for x y
    using that assms(2) by cases (auto intro: client_step.intros simp: spares_success_def)
  then have "domain_step\<^sup>*\<^sup>* d d'" using assms(1) by (meson mono_rtranclp)
  from success_final.le_steps [OF this] assms(3,4) show ?thesis by (simp add: same_success_def)
qed

text \<open>A claim of a finished job finds it unclaimable and leaves it.\<close>

theorem success_outcome_stable_witness:
  "\<exists>r'. jobs (snd (projr (claim_for_processing 9 9 (PStr ''j1'') ''b'' 1
           (sample_db (sample_row SUCCESS None None 1))))) ''j1'' = Some r'
        \<and> outcome r' = (status_value SUCCESS, None, None)"
proof -
  let ?d = "sample_db (sample_row SUCCESS None None 1)"
  let ?P = "\<lambda>opts. opt_expected_statuses opts = None"
  have "client_step ?P ?d (snd (projr (claim_for_processing 9 9 (PStr ''j1'') ''b'' 1 ?d)))"
    by (rule client_step.claim [of 9 9 "PStr ''j1''" "''b''" 1 _ None])
       (simp add: claim_eq claimable_def)
  from success_outcome_stable [OF r_into_rtranclp [of "client_step ?P", OF this], of "''j1''"
      "sample_row SUCCESS None None 1"]
  show ?thesis by (simp add: outcome_def sample_row_def)
qed

text \<open>
  The condition is needed: the repository takes whatever statuses the caller expects, also SUCCESS, and
  then overwrites the finished job.
\<close>

lemma expected_success_overwritten:
  assumes "jobs d k = Some r" "jm_status r = status_value SUCCESS"
  shows "\<exists>j. update_status now (PStr k) (status_value FAILED)
      (default_opts\<lparr>opt_error := Some e, opt_expected_statuses := Some [status_value SUCCESS]\<rparr>) d
    = Inr (Some j, d\<lparr>jobs := (jobs d)(k \<mapsto> cas_row now FAILED (default_opts\<lparr>opt_error := Some e\<rparr>) r)\<rparr>)"
  using assms
  by (simp add: update_status_def update_returning_PStr cas_matches_def default_opts_def cas_row_def
        job_of_row_def)

end
