(* ===== verification/Kafka.thy ===== *)
theory Kafka
  imports Job_Repository
begin

section \<open>The process state and the Kafka publisher\<close>

text \<open>
  The state a process works on: the shared database, the metric registry, and the history of
  what it sent to Kafka. The producer client is not part of the repository; it is a parameter
  (\<open>send_result\<close>, the verdict on each \<open>send\<close> by call number), and \<open>acked\<close> is the history of
  the sends it acknowledged. The wall clock is a parameter in the same way.
  \<open>KafkaEventPublisher\<close> is \<open>app/adapters/messaging/kafka.py\<close>.
\<close>

type_synonym headers = "(string \<times> string) list"

record kafka_record =
  kr_topic :: string
  kr_value :: pyval
  kr_headers :: "headers option"

record world =
  wdb :: db
  metrics :: metrics
  acked :: "kafka_record list"
  send_calls :: nat
  clock_reads :: nat

record externals =
  send_result :: "nat \<Rightarrow> kafka_record \<Rightarrow> py_exc option"
  clock_ms :: "nat \<Rightarrow> int"

definition count_metric :: "metric \<Rightarrow> rat \<Rightarrow> world \<Rightarrow> world" where
  "count_metric k n w = w\<lparr>metrics := metric_add k n (metrics w)\<rparr>"

definition set_gauge :: "metric \<Rightarrow> rat \<Rightarrow> world \<Rightarrow> world" where
  "set_gauge k n w = w\<lparr>metrics := metric_set k n (metrics w)\<rparr>"

lemma count_metric_sel [simp]:
  "wdb (count_metric k n w) = wdb w"
  "acked (count_metric k n w) = acked w"
  "send_calls (count_metric k n w) = send_calls w"
  "clock_reads (count_metric k n w) = clock_reads w"
  "metrics (count_metric k n w) = metric_add k n (metrics w)"
  by (simp_all add: count_metric_def)

lemma set_gauge_sel [simp]:
  "wdb (set_gauge k n w) = wdb w"
  "acked (set_gauge k n w) = acked w"
  "send_calls (set_gauge k n w) = send_calls w"
  "clock_reads (set_gauge k n w) = clock_reads w"
  "metrics (set_gauge k n w) = metric_set k n (metrics w)"
  by (simp_all add: set_gauge_def)

text \<open>
  \<open>publish\<close>: an empty or absent header dict is sent as no headers; values are encoded, which is
  the identity on this representation of \<open>str\<close>.
\<close>

definition wire_headers :: "headers option \<Rightarrow> headers option" where
  "wire_headers hs = (case hs of None \<Rightarrow> None | Some [] \<Rightarrow> None | Some (h # t) \<Rightarrow> Some (h # t))"

definition publish ::
  "externals \<Rightarrow> string \<Rightarrow> pyval \<Rightarrow> headers option \<Rightarrow> world \<Rightarrow> unit res \<times> world" where
  "publish ext topic event hs w =
     (let rec = \<lparr>kr_topic = topic, kr_value = event, kr_headers = wire_headers hs\<rparr>;
          w' = w\<lparr>send_calls := Suc (send_calls w)\<rparr>
      in case send_result ext (send_calls w) rec of
           Some e \<Rightarrow> (Inl e, w')
         | None \<Rightarrow>
             (Inr (), count_metric JOB_EVENT_PUBLISHED_TOTAL 1 (w'\<lparr>acked := acked w @ [rec]\<rparr>)))"

text \<open>The started flag of the publisher around the producer's own start and stop.\<close>

record KafkaEventPublisher =
  kp_started :: bool

definition publisher_init :: KafkaEventPublisher where
  "publisher_init = \<lparr>kp_started = False\<rparr>"

text \<open>
  \<open>start\<close> and \<open>stop\<close> call the producer, whose call may raise (\<open>Some e\<close>); the flag then keeps
  its value.
\<close>

definition publisher_start :: "py_exc option \<Rightarrow> KafkaEventPublisher \<Rightarrow> unit res \<times> KafkaEventPublisher" where
  "publisher_start answer p =
     (case answer of Some e \<Rightarrow> (Inl e, p) | None \<Rightarrow> (Inr (), p\<lparr>kp_started := True\<rparr>))"

definition publisher_stop :: "py_exc option \<Rightarrow> KafkaEventPublisher \<Rightarrow> unit res \<times> KafkaEventPublisher" where
  "publisher_stop answer p =
     (if kp_started p then
        (case answer of Some e \<Rightarrow> (Inl e, p) | None \<Rightarrow> (Inr (), p\<lparr>kp_started := False\<rparr>))
      else (Inr (), p))"

text \<open>
  \<open>readiness\<close>: the number of brokers in the producer's metadata, the result of a bootstrap
  attempt, and the number of brokers afterwards are what the client library answers, or the
  exception it raises.
\<close>

definition broker_detail :: "nat \<Rightarrow> string" where
  "broker_detail n = ''ok ('' @ str_int (int n) @ '' broker(s))''"

definition readiness ::
  "nat res \<Rightarrow> bool res \<Rightarrow> nat res \<Rightarrow> KafkaEventPublisher \<Rightarrow> bool \<times> string" where
  "readiness brokers bootstrap brokers_after p =
     (if \<not> kp_started p then (False, ''producer not started'')
      else
        (case bind_res brokers (\<lambda>n.
                if n \<noteq> 0 then Inr (True, broker_detail n)
                else bind_res bootstrap (\<lambda>b.
                     bind_res brokers_after (\<lambda>n'.
                       if b \<or> n' \<noteq> 0 then Inr (True, broker_detail n')
                       else Inr (False, ''kafka bootstrap not ready'')))) of
           Inl e \<Rightarrow> (False, exc_str e)
         | Inr r \<Rightarrow> r))"

subsection \<open>Publishing\<close>

lemma publish_wdb [simp]: "wdb (snd (publish ext t v hs w)) = wdb w"
  by (simp add: publish_def Let_def split: option.splits)

lemma publish_Inr:
  assumes "publish ext t v hs w = (Inr u, w')"
  shows "acked w' = acked w @ [\<lparr>kr_topic = t, kr_value = v, kr_headers = wire_headers hs\<rparr>]"
    and "metrics w' = metric_add JOB_EVENT_PUBLISHED_TOTAL 1 (metrics w)"
    and "wdb w' = wdb w" and "clock_reads w' = clock_reads w"
    and "send_calls w' = Suc (send_calls w)"
  using assms by (auto simp: publish_def Let_def split: option.splits)

lemma publish_Inl:
  assumes "publish ext t v hs w = (Inl e, w')"
  shows "w' = w\<lparr>send_calls := Suc (send_calls w)\<rparr>"
    and "send_result ext (send_calls w)
           \<lparr>kr_topic = t, kr_value = v, kr_headers = wire_headers hs\<rparr> = Some e"
  using assms by (auto simp: publish_def Let_def split: option.splits)

lemma publish_acked_mono: "\<exists>zs. acked (snd (publish ext t v hs w)) = acked w @ zs"
  by (auto simp: publish_def Let_def split: option.splits)

text \<open>A process that has done nothing yet, and surroundings in which every send succeeds.\<close>

definition sample_world :: "db \<Rightarrow> world" where
  "sample_world d =
     \<lparr>wdb = d, metrics = (\<lambda>_. 0), acked = [], send_calls = 0, clock_reads = 0\<rparr>"

definition sample_externals :: externals where
  "sample_externals = \<lparr>send_result = (\<lambda>_ _. None), clock_ms = (\<lambda>n. 1000 + int n)\<rparr>"

lemma sample_world_fields [simp]:
  "wdb (sample_world d) = d" "acked (sample_world d) = []" "send_calls (sample_world d) = 0"
  "clock_reads (sample_world d) = 0"
  by (simp_all add: sample_world_def)

lemma sample_externals_fields [simp]:
  "send_result sample_externals n rec = None" "clock_ms sample_externals n = 1000 + int n"
  by (simp_all add: sample_externals_def)

end
