(* ===== verification/Outbox.thy ===== *)
theory Outbox
  imports Kafka
begin

section \<open>Transactional outbox and its relay\<close>

text \<open>
  \<open>SqlAlchemyOutboxRepository\<close> of \<open>app/adapters/db/repositories.py\<close> and \<open>OutboxRelay\<close> of
  \<open>app/adapters/messaging/outbox_relay.py\<close>. The locale \<open>outbox_port\<close> states what the relay
  needs of the repository: the pending messages form a queue ordered by id, publishing removes
  exactly the marked ones and a failure keeps the message where it is.
\<close>

subsection \<open>Repository\<close>

record OutboxItem =
  oi_id :: int
  oi_message_id :: string
  oi_topic :: string
  oi_payload :: pyval
  oi_headers :: "headers option"
  oi_attempts :: int

definition ROW_LOCK_DIALECTS :: "string set" where
  "ROW_LOCK_DIALECTS = {''postgresql'', ''mysql'', ''mariadb''}"

definition outbox_add ::
  "instant \<Rightarrow> string \<Rightarrow> string \<Rightarrow> pyval \<Rightarrow> headers option \<Rightarrow> db \<Rightarrow> (string \<times> db) res" where
  "outbox_add dbnow message_id topic payload hs d =
     bind_res (varchar 64 (PStr message_id)) (\<lambda>mid.
     bind_res (varchar 128 (PStr topic)) (\<lambda>tp.
       if mid \<in> ob_message_id ` set (outbox_messages d)
       then Inl (PyExc ''IntegrityError'' ''duplicate key in uq_outbox_messages_message_id'')
       else Inr (mid,
              d\<lparr>outbox_seq := outbox_seq d + 1,
                outbox_messages := outbox_messages d @
                  [\<lparr>ob_id = outbox_seq d + 1, ob_message_id = mid, ob_topic = tp,
                    ob_payload = payload, ob_headers = hs, ob_status = ''PENDING'',
                    ob_attempts = 0, ob_last_error = None, ob_created_at = dbnow,
                    ob_published_at = None\<rparr>]\<rparr>)))"

definition item_of_row :: "OutboxMessageModel \<Rightarrow> OutboxItem" where
  "item_of_row r =
     \<lparr>oi_id = ob_id r, oi_message_id = ob_message_id r, oi_topic = ob_topic r,
      oi_payload = ob_payload r, oi_headers = ob_headers r, oi_attempts = ob_attempts r\<rparr>"

definition is_pending :: "OutboxMessageModel \<Rightarrow> bool" where
  "is_pending r \<longleftrightarrow> ob_status r = ''PENDING''"

text \<open>
  \<open>dialect\<close> is the dialect name of the session's bind, if it has one; \<open>locked\<close> tells which rows
  another transaction holds, and those are skipped where the dialect has row locks.
\<close>

definition fetch_pending ::
  "string option \<Rightarrow> (int \<Rightarrow> bool) \<Rightarrow> int \<Rightarrow> db \<Rightarrow> OutboxItem list" where
  "fetch_pending dialect locked limit d =
     (let skip = (case dialect of None \<Rightarrow> False | Some n \<Rightarrow> n \<in> ROW_LOCK_DIALECTS)
      in map item_of_row
           (take (nat limit)
              (sort_key ob_id
                 (filter (\<lambda>r. is_pending r \<and> \<not> (skip \<and> locked (ob_id r))) (outbox_messages d)))))"

definition publish_row :: "instant \<Rightarrow> OutboxMessageModel \<Rightarrow> OutboxMessageModel" where
  "publish_row now r =
     r\<lparr>ob_status := ''PUBLISHED'', ob_published_at := Some now, ob_last_error := None\<rparr>"

definition mark_published :: "instant \<Rightarrow> int list \<Rightarrow> db \<Rightarrow> db" where
  "mark_published now ids d =
     (if ids = [] then d
      else d\<lparr>outbox_messages :=
               map (\<lambda>r. if ob_id r \<in> set ids then publish_row now r else r) (outbox_messages d)\<rparr>)"

definition fail_row :: "string \<Rightarrow> OutboxMessageModel \<Rightarrow> OutboxMessageModel" where
  "fail_row err r = r\<lparr>ob_attempts := ob_attempts r + 1, ob_last_error := Some (str_take 500 err)\<rparr>"

definition mark_failed :: "int \<Rightarrow> string \<Rightarrow> db \<Rightarrow> db" where
  "mark_failed rid err d =
     d\<lparr>outbox_messages :=
         map (\<lambda>r. if ob_id r = rid then fail_row err r else r) (outbox_messages d)\<rparr>"

subsection \<open>Relay\<close>

record OutboxRelay =
  rl_batch_size :: int
  rl_poll_interval :: rat
  rl_task :: bool
  rl_stopping :: bool

definition relay_init :: "int \<Rightarrow> rat \<Rightarrow> OutboxRelay" where
  "relay_init batch_size poll_interval_seconds =
     \<lparr>rl_batch_size = max 1 batch_size, rl_poll_interval = max (5 / 100) poll_interval_seconds,
      rl_task = False, rl_stopping = False\<rparr>"

text \<open>
  What one pass draws from its surroundings: the dialect, the rows locked by other relays, a
  failure of the fetch, what other clients commit to the database while the pass runs, the clock, and the verdict on the commit.
\<close>

record relay_env =
  re_dialect :: "string option"
  re_locked :: "int \<Rightarrow> bool"
  re_fetch_fault :: "py_exc option"
  re_during :: "db \<Rightarrow> db"
  re_now :: instant
  re_fault :: tx_fault

fun drain_loop ::
  "externals \<Rightarrow> OutboxItem list \<Rightarrow> int list \<Rightarrow> db \<Rightarrow> world \<Rightarrow> int list \<times> db \<times> world" where
  "drain_loop ext [] sent d w = (sent, d, w)"
| "drain_loop ext (m # ms) sent d w =
     (case publish ext (oi_topic m) (oi_payload m) (oi_headers m) w of
        (Inl e, w') \<Rightarrow>
          (sent, mark_failed (oi_id m) (exc_type e @ '': '' @ exc_str e) d,
           count_metric OUTBOX_PUBLISH_FAILURE_TOTAL 1 w')
      | (Inr _, w') \<Rightarrow> drain_loop ext ms (sent @ [oi_id m]) d w')"

definition drain_once ::
  "OutboxRelay \<Rightarrow> externals \<Rightarrow> relay_env \<Rightarrow> world \<Rightarrow> nat res \<times> world" where
  "drain_once rl ext re w =
     (let d0 = re_during re (wdb w)
      in case re_fetch_fault re of
           Some e \<Rightarrow> (Inl e, w\<lparr>wdb := d0\<rparr>)
         | None \<Rightarrow>
             (let items = fetch_pending (re_dialect re) (re_locked re) (rl_batch_size rl) (wdb w)
              in if items = [] then (Inr 0, set_gauge OUTBOX_PENDING_BACKLOG 0 (w\<lparr>wdb := d0\<rparr>))
                 else
                   (let (sent, d1, w1) =
                          drain_loop ext items [] d0
                            (set_gauge OUTBOX_PENDING_BACKLOG (of_nat (length items)) w);
                        d2 = mark_published (re_now re) sent d1
                    in case re_fault re of
                         TxAbort e \<Rightarrow> (Inl e, w1\<lparr>wdb := d0\<rparr>)
                       | TxCommitFail e \<Rightarrow> (Inl e, w1\<lparr>wdb := d0\<rparr>)
                       | TxAmbiguous e \<Rightarrow> (Inl e, w1\<lparr>wdb := d2\<rparr>)
                       | TxOk \<Rightarrow>
                           (Inr (length sent),
                            if sent \<noteq> []
                            then count_metric OUTBOX_PUBLISHED_TOTAL (of_nat (length sent))
                                   (w1\<lparr>wdb := d2\<rparr>)
                            else w1\<lparr>wdb := d2\<rparr>))))"

text \<open>
  \<open>_loop\<close>: passes until the stop flag is seen (the first component of each entry); an exception
  of a pass is logged and counts as nothing published. The second result lists, per pass,
  whether the loop slept afterwards.
\<close>

fun relay_loop ::
  "OutboxRelay \<Rightarrow> externals \<Rightarrow> (bool \<times> relay_env) list \<Rightarrow> world \<Rightarrow> world \<times> bool list" where
  "relay_loop rl ext [] w = (w, [])"
| "relay_loop rl ext ((stopping, re) # res) w =
     (if stopping then (w, [])
      else
        (let (r, w') = drain_once rl ext re w;
             published = (case r of Inl _ \<Rightarrow> 0 | Inr n \<Rightarrow> n);
             (w'', sleeps) = relay_loop rl ext res w'
         in (w'', (published = 0) # sleeps)))"

definition relay_start :: "OutboxRelay \<Rightarrow> OutboxRelay" where
  "relay_start rl = (if \<not> rl_task rl then rl\<lparr>rl_stopping := False, rl_task := True\<rparr> else rl)"

definition relay_stop :: "OutboxRelay \<Rightarrow> OutboxRelay" where
  "relay_stop rl = (if \<not> rl_task rl then rl else rl\<lparr>rl_stopping := True, rl_task := False\<rparr>)"

subsection \<open>The table as a queue\<close>

text \<open>
  Ids are handed out in increasing order and rows are never removed, so the table is sorted.
\<close>

definition outbox_ok :: "db \<Rightarrow> bool" where
  "outbox_ok d \<longleftrightarrow>
     sorted_wrt (<) (map ob_id (outbox_messages d))
     \<and> (\<forall>r \<in> set (outbox_messages d). ob_id r \<le> outbox_seq d)"

definition pending_items :: "db \<Rightarrow> OutboxItem list" where
  "pending_items d = map item_of_row (filter is_pending (outbox_messages d))"

definition wire_record :: "OutboxItem \<Rightarrow> kafka_record" where
  "wire_record m =
     \<lparr>kr_topic = oi_topic m, kr_value = oi_payload m, kr_headers = wire_headers (oi_headers m)\<rparr>"

lemma fetch_pending_unlocked:
  assumes "outbox_ok d" and "\<And>i. \<not> locked i"
  shows "fetch_pending dialect locked limit d = take (nat limit) (pending_items d)"
proof -
  have "sorted_wrt (<) (map ob_id (filter is_pending (outbox_messages d)))"
    using assms(1) by (auto simp: outbox_ok_def sorted_wrt_map sorted_wrt_filter)
  then have "sort_key ob_id (filter is_pending (outbox_messages d))
             = filter is_pending (outbox_messages d)"
    by (rule sort_key_sorted_wrt)
  with assms(2) show ?thesis
    by (simp add: fetch_pending_def pending_items_def take_map Let_def)
qed

lemma fetch_pending_rows:
  "set (fetch_pending dialect locked limit d)
     \<subseteq> item_of_row ` {r \<in> set (outbox_messages d). is_pending r}"
  by (auto simp: fetch_pending_def Let_def dest!: in_set_takeD)

lemma pending_after_marks:
  "filter is_pending (map (\<lambda>r. if ob_id r \<in> A then publish_row now r else r) rows)
     = filter (\<lambda>r. ob_id r \<notin> A) (filter is_pending rows)"
  by (induction rows) (auto simp: is_pending_def publish_row_def)

lemma pending_after_fail:
  "map f (filter is_pending (map (\<lambda>r. if ob_id r = i then fail_row e r else r) rows))
     = map f (filter is_pending rows)"
  if "\<And>r. f (fail_row e r) = f r"
  using that by (induction rows) (auto simp: is_pending_def fail_row_def)

lemma filter_items:
  "filter (\<lambda>i. oi_id i \<notin> A) (map item_of_row rows)
     = map item_of_row (filter (\<lambda>r. ob_id r \<notin> A) rows)"
  by (induction rows) (auto simp: item_of_row_def)

text \<open>
  What the relay relies on: the pending messages are a queue with distinct keys; marking
  messages published takes exactly those out, a failure leaves keys and contents in place.
\<close>

locale outbox_port =
  fixes pending :: "'d \<Rightarrow> 'i list"
    and key :: "'i \<Rightarrow> int"
    and wire :: "'i \<Rightarrow> 'm"
    and published :: "int list \<Rightarrow> 'd \<Rightarrow> 'd"
    and failed :: "int \<Rightarrow> string \<Rightarrow> 'd \<Rightarrow> 'd"
    and ok :: "'d \<Rightarrow> bool"
  assumes distinct_keys: "ok d \<Longrightarrow> distinct (map key (pending d))"
    and published_pending: "pending (published ids d) = filter (\<lambda>i. key i \<notin> set ids) (pending d)"
    and failed_keys: "map key (pending (failed k e d)) = map key (pending d)"
    and failed_wires: "map wire (pending (failed k e d)) = map wire (pending d)"
    and ok_published: "ok d \<Longrightarrow> ok (published ids d)"
    and ok_failed: "ok d \<Longrightarrow> ok (failed k e d)"
begin

lemma filter_prefix_keys:
  assumes "distinct (map key xs)"
  shows "filter (\<lambda>i. key i \<notin> set (map key (take n xs))) xs = drop n xs"
proof -
  have "distinct (map key (take n xs @ drop n xs))" using assms by simp
  then have disj: "set (map key (take n xs)) \<inter> set (map key (drop n xs)) = {}"
    by (simp only: map_append distinct_append)
  let ?P = "\<lambda>i. key i \<notin> set (map key (take n xs))"
  have "filter ?P xs = filter ?P (take n xs) @ filter ?P (drop n xs)"
    by (metis append_take_drop_id filter_append)
  moreover have "filter ?P (take n xs) = []"
    by (auto simp: filter_empty_conv)
  moreover have "filter ?P (drop n xs) = drop n xs"
    using disj by (auto simp: filter_id_conv)
  ultimately show ?thesis by simp
qed

lemma publish_prefix:
  assumes "ok d"
  shows "pending (published (map key (take n (pending d))) d) = drop n (pending d)"
  using distinct_keys [OF assms] by (simp only: published_pending filter_prefix_keys)

lemma publish_prefix_failed:
  assumes "ok d"
  shows "map wire (pending (published (map key (take n (pending d))) (failed k e d)))
         = drop n (map wire (pending d))"
proof -
  let ?d = "failed k e d"
  have "map key (take n (pending d)) = map key (take n (pending ?d))"
    using failed_keys [of k e d] by (simp only: take_map [symmetric])
  then have "pending (published (map key (take n (pending d))) ?d) = drop n (pending ?d)"
    using publish_prefix [OF ok_failed [OF assms]] by simp
  then show ?thesis
    using failed_wires [of k e d] by (simp add: drop_map [symmetric])
qed

end

interpretation relay_port:
  outbox_port pending_items oi_id wire_record "mark_published now" mark_failed outbox_ok for now
proof unfold_locales
  fix d
  assume "outbox_ok d"
  then have "sorted_wrt (<) (map ob_id (filter is_pending (outbox_messages d)))"
    by (auto simp: outbox_ok_def sorted_wrt_map sorted_wrt_filter)
  then show "distinct (map oi_id (pending_items d))"
    by (simp add: pending_items_def item_of_row_def comp_def sorted_map_less_distinct)
next
  show "pending_items (mark_published now ids d)
        = filter (\<lambda>i. oi_id i \<notin> set ids) (pending_items d)" for ids d
    by (simp add: mark_published_def pending_items_def pending_after_marks filter_items)
next
  show "map oi_id (pending_items (mark_failed k e d)) = map oi_id (pending_items d)" for k e d
    by (simp add: mark_failed_def pending_items_def comp_def item_of_row_def pending_after_fail
                  fail_row_def)
next
  show "map wire_record (pending_items (mark_failed k e d)) = map wire_record (pending_items d)"
    for k e d
    by (simp add: mark_failed_def pending_items_def comp_def item_of_row_def wire_record_def
                  pending_after_fail fail_row_def)
next
  show "outbox_ok d \<Longrightarrow> outbox_ok (mark_published now ids d)" for ids d
    by (auto simp: outbox_ok_def mark_published_def publish_row_def comp_def if_distrib
             cong: if_cong)
next
  show "outbox_ok d \<Longrightarrow> outbox_ok (mark_failed k e d)" for k e d
    by (auto simp: outbox_ok_def mark_failed_def fail_row_def comp_def if_distrib
             cong: if_cong)
qed

lemma outbox_add_ok: "outbox_add now mid t p hs d = Inr (m, d') \<Longrightarrow> outbox_ok d \<Longrightarrow> outbox_ok d'"
  by (fastforce simp: outbox_add_def outbox_ok_def sorted_wrt_append split: if_splits)

lemma outbox_add_pending:
  assumes "outbox_add now mid t p hs d = Inr (m, d')"
  shows "pending_items d' = pending_items d @
     [\<lparr>oi_id = outbox_seq d + 1, oi_message_id = mid, oi_topic = t, oi_payload = p,
       oi_headers = hs, oi_attempts = 0\<rparr>]"
    and "jobs d' = jobs d" and "job_events d' = job_events d" and "event_seq d' = event_seq d"
    and "m = mid"
  using assms
  by (auto simp: outbox_add_def pending_items_def is_pending_def item_of_row_def varchar_Inr
           split: if_splits)

subsection \<open>One pass of the relay\<close>

lemma drain_loop_spec:
  assumes "drain_loop ext items sent d w = (sent', d', w')"
  obtains n where "n \<le> length items"
    "sent' = sent @ map oi_id (take n items)"
    "acked w' = acked w @ map wire_record (take n items)"
    "wdb w' = wdb w"
    "n = length items \<and> d' = d
     \<or> n < length items
       \<and> (\<exists>e. send_result ext (send_calls w + n) (wire_record (items ! n)) = Some e
              \<and> d' = mark_failed (oi_id (items ! n)) (exc_type e @ '': '' @ exc_str e) d)"
  using assms
proof (induction items arbitrary: sent w thesis)
  case Nil
  from Nil.prems(2) have "sent' = sent" "d' = d" "w' = w" by simp_all
  then show ?case by (intro Nil.prems(1) [of 0]) simp_all
next
  case (Cons m ms)
  obtain r w1 where pub: "publish ext (oi_topic m) (oi_payload m) (oi_headers m) w = (r, w1)"
    by (cases "publish ext (oi_topic m) (oi_payload m) (oi_headers m) w")
  show ?case
  proof (cases r)
    case (Inl e)
    note p = publish_Inl [OF pub [unfolded Inl]]
    from Cons.prems(2) pub Inl have "sent' = sent"
      "d' = mark_failed (oi_id m) (exc_type e @ '': '' @ exc_str e) d"
      "w' = count_metric OUTBOX_PUBLISH_FAILURE_TOTAL 1 w1"
      by simp_all
    with p show ?thesis
      by (intro Cons.prems(1) [of 0]) (simp_all add: wire_record_def)
  next
    case (Inr u)
    note p = publish_Inr [OF pub [unfolded Inr]]
    from Cons.prems(2) pub Inr
    have rest: "drain_loop ext ms (sent @ [oi_id m]) d w1 = (sent', d', w')" by simp
    show ?thesis
    proof (rule Cons.IH [OF _ rest])
      fix n
      assume "n \<le> length ms" "sent' = (sent @ [oi_id m]) @ map oi_id (take n ms)"
        "acked w' = acked w1 @ map wire_record (take n ms)" "wdb w' = wdb w1"
        "n = length ms \<and> d' = d
         \<or> n < length ms
           \<and> (\<exists>e. send_result ext (send_calls w1 + n) (wire_record (ms ! n)) = Some e
                  \<and> d' = mark_failed (oi_id (ms ! n)) (exc_type e @ '': '' @ exc_str e) d)"
      with p show thesis
        by (intro Cons.prems(1) [of "Suc n"]) (simp_all add: wire_record_def)
    qed
  qed
qed

text \<open>
  Clients that run while a pass is under way only add messages: they hold no lock on the rows
  the pass fetched.
\<close>

definition only_adds :: "db \<Rightarrow> db \<Rightarrow> bool" where
  "only_adds d d' \<longleftrightarrow>
     outbox_ok d'
     \<and> (\<exists>new. outbox_messages d' = outbox_messages d @ new \<and> list_all is_pending new)"

definition calm :: "relay_env \<Rightarrow> world \<Rightarrow> bool" where
  "calm re w \<longleftrightarrow>
     re_fetch_fault re = None \<and> re_fault re = TxOk \<and> (\<forall>i. \<not> re_locked re i)
     \<and> only_adds (wdb w) (re_during re (wdb w))"

lemma drain_once_fetched:
  assumes "outbox_ok (wdb w)" and "calm re w"
  shows "fetch_pending (re_dialect re) (re_locked re) (rl_batch_size rl) (wdb w)
         = take (nat (rl_batch_size rl)) (pending_items (wdb w))"
  using assms by (simp add: fetch_pending_unlocked calm_def)

lemma only_adds_pending:
  assumes "only_adds d d'"
  obtains new where "pending_items d' = pending_items d @ new"
  using assms by (auto simp: only_adds_def pending_items_def)

text \<open>
  The sending loop of a pass and the marks after it, on a queue that starts with the fetched
  messages.
\<close>

lemma drain_loop_queue:
  assumes loop: "drain_loop ext (take b q) [] d w = (sent, d1, w1)"
    and queue: "pending_items d = q @ new" and ok: "outbox_ok d"
  shows "\<exists>n. length sent = n \<and> n \<le> b \<and> n \<le> length q
     \<and> acked w1 = acked w @ map wire_record (take n q)
     \<and> map wire_record (pending_items (mark_published now sent d1))
         = drop n (map wire_record (pending_items d))
     \<and> outbox_ok (mark_published now sent d1)
     \<and> (n < b \<longrightarrow> n < length q \<longrightarrow>
          send_result ext (send_calls w + n) (wire_record (q ! n)) \<noteq> None)"
  using loop
proof (rule drain_loop_spec)
  fix n
  assume n: "n \<le> length (take b q)"
    and sent: "sent = [] @ map oi_id (take n (take b q))"
    and ack: "acked w1 = acked w @ map wire_record (take n (take b q))"
    and stop: "n = length (take b q) \<and> d1 = d
      \<or> n < length (take b q)
        \<and> (\<exists>e. send_result ext (send_calls w + n) (wire_record (take b q ! n)) = Some e
            \<and> d1 = mark_failed (oi_id (take b q ! n)) (exc_type e @ '': '' @ exc_str e) d)"
  from n have le: "n \<le> b" "n \<le> length q" by simp_all
  then have tk: "take n (take b q) = take n q" by (simp add: min.absorb1)
  with le queue sent have keys: "sent = map oi_id (take n (pending_items d))" by simp
  have "outbox_ok d1" using stop ok by (auto intro: relay_port.ok_failed)
  moreover have "map wire_record (pending_items (mark_published now sent d1))
      = drop n (map wire_record (pending_items d))"
    using stop relay_port.publish_prefix [OF ok] relay_port.publish_prefix_failed [OF ok]
    by (auto simp: keys drop_map)
  ultimately show ?thesis
    using le tk ack sent stop queue by (auto simp: relay_port.ok_published)
qed

lemma drain_once_queue:
  assumes ok: "outbox_ok (wdb w)" and calm: "calm re w"
    and run: "drain_once rl ext re w = (r, w')"
  shows "\<exists>n. r = Inr n \<and> n \<le> nat (rl_batch_size rl) \<and> n \<le> length (pending_items (wdb w))
     \<and> acked w' = acked w @ map wire_record (take n (pending_items (wdb w)))
     \<and> map wire_record (pending_items (wdb w'))
         = drop n (map wire_record (pending_items (re_during re (wdb w))))
     \<and> take (length (pending_items (wdb w))) (pending_items (re_during re (wdb w)))
         = pending_items (wdb w)
     \<and> outbox_ok (wdb w')
     \<and> (n < nat (rl_batch_size rl) \<longrightarrow> n < length (pending_items (wdb w)) \<longrightarrow>
          send_result ext (send_calls w + n) (wire_record (pending_items (wdb w) ! n)) \<noteq> None)"
proof -
  let ?q = "pending_items (wdb w)" and ?b = "nat (rl_batch_size rl)"
  let ?d0 = "re_during re (wdb w)"
  let ?w0 = "set_gauge OUTBOX_PENDING_BACKLOG (of_nat (length (take ?b ?q))) w"
  note fetch = drain_once_fetched [OF ok calm, of rl]
  obtain sent d1 w1 where loop: "drain_loop ext (take ?b ?q) [] ?d0 ?w0 = (sent, d1, w1)"
    by (cases "drain_loop ext (take ?b ?q) [] ?d0 ?w0")
  from calm have adds: "only_adds (wdb w) ?d0" by (simp add: calm_def)
  then obtain new where new: "pending_items ?d0 = ?q @ new" by (rule only_adds_pending)
  show ?thesis
  proof (cases "take ?b ?q = []")
    case True
    with run fetch calm have "r = Inr 0" "wdb w' = ?d0" "acked w' = acked w"
      by (auto simp: drain_once_def calm_def Let_def)
    with True adds new show ?thesis by (auto simp: only_adds_def)
  next
    case False
    with run fetch calm loop have "r = Inr (length sent)" "acked w' = acked w1"
      "wdb w' = mark_published (re_now re) sent d1"
      by (auto simp: drain_once_def calm_def Let_def split: if_splits)
    moreover have "outbox_ok ?d0" using adds by (simp add: only_adds_def)
    ultimately show ?thesis
      using drain_loop_queue [OF loop new, of "re_now re"] new by auto
  qed
qed

text \<open>
  C17: One pass of the relay is a FIFO step. With no lock held by others and a commit that
  succeeds, a pass sends some first \<open>n\<close> of the pending messages in id order, at most a batch;
  what stays pending afterwards is exactly the rest in the same order, followed by what other
  clients added meanwhile, and the pass stopped short of the batch only because the next send failed.
\<close>

theorem drain_once_fifo:
  assumes ok: "outbox_ok (wdb w)" and calm: "calm re w"
    and run: "drain_once rl ext re w = (r, w')"
  shows "\<exists>n. r = Inr n \<and> n \<le> nat (rl_batch_size rl) \<and> n \<le> length (pending_items (wdb w))
     \<and> acked w' = acked w @ map wire_record (take n (pending_items (wdb w)))
     \<and> map wire_record (pending_items (wdb w'))
         = drop n (map wire_record (pending_items (re_during re (wdb w))))
     \<and> take (length (pending_items (wdb w))) (pending_items (re_during re (wdb w)))
         = pending_items (wdb w)
     \<and> outbox_ok (wdb w')
     \<and> (n < nat (rl_batch_size rl) \<longrightarrow> n < length (pending_items (wdb w)) \<longrightarrow>
          send_result ext (send_calls w + n) (wire_record (pending_items (wdb w) ! n)) \<noteq> None)"
  using assms by (rule drain_once_queue)

text \<open>Three pending messages and a pass that nothing disturbs, for the concrete runs below.\<close>

definition sample_message :: "int \<Rightarrow> OutboxMessageModel" where
  "sample_message i =
     \<lparr>ob_id = i, ob_message_id = str_int i, ob_topic = ''request-topic'', ob_payload = PInt i,
      ob_headers = None, ob_status = ''PENDING'', ob_attempts = 0, ob_last_error = None,
      ob_created_at = 0, ob_published_at = None\<rparr>"

definition sample_outbox :: world where
  "sample_outbox =
     sample_world (empty_db\<lparr>outbox_messages := map sample_message [1, 2, 3], outbox_seq := 3\<rparr>)"

definition sample_pass :: relay_env where
  "sample_pass = \<lparr>re_dialect = Some ''postgresql'', re_locked = (\<lambda>_. False), re_fetch_fault = None,
                  re_during = (\<lambda>d. d), re_now = 7, re_fault = TxOk\<rparr>"

lemma sample_outbox_ok: "outbox_ok (wdb sample_outbox)"
  by (simp add: sample_outbox_def outbox_ok_def sample_message_def)

lemma sample_outbox_pending:
  "pending_items (wdb sample_outbox) = map (item_of_row \<circ> sample_message) [1, 2, 3]"
  by (simp add: sample_outbox_def pending_items_def is_pending_def sample_message_def)

lemma sample_pass_calm: "calm sample_pass sample_outbox"
  using sample_outbox_ok by (simp add: calm_def sample_pass_def only_adds_def)

theorem drain_once_fifo_witness:
  "\<exists>n w'. drain_once (relay_init 2 1) sample_externals sample_pass sample_outbox = (Inr n, w')
     \<and> n = 2 \<and> acked w' = map (wire_record \<circ> item_of_row \<circ> sample_message) [1, 2]"
proof -
  obtain r w' where run: "drain_once (relay_init 2 1) sample_externals sample_pass sample_outbox
      = (r, w')" by (cases "drain_once (relay_init 2 1) sample_externals sample_pass sample_outbox")
  from drain_once_fifo [OF sample_outbox_ok sample_pass_calm run]
  obtain n where n: "r = Inr n" "n \<le> 2" "n \<le> 3" "\<not> (n < 2 \<and> n < 3)"
    "acked w' = acked sample_outbox
       @ map wire_record (take n (map (item_of_row \<circ> sample_message) [1, 2, 3]))"
    by (auto simp: relay_init_def sample_outbox_pending)
  then have "n = 2" by simp
  with n(1,5) run show ?thesis by (simp add: sample_outbox_def)
qed

subsection \<open>Nothing is lost, and the backlog drains\<close>

text \<open>
  A row is taken off the pending list only after Kafka acknowledged its message.
\<close>

definition published_acked :: "world \<Rightarrow> bool" where
  "published_acked w \<longleftrightarrow>
     (\<forall>r \<in> set (outbox_messages (wdb w)).
        \<not> is_pending r \<longrightarrow> wire_record (item_of_row r) \<in> set (acked w))"

lemma drain_loop_rows:
  assumes "drain_loop ext items [] d w = (sent, d1, w1)"
  shows "set sent \<subseteq> oi_id ` {m \<in> set items. wire_record m \<in> set (acked w1)}"
    and "set (acked w) \<subseteq> set (acked w1)"
    and "\<forall>r1 \<in> set (outbox_messages d1). \<exists>r \<in> set (outbox_messages d).
           ob_id r = ob_id r1 \<and> ob_status r = ob_status r1
           \<and> wire_record (item_of_row r) = wire_record (item_of_row r1)"
proof -
  from assms obtain n where n:
    "sent = map oi_id (take n items)" "acked w1 = acked w @ map wire_record (take n items)"
    and d1: "d1 = d \<or> (\<exists>i e. d1 = mark_failed i e d)"
    by (rule drain_loop_spec) auto
  show "set sent \<subseteq> oi_id ` {m \<in> set items. wire_record m \<in> set (acked w1)}"
    using n by (auto dest: in_set_takeD)
  show "set (acked w) \<subseteq> set (acked w1)" using n by auto
  show "\<forall>r1 \<in> set (outbox_messages d1). \<exists>r \<in> set (outbox_messages d).
           ob_id r = ob_id r1 \<and> ob_status r = ob_status r1
           \<and> wire_record (item_of_row r) = wire_record (item_of_row r1)"
    using d1 by (auto simp: mark_failed_def fail_row_def item_of_row_def wire_record_def) blast+
qed

definition same_message :: "OutboxMessageModel \<Rightarrow> OutboxMessageModel \<Rightarrow> bool" where
  "same_message r r' \<longleftrightarrow>
     ob_id r' = ob_id r \<and> wire_record (item_of_row r') = wire_record (item_of_row r)"

lemma outbox_unique:
  assumes "outbox_ok d" and "r \<in> set (outbox_messages d)" and "r' \<in> set (outbox_messages d)"
    and "ob_id r = ob_id r'"
  shows "r = r'"
proof -
  have "distinct (map ob_id (outbox_messages d))"
    using assms(1) by (auto simp: outbox_ok_def intro: sorted_map_less_distinct)
  with assms(2-4) show ?thesis by (auto simp: distinct_map dest: inj_onD)
qed

lemma same_message_refl [simp]: "same_message r r"
  by (simp add: same_message_def)

lemma same_message_trans: "same_message a b \<Longrightarrow> same_message b c \<Longrightarrow> same_message a c"
  by (simp add: same_message_def)

lemma same_message_rows [simp]:
  "same_message r (publish_row now r)" "same_message r (fail_row e r)"
  by (simp_all add: same_message_def publish_row_def fail_row_def item_of_row_def wire_record_def)

definition messages_kept :: "db \<Rightarrow> db \<Rightarrow> bool" where
  "messages_kept d d' \<longleftrightarrow>
     (\<forall>r \<in> set (outbox_messages d). \<exists>r' \<in> set (outbox_messages d'). same_message r r')"

lemma messages_kept_refl [simp]: "messages_kept d d"
  unfolding messages_kept_def using same_message_refl by blast

lemma messages_kept_trans: "messages_kept a b \<Longrightarrow> messages_kept b c \<Longrightarrow> messages_kept a c"
  unfolding messages_kept_def by (meson same_message_trans)

lemma messages_kept_published: "messages_kept d (mark_published now ids d)"
  unfolding messages_kept_def
proof
  fix r
  assume "r \<in> set (outbox_messages d)"
  then show "\<exists>r' \<in> set (outbox_messages (mark_published now ids d)). same_message r r'"
    by (intro bexI [of _ "if ob_id r \<in> set ids then publish_row now r else r"])
       (auto simp: mark_published_def)
qed

lemma messages_kept_failed: "messages_kept d (mark_failed i e d)"
  unfolding messages_kept_def
proof
  fix r
  assume "r \<in> set (outbox_messages d)"
  then show "\<exists>r' \<in> set (outbox_messages (mark_failed i e d)). same_message r r'"
    by (intro bexI [of _ "if ob_id r = i then fail_row e r else r"]) (auto simp: mark_failed_def)
qed

lemma messages_kept_adds: "only_adds d d' \<Longrightarrow> messages_kept d d'"
  unfolding only_adds_def messages_kept_def by (metis UnI1 same_message_refl set_append)

lemma messages_kept_loop:
  assumes "drain_loop ext items sent0 d w = (sent, d1, w1)"
  shows "messages_kept d d1"
  using assms by (rule drain_loop_spec) (auto intro: messages_kept_failed)

text \<open>After the marks of a pass, what is no longer pending was acknowledged.\<close>

lemma marks_acked:
  assumes loop: "drain_loop ext (fetch_pending dial locked b d) [] d0 w = (sent, d1, w1)"
    and adds: "only_adds d d0"
    and old: "\<forall>r \<in> set (outbox_messages d).
                \<not> is_pending r \<longrightarrow> wire_record (item_of_row r) \<in> set (acked w)"
  shows "\<forall>r \<in> set (outbox_messages (mark_published now sent d1)).
           \<not> is_pending r \<longrightarrow> wire_record (item_of_row r) \<in> set (acked w1)"
proof (intro ballI impI)
  fix r2
  assume r2: "r2 \<in> set (outbox_messages (mark_published now sent d1))" and gone: "\<not> is_pending r2"
  then obtain r1 where r1: "r1 \<in> set (outbox_messages d1)" "same_message r1 r2"
    "ob_id r1 \<in> set sent \<or> r2 = r1"
    by (auto simp: mark_published_def split: if_splits)
  from drain_loop_rows(3) [OF loop] r1(1) obtain r where r: "r \<in> set (outbox_messages d0)"
    "ob_status r = ob_status r1" "same_message r r1"
    by (auto simp: same_message_def)
  note ok0 = adds [unfolded only_adds_def, THEN conjunct1]
  show "wire_record (item_of_row r2) \<in> set (acked w1)"
  proof (cases "ob_id r1 \<in> set sent")
    case True
    with drain_loop_rows(1) [OF loop] fetch_pending_rows [of dial locked b d]
    obtain r0 where "r0 \<in> set (outbox_messages d)" "ob_id r0 = ob_id r1"
      "wire_record (item_of_row r0) \<in> set (acked w1)"
      by (fastforce simp: item_of_row_def)
    moreover from this adds r have "r0 = r"
      by (intro outbox_unique [OF ok0]) (auto simp: only_adds_def same_message_def)
    ultimately show ?thesis using r(3) r1(2) by (simp add: same_message_def)
  next
    case False
    with r1 gone r have "r \<in> set (outbox_messages d)" "\<not> is_pending r"
      using adds by (auto simp: only_adds_def is_pending_def list_all_iff)
    with old drain_loop_rows(2) [OF loop] r(3) r1(2) show ?thesis
      by (auto simp: same_message_def)
  qed
qed

text \<open>
  C18: The outbox loses nothing. Whatever fails in a pass (the fetch, any send, the commit, or
  the acknowledgement of the commit) and whatever rows other relays hold, every message is still
  in the table afterwards with its contents, and one that is no longer pending has been
  acknowledged by Kafka.
\<close>

theorem drain_once_no_loss:
  assumes "published_acked w" and "only_adds (wdb w) (re_during re (wdb w))"
  shows "published_acked (snd (drain_once rl ext re w))
         \<and> messages_kept (wdb w) (wdb (snd (drain_once rl ext re w)))"
proof -
  let ?items = "fetch_pending (re_dialect re) (re_locked re) (rl_batch_size rl) (wdb w)"
  let ?d0 = "re_during re (wdb w)"
  let ?w0 = "set_gauge OUTBOX_PENDING_BACKLOG (of_nat (length ?items)) w"
  obtain sent d1 w1 where loop: "drain_loop ext ?items [] ?d0 ?w0 = (sent, d1, w1)"
    by (cases "drain_loop ext ?items [] ?d0 ?w0")
  let ?d2 = "mark_published (re_now re) sent d1"
  have marks: "published_acked (w1\<lparr>wdb := ?d2\<rparr>)"
    using marks_acked [OF loop assms(2)] assms(1) by (simp add: published_acked_def)
  have kept: "messages_kept (wdb w) ?d0" "messages_kept (wdb w) ?d2"
    using messages_kept_adds [OF assms(2)] messages_kept_loop [OF loop]
      messages_kept_published [of d1 "re_now re" sent] by (blast intro: messages_kept_trans)+
  have abort: "published_acked (w1\<lparr>wdb := ?d0\<rparr>)"
    using assms drain_loop_rows(2) [OF loop]
    by (fastforce simp: published_acked_def only_adds_def list_all_iff)
  have empty: "published_acked (w\<lparr>wdb := ?d0\<rparr>)"
    using assms by (fastforce simp: published_acked_def only_adds_def list_all_iff)
  show ?thesis
    using marks kept abort empty loop
    by (auto simp: drain_once_def Let_def published_acked_def split: option.splits tx_fault.splits)
qed

text \<open>The commit of the pass fails after the messages were sent: they stay, and are sent again.\<close>

theorem drain_once_no_loss_witness:
  "let w' = snd (drain_once (relay_init 2 1) sample_externals
              (sample_pass\<lparr>re_fault := TxCommitFail (PyExc ''DBAPIError'' ''lost'')\<rparr>) sample_outbox)
   in published_acked w' \<and> messages_kept (wdb sample_outbox) (wdb w')"
proof -
  have "published_acked sample_outbox"
    by (simp add: published_acked_def sample_outbox_def is_pending_def sample_message_def)
  then show ?thesis
    using drain_once_no_loss [of sample_outbox
        "sample_pass\<lparr>re_fault := TxCommitFail (PyExc ''DBAPIError'' ''lost'')\<rparr>" "relay_init 2 1"
        sample_externals] sample_outbox_ok
    by (simp add: sample_pass_def only_adds_def Let_def)
qed

text \<open>A pass in which nothing fails, nothing is locked and nobody else commits.\<close>

definition quiet :: "relay_env \<Rightarrow> bool" where
  "quiet re \<longleftrightarrow> re_fetch_fault re = None \<and> re_fault re = TxOk
     \<and> re_locked re = (\<lambda>_. False) \<and> re_during re = (\<lambda>d. d)"

lemma quiet_calm: "quiet re \<Longrightarrow> outbox_ok (wdb w) \<Longrightarrow> calm re w"
  by (simp add: quiet_def calm_def only_adds_def)

text \<open>
  C19: The relay drains its backlog. When sends succeed and passes are undisturbed, enough passes
  (backlog at most batch size times passes) leave nothing pending, and everything that was
  pending has been sent exactly once, in id order.
\<close>

theorem relay_loop_drains:
  assumes "outbox_ok (wdb w)" and "\<forall>n rec. send_result ext n rec = None"
    and "list_all (\<lambda>(stop, re). \<not> stop \<and> quiet re) passes"
    and "length (pending_items (wdb w)) \<le> length passes * nat (rl_batch_size rl)"
  shows "pending_items (wdb (fst (relay_loop rl ext passes w))) = []
         \<and> acked (fst (relay_loop rl ext passes w))
             = acked w @ map wire_record (pending_items (wdb w))"
  using assms
proof (induction passes arbitrary: w)
  case Nil
  then show ?case by simp
next
  case (Cons p passes)
  obtain re where p: "p = (False, re)" "quiet re" using Cons.prems(3) by (cases p) auto
  obtain r w1 where run: "drain_once rl ext re w = (r, w1)" by (cases "drain_once rl ext re w")
  let ?q = "pending_items (wdb w)" and ?b = "nat (rl_batch_size rl)"
  from p(2) have during: "re_during re (wdb w) = wdb w" by (simp add: quiet_def)
  from drain_once_queue [OF Cons.prems(1) quiet_calm [OF p(2) Cons.prems(1)] run] during
  obtain n where n: "n \<le> ?b" "n \<le> length ?q" "n < ?b \<longrightarrow> \<not> n < length ?q"
    "acked w1 = acked w @ map wire_record (take n ?q)"
    "map wire_record (pending_items (wdb w1)) = drop n (map wire_record ?q)"
    "outbox_ok (wdb w1)"
    using Cons.prems(2) by fastforce
  have "length (pending_items (wdb w1)) = length ?q - n"
    using n(5) by (metis length_drop length_map)
  with n(1-3) Cons.prems(4)
  have "length (pending_items (wdb w1)) \<le> length passes * ?b" by (cases "n = ?b") auto
  then have "pending_items (wdb (fst (relay_loop rl ext passes w1))) = []
    \<and> acked (fst (relay_loop rl ext passes w1))
        = acked w1 @ map wire_record (pending_items (wdb w1))"
    using Cons.prems(2,3) n(6) by (intro Cons.IH) auto
  then show ?case
    using p(1) run n(4,5) by (simp add: split_beta Let_def take_map drop_map)
       (metis append_take_drop_id map_append)
qed

theorem relay_loop_drains_witness:
  "pending_items (wdb (fst (relay_loop (relay_init 2 1) sample_externals
      [(False, sample_pass), (False, sample_pass)] sample_outbox))) = []
   \<and> length (acked (fst (relay_loop (relay_init 2 1) sample_externals
      [(False, sample_pass), (False, sample_pass)] sample_outbox))) = 3"
  using relay_loop_drains [of sample_outbox sample_externals
      "[(False, sample_pass), (False, sample_pass)]" "relay_init 2 1"] sample_outbox_ok
  by (simp add: quiet_def sample_pass_def relay_init_def sample_outbox_pending)
     (simp add: sample_outbox_def)

end
