(* ===== verification/Worker_Service.thy ===== *)
theory Worker_Service
  imports Outbox
begin

section \<open>The worker service\<close>

text \<open>
  \<open>WorkerService.handle_event\<close> of \<open>app/application/worker_service.py\<close>. Its session blocks are
  functions on the database; the claim block and the failure block are shared with the
  inference service, which has the same text with another event source. Between the blocks the
  processor runs, and other processes may commit anything they can: \<open>ev_during\<close> and
  \<open>ev_before_fail\<close> are what they did to the database.
\<close>

record service =
  svc_worker_id :: string
  svc_lease_seconds :: int

text \<open>
  The constructor's defaults: half an hour for a lease, and an identity of its own for every process
  (\<open>uuid\<close> is what \<open>uuid4()\<close> prints); an empty \<open>worker_id\<close> counts as none.
\<close>

definition worker_identity :: "string \<Rightarrow> string option \<Rightarrow> string \<Rightarrow> string" where
  "worker_identity kind worker_id uuid =
     (case worker_id of None \<Rightarrow> kind @ uuid | Some n \<Rightarrow> if n = [] then kind @ uuid else n)"

definition default_lease :: "int option \<Rightarrow> int" where
  "default_lease lease_seconds = (case lease_seconds of None \<Rightarrow> 1800 | Some n \<Rightarrow> n)"

definition WorkerService_init :: "int option \<Rightarrow> string option \<Rightarrow> string \<Rightarrow> service" where
  "WorkerService_init lease_seconds worker_id uuid =
     \<lparr>svc_worker_id = worker_identity ''worker-'' worker_id uuid,
      svc_lease_seconds = default_lease lease_seconds\<rparr>"

record svc_env =
  ev_claim :: tx_env
  ev_finish :: tx_env
  ev_fail :: tx_env
  ev_during :: "db \<Rightarrow> db"
  ev_before_fail :: "db \<Rightarrow> db"

type_synonym processor = "pyval \<Rightarrow> pyval res"

type_synonym handled = "(bool \<times> string option) res"

datatype claim_result = Finished bool "string option" | Claimed JobLease

subsection \<open>Claiming\<close>

definition claim_block ::
  "string \<Rightarrow> service \<Rightarrow> tx_env \<Rightarrow> pyval \<Rightarrow> pyval \<Rightarrow> db \<Rightarrow> claim_result tx res" where
  "claim_block source svc env jid tid d =
     bind_res (claim_for_processing (tx_now env) (tx_dbnow env) jid (svc_worker_id svc)
                 (svc_lease_seconds svc) d) (\<lambda>(lease, d1).
     case lease of
       None \<Rightarrow>
         bind_res (job_get jid d) (\<lambda>existing.
           Inr (Rollback
             (case existing of
                Some j \<Rightarrow> if job_status j = SUCCESS then Finished True None
                          else Finished False (Some ''LEASE_HELD'')
              | None \<Rightarrow> Finished False (Some ''LEASE_HELD''))))
     | Some l \<Rightarrow>
         bind_res (event_add (tx_dbnow env)
                     (build_event (tx_uuid env 0) (tx_isonow env) jid PROCESSING_STARTED source tid
                        (PDict [(''lease_epoch'', PInt (lease_epoch l))])) d1) (\<lambda>d2.
           Inr (Commit (Claimed l) d2)))"

text \<open>The takeover counter moves as soon as the claim has returned, before the commit.\<close>

definition count_takeover :: "service \<Rightarrow> tx_env \<Rightarrow> pyval \<Rightarrow> world \<Rightarrow> world" where
  "count_takeover svc env jid w =
     (if refused (tx_fault env) then w
      else
        (case claim_for_processing (tx_now env) (tx_dbnow env) jid (svc_worker_id svc)
                (svc_lease_seconds svc) (wdb w) of
           Inr (Some l, _) \<Rightarrow>
             if 1 < lease_epoch l then count_metric JOB_LEASE_TAKEOVER_TOTAL 1 w else w
         | _ \<Rightarrow> w))"

definition claim_phase ::
  "string \<Rightarrow> service \<Rightarrow> tx_env \<Rightarrow> pyval \<Rightarrow> pyval \<Rightarrow> world \<Rightarrow> claim_result res \<times> world" where
  "claim_phase source svc env jid tid w =
     (let (r, d') = run_session (tx_fault env) (claim_block source svc env jid tid) (wdb w);
          w1 = (count_takeover svc env jid w)\<lparr>wdb := d'\<rparr>
      in (r,
          case r of
            Inr (Finished False _) \<Rightarrow>
              count_metric (JOB_TRANSITION_CONFLICT_TOTAL (status_value PROCESSING)) 1 w1
          | _ \<Rightarrow> w1))"

subsection \<open>Recording success and failure\<close>

definition not_none :: "pyval \<Rightarrow> pyval option" where
  "not_none v = (if v = PNone then None else Some v)"

definition success_opts :: "service \<Rightarrow> JobLease \<Rightarrow> pyval \<Rightarrow> update_opts" where
  "success_opts svc lease result =
     default_opts\<lparr>opt_result := not_none result, opt_clear_error := True,
                  opt_lease_owner := Some (svc_worker_id svc),
                  opt_lease_epoch := Some (lease_epoch lease),
                  opt_release_lease := True\<rparr>"

definition failure_opts :: "service \<Rightarrow> JobLease \<Rightarrow> py_exc \<Rightarrow> update_opts" where
  "failure_opts svc lease exc =
     default_opts\<lparr>opt_error := Some (exc_str exc),
                  opt_lease_owner := Some (svc_worker_id svc),
                  opt_lease_epoch := Some (lease_epoch lease),
                  opt_release_lease := True\<rparr>"

definition success_block ::
  "service \<Rightarrow> tx_env \<Rightarrow> pyval \<Rightarrow> pyval \<Rightarrow> JobLease \<Rightarrow> pyval \<Rightarrow> db \<Rightarrow> bool tx res" where
  "success_block svc env jid tid lease result d =
     bind_res (update_status (tx_dbnow env) jid (status_value SUCCESS)
                 (success_opts svc lease result) d) (\<lambda>(committed, d1).
     case committed of
       None \<Rightarrow> Inr (Rollback False)
     | Some _ \<Rightarrow>
         bind_res (event_add (tx_dbnow env)
                     (build_event (tx_uuid env 0) (tx_isonow env) jid PROCESSING_COMPLETED ''worker''
                        tid (PDict [(''result'', result)])) d1) (\<lambda>d2.
           Inr (Commit True d2)))"

definition success_phase ::
  "service \<Rightarrow> tx_env \<Rightarrow> pyval \<Rightarrow> pyval \<Rightarrow> JobLease \<Rightarrow> pyval \<Rightarrow> world \<Rightarrow> handled \<times> world" where
  "success_phase svc env jid tid lease result w =
     (let (r, d') = run_session (tx_fault env) (success_block svc env jid tid lease result) (wdb w);
          w1 = w\<lparr>wdb := d'\<rparr>
      in case r of
           Inl e \<Rightarrow> (Inl e, w1)
         | Inr False \<Rightarrow>
             (Inr (True, None),
              count_metric (JOB_TRANSITION_CONFLICT_TOTAL (status_value SUCCESS)) 1 w1)
         | Inr True \<Rightarrow> (Inr (True, None), count_metric JOB_SUCCESS_TOTAL 1 w1))"

definition failure_block ::
  "string \<Rightarrow> service \<Rightarrow> tx_env \<Rightarrow> pyval \<Rightarrow> pyval \<Rightarrow> JobLease \<Rightarrow> py_exc \<Rightarrow> db \<Rightarrow> bool tx res" where
  "failure_block source svc env jid tid lease exc d =
     bind_res (update_status (tx_dbnow env) jid (status_value FAILED)
                 (failure_opts svc lease exc) d) (\<lambda>(marked, d1).
     case marked of
       None \<Rightarrow> Inr (Rollback False)
     | Some _ \<Rightarrow>
         bind_res (event_add (tx_dbnow env)
                     (build_event (tx_uuid env 0) (tx_isonow env) jid EVENT_FAILED source tid
                        (PDict [(''error'', PStr (exc_str exc))])) d1) (\<lambda>d2.
           Inr (Commit True d2)))"

definition failure_phase ::
  "string \<Rightarrow> service \<Rightarrow> tx_env \<Rightarrow> pyval \<Rightarrow> pyval \<Rightarrow> JobLease \<Rightarrow> py_exc \<Rightarrow> world
     \<Rightarrow> handled \<times> world" where
  "failure_phase source svc env jid tid lease exc w =
     (let (r, d') = run_session (tx_fault env) (failure_block source svc env jid tid lease exc) (wdb w);
          w1 = w\<lparr>wdb := d'\<rparr>
      in case r of
           Inl e \<Rightarrow> (Inl e, w1)
         | Inr False \<Rightarrow> (Inr (False, Some (exc_str exc)), w1)
         | Inr True \<Rightarrow>
             (Inr (False, Some (exc_str exc)), count_metric JOB_FAILURE_TOTAL 1 w1))"

subsection \<open>The handler\<close>

text \<open>\<open>event["payload"]["request"]\<close> and the call of the processor.\<close>

definition process_request :: "processor \<Rightarrow> pyval \<Rightarrow> (pyval \<times> pyval) res" where
  "process_request process event =
     bind_res (bind_res (py_getitem event ''payload'') (\<lambda>p. py_getitem p ''request'')) (\<lambda>request.
     bind_res (process request) (\<lambda>result. Inr (request, result)))"

definition world_env :: "(db \<Rightarrow> db) \<Rightarrow> world \<Rightarrow> world" where
  "world_env f w = w\<lparr>wdb := f (wdb w)\<rparr>"

definition worker_try ::
  "service \<Rightarrow> svc_env \<Rightarrow> processor \<Rightarrow> pyval \<Rightarrow> pyval \<Rightarrow> pyval \<Rightarrow> JobLease \<Rightarrow> world
     \<Rightarrow> handled \<times> world" where
  "worker_try svc env process event jid tid lease w =
     (let w1 = world_env (ev_during env) w
      in case process_request process event of
           Inl e \<Rightarrow> (Inl e, w1)
         | Inr (_, result) \<Rightarrow> success_phase svc (ev_finish env) jid tid lease result w1)"

definition worker_handle_event ::
  "service \<Rightarrow> svc_env \<Rightarrow> processor \<Rightarrow> pyval \<Rightarrow> world \<Rightarrow> handled \<times> world" where
  "worker_handle_event svc env process event w =
     (case bind_res (py_getitem event ''job_id'') (\<lambda>jid.
           bind_res (py_getitem event ''trace_id'') (\<lambda>tid. Inr (jid, tid))) of
        Inl e \<Rightarrow> (Inl e, w)
      | Inr (jid, tid) \<Rightarrow>
          (case claim_phase ''worker'' svc (ev_claim env) jid tid w of
             (Inl e, w1) \<Rightarrow> (Inl e, w1)
           | (Inr (Finished b msg), w1) \<Rightarrow> (Inr (b, msg), w1)
           | (Inr (Claimed lease), w1) \<Rightarrow>
               (let (r, w2) = worker_try svc env process event jid tid lease w1;
                    (r', w3) =
                      (case r of
                         Inr x \<Rightarrow> (Inr x, w2)
                       | Inl exc \<Rightarrow>
                           failure_phase ''worker'' svc (ev_fail env) jid tid lease exc
                             (world_env (ev_before_fail env) w2))
                in (r', count_metric JOB_PROCESSING_SECONDS 1 w3))))"

subsection \<open>What the blocks commit\<close>

lemma success_block_Commit:
  assumes "success_block svc env jid tid l result d = Inr (Commit b d')"
  obtains k r ev where
    "jid = PStr k" "jobs d k = Some r" "b"
    "jm_status r = status_value PROCESSING"
    "jm_lease_owner r = Some (svc_worker_id svc)" "jm_lease_epoch r = lease_epoch l"
    "jobs d' = (jobs d)(k \<mapsto>
       r\<lparr>jm_status := status_value SUCCESS, jm_updated_at := tx_dbnow env,
         jm_result := (if result = PNone then jm_result r else Some result),
         jm_error_message := None, jm_lease_owner := None, jm_lease_expires_at := None\<rparr>)"
    "job_events d' = job_events d @ [ev]" "je_job_id ev = k"
    "je_event_type ev = event_value PROCESSING_COMPLETED"
    "je_payload ev = PDict [(''result'', result)]"
    "outbox_messages d' = outbox_messages d" "outbox_seq d' = outbox_seq d"
proof -
  from assms obtain j d1 where
    upd: "update_status (tx_dbnow env) jid (status_value SUCCESS)
            (success_opts svc l result) d
          = Inr (Some j, d1)"
    and ev: "event_add (tx_dbnow env)
            (build_event (tx_uuid env 0) (tx_isonow env) jid PROCESSING_COMPLETED ''worker'' tid
               (PDict [(''result'', result)])) d1 = Inr d'" and "b"
    by (auto simp: success_block_def split: option.splits)
  from upd obtain k r where r: "jid = PStr k" "jobs d k = Some r"
    "cas_matches (allowed_source_statuses SUCCESS)
       (success_opts svc l result) r"
    "d1 = d\<lparr>jobs := (jobs d)(k \<mapsto> cas_row (tx_dbnow env) SUCCESS
       (success_opts svc l result) r)\<rparr>"
    by (rule update_status_Some) (auto simp: success_opts_def default_opts_def)
  from ev show thesis
    by (rule event_add_build)
       (use r \<open>b\<close> in \<open>auto intro!: that
          simp: cas_matches_def cas_row_def success_opts_def default_opts_def not_none_def\<close>)
qed

lemma failure_block_Commit:
  assumes "failure_block source svc env jid tid l exc d = Inr (Commit b d')"
  obtains k r ev where
    "jid = PStr k" "jobs d k = Some r" "b"
    "jm_status r \<in> {status_value PENDING, status_value PROCESSING}"
    "jm_lease_owner r = Some (svc_worker_id svc)" "jm_lease_epoch r = lease_epoch l"
    "jobs d' = (jobs d)(k \<mapsto>
       r\<lparr>jm_status := status_value FAILED, jm_updated_at := tx_dbnow env,
         jm_error_message := Some (exc_str exc),
         jm_lease_owner := None, jm_lease_expires_at := None\<rparr>)"
    "job_events d' = job_events d @ [ev]" "je_job_id ev = k"
    "je_event_type ev = event_value EVENT_FAILED"
    "je_payload ev = PDict [(''error'', PStr (exc_str exc))]"
    "outbox_messages d' = outbox_messages d" "outbox_seq d' = outbox_seq d"
proof -
  from assms obtain j d1 where
    upd: "update_status (tx_dbnow env) jid (status_value FAILED)
            (failure_opts svc l exc) d
          = Inr (Some j, d1)"
    and ev: "event_add (tx_dbnow env)
            (build_event (tx_uuid env 0) (tx_isonow env) jid EVENT_FAILED source tid
               (PDict [(''error'', PStr (exc_str exc))])) d1 = Inr d'" and "b"
    by (auto simp: failure_block_def split: option.splits)
  from upd obtain k r where r: "jid = PStr k" "jobs d k = Some r"
    "cas_matches (allowed_source_statuses FAILED)
       (failure_opts svc l exc) r"
    "d1 = d\<lparr>jobs := (jobs d)(k \<mapsto> cas_row (tx_dbnow env) FAILED
       (failure_opts svc l exc) r)\<rparr>"
    by (rule update_status_Some) (auto simp: failure_opts_def default_opts_def)
  from ev show thesis
    by (rule event_add_build)
       (use r \<open>b\<close> in \<open>auto intro!: that
          simp: cas_matches_def cas_row_def failure_opts_def default_opts_def\<close>)
qed

lemma claim_block_Commit:
  assumes "claim_block source svc env jid tid d = Inr (Commit a d')"
  obtains k r ev l where
    "jid = PStr k" "jobs d k = Some r" "claimable (tx_now env) r" "a = Claimed l"
    "l = \<lparr>lease_job_id = jm_id r, lease_owner = svc_worker_id svc,
          lease_epoch = jm_lease_epoch r + 1,
          lease_expires_at = Some (lease_until (tx_now env) (svc_lease_seconds svc))\<rparr>"
    "jobs d' = (jobs d)(k \<mapsto> claim_row (tx_now env) (tx_dbnow env) (svc_worker_id svc)
                               (svc_lease_seconds svc) r)"
    "job_events d' = job_events d @ [ev]" "je_job_id ev = k"
    "je_event_type ev = event_value PROCESSING_STARTED"
    "je_payload ev = PDict [(''lease_epoch'', PInt (jm_lease_epoch r + 1))]"
    "outbox_messages d' = outbox_messages d" "outbox_seq d' = outbox_seq d"
proof -
  from assms obtain l d1 where
    c: "claim_for_processing (tx_now env) (tx_dbnow env) jid (svc_worker_id svc)
          (svc_lease_seconds svc) d = Inr (Some l, d1)"
    and ev: "event_add (tx_dbnow env)
          (build_event (tx_uuid env 0) (tx_isonow env) jid PROCESSING_STARTED source tid
             (PDict [(''lease_epoch'', PInt (lease_epoch l))])) d1 = Inr d'" and "a = Claimed l"
    by (auto simp: claim_block_def split: option.splits)
  from c show thesis
  proof (rule claim_Some)
    fix k r
    assume "jid = PStr k" "jobs d k = Some r" "claimable (tx_now env) r"
      "d1 = d\<lparr>jobs := (jobs d)(k \<mapsto> claim_row (tx_now env) (tx_dbnow env) (svc_worker_id svc)
                               (svc_lease_seconds svc) r)\<rparr>"
      "l = \<lparr>lease_job_id = jm_id r, lease_owner = svc_worker_id svc,
            lease_epoch = jm_lease_epoch r + 1,
            lease_expires_at = Some (lease_until (tx_now env) (svc_lease_seconds svc))\<rparr>"
    with ev \<open>a = Claimed l\<close> show thesis
      by (elim event_add_build) (auto intro!: that)
  qed
qed

subsection \<open>Handlers as sequences of statements\<close>

text \<open>
  Everything a handler does to the database is a sequence of repository statements that never name
  SUCCESS as an expected status, its own and those of the processes that run meanwhile; so what every
  such statement keeps, every handler keeps.
\<close>

lemma event_add_step: "event_add now ev d = Inr d' \<Longrightarrow> domain_step d d'"
  by (rule client_step.other) (rule event_add_frame)

lemma update_then_event_steps:
  assumes "update_status now jid st opts d = Inr (x, d1)" and "opt_expected_statuses opts = None"
    and "event_add now' ev d1 = Inr d2"
  shows "domain_step\<^sup>*\<^sup>* d d2"
  using assms(3) event_add_step client_step.update [where P = spares_success, OF assms(1) spares_success_None [OF assms(2)]]
  by (meson converse_rtranclp_into_rtranclp r_into_rtranclp)

lemma claim_block_steps:
  "claim_block source svc env jid tid d = Inr (Commit a d') \<Longrightarrow> domain_step\<^sup>*\<^sup>* d d'"
  by (auto simp: claim_block_def split: option.splits
           intro: converse_rtranclp_into_rtranclp r_into_rtranclp
           dest!: event_add_step client_step.claim [where P = spares_success])

lemma success_block_steps:
  "success_block svc env jid tid l result d = Inr (Commit b d') \<Longrightarrow> domain_step\<^sup>*\<^sup>* d d'"
  by (auto simp: success_block_def success_opts_def default_opts_def split: option.splits
           elim!: update_then_event_steps [rotated 2])

lemma failure_block_steps:
  "failure_block source svc env jid tid l exc d = Inr (Commit b d') \<Longrightarrow> domain_step\<^sup>*\<^sup>* d d'"
  by (auto simp: failure_block_def failure_opts_def default_opts_def split: option.splits
           elim!: update_then_event_steps [rotated 2])

definition env_ok :: "svc_env \<Rightarrow> bool" where
  "env_ok env \<longleftrightarrow>
     (\<forall>d. domain_step\<^sup>*\<^sup>* d (ev_during env d)) \<and> (\<forall>d. domain_step\<^sup>*\<^sup>* d (ev_before_fail env d))"

lemma session_steps:
  assumes "run_session f block d = (r, d')"
    and "\<And>a d''. block d = Inr (Commit a d'') \<Longrightarrow> domain_step\<^sup>*\<^sup>* d d''"
  shows "domain_step\<^sup>*\<^sup>* d d'"
  using assms(1) by (rule run_session_keeps) (auto intro: assms(2))

lemma count_takeover_wdb [simp]: "wdb (count_takeover svc env jid w) = wdb w"
  by (auto simp: count_takeover_def split: sum.splits option.splits prod.splits)

lemma claim_phase_wdb:
  "claim_phase source svc env jid tid w = (r, w') \<Longrightarrow>
     run_session (tx_fault env) (claim_block source svc env jid tid) (wdb w) = (r, wdb w')"
  by (auto simp: claim_phase_def Let_def split: prod.splits sum.splits claim_result.splits bool.splits)

lemma success_phase_wdb:
  "success_phase svc env jid tid l result w = (r, w') \<Longrightarrow>
     \<exists>x. run_session (tx_fault env) (success_block svc env jid tid l result) (wdb w) = (x, wdb w')"
  by (auto simp: success_phase_def Let_def split: prod.splits sum.splits bool.splits)

lemma failure_phase_wdb:
  "failure_phase source svc env jid tid l exc w = (r, w') \<Longrightarrow>
     \<exists>x. run_session (tx_fault env) (failure_block source svc env jid tid l exc) (wdb w)
         = (x, wdb w')"
  by (auto simp: failure_phase_def Let_def split: prod.splits sum.splits bool.splits)

lemma claim_phase_steps:
  "domain_step\<^sup>*\<^sup>* (wdb w) (wdb (snd (claim_phase source svc env jid tid w)))"
  by (cases "claim_phase source svc env jid tid w")
     (auto dest!: claim_phase_wdb intro: session_steps claim_block_steps)

lemma success_phase_steps:
  "domain_step\<^sup>*\<^sup>* (wdb w) (wdb (snd (success_phase svc env jid tid l result w)))"
  by (cases "success_phase svc env jid tid l result w")
     (auto dest!: success_phase_wdb intro: session_steps success_block_steps)

lemma failure_phase_steps:
  "domain_step\<^sup>*\<^sup>* (wdb w) (wdb (snd (failure_phase source svc env jid tid l exc w)))"
  by (cases "failure_phase source svc env jid tid l exc w")
     (auto dest!: failure_phase_wdb intro: session_steps failure_block_steps)

lemma world_env_wdb [simp]: "wdb (world_env f w) = f (wdb w)"
  by (simp add: world_env_def)

lemma env_ok_steps:
  assumes "env_ok env"
  shows "domain_step\<^sup>*\<^sup>* d (ev_during env d)" "domain_step\<^sup>*\<^sup>* d (ev_before_fail env d)"
  using assms by (simp_all add: env_ok_def)

lemma worker_try_steps:
  assumes "env_ok env"
  shows "domain_step\<^sup>*\<^sup>* (wdb w) (wdb (snd (worker_try svc env process event jid tid l w)))"
  using env_ok_steps(1) [OF assms, of "wdb w"]
    success_phase_steps [of "world_env (ev_during env) w"]
  by (auto simp: worker_try_def Let_def split: sum.splits intro: rtranclp_trans)

lemma worker_handle_event_steps:
  assumes "env_ok env"
  shows "domain_step\<^sup>*\<^sup>* (wdb w) (wdb (snd (worker_handle_event svc env process event w)))"
  using claim_phase_steps [of w "''worker''" svc "ev_claim env"]
    worker_try_steps [OF assms] failure_phase_steps env_ok_steps(2) [OF assms]
  by (auto simp: worker_handle_event_def split: sum.splits prod.splits claim_result.splits)
     (metis rtranclp_trans snd_conv world_env_wdb)+

text \<open>
  The contract of a worker role (\<open>WorkerRolePort\<close>): handling an event is a sequence of
  repository statements, provided the processes it runs beside obey the same rule.
\<close>

locale role_port =
  fixes handle :: "'e \<Rightarrow> pyval \<Rightarrow> world \<Rightarrow> handled \<times> world"
    and fair :: "'e \<Rightarrow> bool"
  assumes handle_steps: "fair e \<Longrightarrow> domain_step\<^sup>*\<^sup>* (wdb w) (wdb (snd (handle e ev w)))"
begin

lemma handle_success: "fair e \<Longrightarrow> same_success (wdb w) (wdb (snd (handle e ev w)))"
  by (intro success_final.le_steps handle_steps)

lemma handle_ok: "fair e \<Longrightarrow> jobs_ok (wdb w) \<Longrightarrow> jobs_ok (wdb (snd (handle e ev w)))"
  by (rule jobs_inv.inv_steps [OF handle_steps])

end

interpretation unified:
  role_port "\<lambda>(env, process). worker_handle_event svc env process" "\<lambda>(env, process). env_ok env"
  for svc
  by unfold_locales (auto intro: worker_handle_event_steps)

subsection \<open>Behaviour of the unified worker, branch by branch\<close>

text \<open>The event names a job and a trace.\<close>

definition names_job :: "pyval \<Rightarrow> string \<Rightarrow> string \<Rightarrow> bool" where
  "names_job event k t \<longleftrightarrow>
     py_getitem event ''job_id'' = Inr (PStr k) \<and> py_getitem event ''trace_id'' = Inr (PStr t)"

lemma worker_handle_named:
  assumes "names_job event k t"
  shows "worker_handle_event svc env process event w =
    (case claim_phase ''worker'' svc (ev_claim env) (PStr k) (PStr t) w of
       (Inl e, w1) \<Rightarrow> (Inl e, w1)
     | (Inr (Finished b msg), w1) \<Rightarrow> (Inr (b, msg), w1)
     | (Inr (Claimed lease), w1) \<Rightarrow>
         (let (r, w2) = worker_try svc env process event (PStr k) (PStr t) lease w1;
              (r', w3) =
                (case r of
                   Inr x \<Rightarrow> (Inr x, w2)
                 | Inl exc \<Rightarrow>
                     failure_phase ''worker'' svc (ev_fail env) (PStr k) (PStr t) lease exc
                       (world_env (ev_before_fail env) w2))
          in (r', count_metric JOB_PROCESSING_SECONDS 1 w3)))"
  using assms by (simp add: worker_handle_event_def names_job_def)

lemma claim_phase_refused_row:
  assumes "jobs (wdb w) k = Some r" and "\<not> claimable (tx_now env) r"
    and "\<not> refused (tx_fault env)" and "jm_status r = status_value st"
  shows "claim_phase source svc env (PStr k) tid w =
     (if st = SUCCESS then (Inr (Finished True None), w)
      else (Inr (Finished False (Some ''LEASE_HELD'')),
            count_metric (JOB_TRANSITION_CONFLICT_TOTAL (status_value PROCESSING)) 1 w))"
proof -
  have "claim_block source svc env (PStr k) tid (wdb w) =
    Inr (Rollback (if st = SUCCESS then Finished True None
                   else Finished False (Some ''LEASE_HELD'')))"
    using assms(1,2,4)
    by (simp add: claim_block_def claim_eq job_get_PStr job_of_row_ok [of r st])
  moreover have "count_takeover svc env (PStr k) w = w"
    using assms(1,2) by (simp add: count_takeover_def claim_eq)
  ultimately show ?thesis
    using assms(3)
    by (auto simp: claim_phase_def run_session_def refused_def split: tx_fault.splits)
qed

text \<open>A worker, an event and quiet surroundings, for the concrete runs below.\<close>

definition sample_tx :: "char \<Rightarrow> tx_env" where
  "sample_tx c = \<lparr>tx_now = 10, tx_dbnow = 10, tx_uuid = (\<lambda>n. c # replicate n (CHR ''x'')),
                  tx_isonow = ''now'', tx_fault = TxOk\<rparr>"

definition sample_env :: svc_env where
  "sample_env = \<lparr>ev_claim = sample_tx (CHR ''c''), ev_finish = sample_tx (CHR ''f''),
                 ev_fail = sample_tx (CHR ''e''), ev_during = (\<lambda>d. d), ev_before_fail = (\<lambda>d. d)\<rparr>"

definition sample_svc :: service where
  "sample_svc = \<lparr>svc_worker_id = ''a'', svc_lease_seconds = 1\<rparr>"

definition sample_event :: pyval where
  "sample_event = PDict [(''job_id'', PStr ''j1''), (''trace_id'', PStr ''t1''),
                         (''payload'', PDict [(''request'', PInt 1)])]"

definition sample_process :: processor where
  "sample_process v = Inr (PStr ''out'')"

lemma sample_tx_fields [simp]:
  "tx_now (sample_tx c) = 10" "tx_dbnow (sample_tx c) = 10" "tx_fault (sample_tx c) = TxOk"
  "tx_isonow (sample_tx c) = ''now''"
  "tx_uuid (sample_tx c) n = c # replicate n (CHR ''x'')"
  by (simp_all add: sample_tx_def)

lemma sample_env_fields [simp]:
  "ev_claim sample_env = sample_tx (CHR ''c'')" "ev_finish sample_env = sample_tx (CHR ''f'')"
  "ev_fail sample_env = sample_tx (CHR ''e'')" "ev_during sample_env d = d"
  "ev_before_fail sample_env d = d"
  by (simp_all add: sample_env_def)

lemma sample_svc_fields [simp]:
  "svc_worker_id sample_svc = ''a''" "svc_lease_seconds sample_svc = 1"
  by (simp_all add: sample_svc_def)

lemma sample_event_names [simp]: "names_job sample_event ''j1'' ''t1''"
  by (simp add: sample_event_def names_job_def)

lemma sample_request:
  "process_request sample_process sample_event = Inr (PInt 1, PStr ''out'')"
  by (simp add: process_request_def sample_event_def sample_process_def)

lemma sample_not_refused [simp]: "\<not> refused TxOk"
  by (simp add: refused_def)

text \<open>
  A duplicate delivery of a finished job is acknowledged and changes nothing: no claim, no
  event, no metric, whatever the processor would do.
\<close>

theorem worker_duplicate_acked:
  assumes "names_job event k t" and "jobs (wdb w) k = Some r"
    and "jm_status r = status_value SUCCESS" and "\<not> refused (tx_fault (ev_claim env))"
  shows "worker_handle_event svc env process event w = (Inr (True, None), w)"
proof -
  have "\<not> claimable (tx_now (ev_claim env)) r"
    using assms(3) by (simp add: claimable_def)
  with assms show ?thesis
    by (simp add: worker_handle_named claim_phase_refused_row [of w k r _ SUCCESS])
qed

theorem worker_duplicate_acked_witness:
  "worker_handle_event sample_svc sample_env sample_process sample_event
     (sample_world (sample_db (sample_row SUCCESS None None 1)))
   = (Inr (True, None), sample_world (sample_db (sample_row SUCCESS None None 1)))"
  by (rule worker_duplicate_acked [OF sample_event_names,
        of _ "sample_row SUCCESS None None 1"]) simp_all

text \<open>
  A live lease keeps other workers out. While a PROCESSING job's lease has not expired by the
  worker's clock, the worker leaves the database alone and reports LEASE_HELD for a retry.
\<close>

theorem worker_lease_held:
  assumes "names_job event k t" and "jobs (wdb w) k = Some r"
    and "jm_status r = status_value PROCESSING"
    and "jm_lease_expires_at r = Some until" and "tx_now (ev_claim env) \<le> until"
    and "\<not> refused (tx_fault (ev_claim env))"
  shows "worker_handle_event svc env process event w =
     (Inr (False, Some ''LEASE_HELD''),
      count_metric (JOB_TRANSITION_CONFLICT_TOTAL (status_value PROCESSING)) 1 w)"
proof -
  have "\<not> claimable (tx_now (ev_claim env)) r"
    using assms(3-5) by (simp add: claimable_def)
  with assms show ?thesis
    by (simp add: worker_handle_named claim_phase_refused_row [of w k r _ PROCESSING])
qed

theorem worker_lease_held_witness:
  "fst (worker_handle_event sample_svc sample_env sample_process sample_event
     (sample_world (sample_db (sample_row PROCESSING (Some ''b'') (Some 50) 1))))
   = Inr (False, Some ''LEASE_HELD'')"
  using worker_lease_held [OF sample_event_names,
      of "sample_world (sample_db (sample_row PROCESSING (Some ''b'') (Some 50) 1))"
         "sample_row PROCESSING (Some ''b'') (Some 50) 1" 50 sample_env] by simp

lemma success_phase_stale:
  assumes "jobs (wdb w) k = Some r" and "jm_lease_epoch r \<noteq> lease_epoch l"
    and "\<not> refused (tx_fault env)"
  shows "success_phase svc env (PStr k) tid l result w =
     (Inr (True, None), count_metric (JOB_TRANSITION_CONFLICT_TOTAL (status_value SUCCESS)) 1 w)"
proof -
  have "success_block svc env (PStr k) tid l result (wdb w) = Inr (Rollback False)"
    using assms(1,2)
    by (simp add: success_block_def update_status_eq success_opts_def default_opts_def
                  cas_matches_def)
  with assms(3) show ?thesis
    by (auto simp: success_phase_def run_session_def refused_def split: tx_fault.splits)
qed

text \<open>
  A worker that lost its lease while processing discards its result. If the job's epoch moved
  on during processing, the worker acknowledges the message, and the database stays as the other
  processes left it.
\<close>

theorem worker_lost_lease_discards:
  assumes "names_job event k t"
    and "claim_phase ''worker'' svc (ev_claim env) (PStr k) (PStr t) w = (Inr (Claimed l), w1)"
    and "jobs (ev_during env (wdb w1)) k = Some r" and "jm_lease_epoch r \<noteq> lease_epoch l"
    and "process_request process event = Inr (request, result)"
    and "\<not> refused (tx_fault (ev_finish env))"
  shows "\<exists>w'. worker_handle_event svc env process event w = (Inr (True, None), w')
              \<and> wdb w' = ev_during env (wdb w1)"
proof -
  have "success_phase svc (ev_finish env) (PStr k) (PStr t) l result
          (world_env (ev_during env) w1) =
    (Inr (True, None),
     count_metric (JOB_TRANSITION_CONFLICT_TOTAL (status_value SUCCESS)) 1
       (world_env (ev_during env) w1))"
    using assms(3,4,6) by (intro success_phase_stale) simp_all
  with assms(1,2,5) show ?thesis
    by (simp add: worker_handle_named worker_try_def Let_def)
qed

subsection \<open>The phases when nothing fails\<close>

text \<open>What a claim and a completion leave behind.\<close>

definition short_names :: "string \<Rightarrow> string \<Rightarrow> bool" where
  "short_names k t \<longleftrightarrow> str_len k \<le> 64 \<and> str_len t \<le> 64"

definition claimed_lease :: "service \<Rightarrow> tx_env \<Rightarrow> JobModel \<Rightarrow> JobLease" where
  "claimed_lease svc env r =
     \<lparr>lease_job_id = jm_id r, lease_owner = svc_worker_id svc,
      lease_epoch = jm_lease_epoch r + 1,
      lease_expires_at = Some (lease_until (tx_now env) (svc_lease_seconds svc))\<rparr>"

definition finished_row :: "tx_env \<Rightarrow> pyval \<Rightarrow> JobModel \<Rightarrow> JobModel" where
  "finished_row env result r =
     r\<lparr>jm_status := status_value SUCCESS, jm_updated_at := tx_dbnow env,
       jm_result := (if result = PNone then jm_result r else Some result),
       jm_error_message := None, jm_lease_owner := None, jm_lease_expires_at := None\<rparr>"

definition failed_row :: "tx_env \<Rightarrow> py_exc \<Rightarrow> JobModel \<Rightarrow> JobModel" where
  "failed_row env exc r =
     r\<lparr>jm_status := status_value FAILED, jm_updated_at := tx_dbnow env,
       jm_error_message := Some (exc_str exc),
       jm_lease_owner := None, jm_lease_expires_at := None\<rparr>"

lemma short_source: "str_len ''worker'' \<le> 64" "str_len ''inference-worker'' \<le> 64"
  "str_len ''downstream-worker'' \<le> 64" "str_len ''api'' \<le> 64"
  by (simp_all add: str_len_def is_cont_def byte_in_def)

lemma claim_phase_claims:
  assumes "jobs (wdb w) k = Some r" and "claimable (tx_now env) r" and "tx_fault env = TxOk"
    and "uuid_fresh (tx_uuid env 0) (wdb w)" and "short_names k t" and "str_len source \<le> 64"
  obtains w1 where
    "claim_phase source svc env (PStr k) (PStr t) w = (Inr (Claimed (claimed_lease svc env r)), w1)"
    "jobs (wdb w1) = (jobs (wdb w))(k \<mapsto>
       claim_row (tx_now env) (tx_dbnow env) (svc_worker_id svc) (svc_lease_seconds svc) r)"
    "job_events (wdb w1) = job_events (wdb w) @
       [new_event (tx_dbnow env) (tx_uuid env 0) k PROCESSING_STARTED source t
          (PDict [(''lease_epoch'', PInt (jm_lease_epoch r + 1))]) (wdb w)]"
    "outbox_messages (wdb w1) = outbox_messages (wdb w)"
  using assms
  by (simp add: claim_phase_def claim_block_def claim_eq short_names_def event_add_new
        uuid_fresh_def new_event_def claimed_lease_def)

lemma str_len_le: "length s \<le> n \<Longrightarrow> str_len s \<le> n"
  unfolding str_len_def by (rule order_trans [OF length_filter_le])

lemma sample_short [simp]: "short_names ''j1'' ''t1''"
  by (simp add: short_names_def str_len_le)

lemma sample_uuid [simp]:
  "n < 64 \<Longrightarrow> uuid_fresh (tx_uuid (sample_tx c) n) (sample_db r)"
  by (simp add: uuid_fresh_def str_len_le)

text \<open>Another worker takes the job over while the first one's processor runs.\<close>

theorem worker_lost_lease_discards_witness:
  "let taken = sample_row PROCESSING (Some ''b'') (Some 99) 2;
       env = sample_env\<lparr>ev_during := (\<lambda>d. d\<lparr>jobs := [''j1'' \<mapsto> taken]\<rparr>)\<rparr>
   in \<exists>w'. worker_handle_event sample_svc env sample_process sample_event
              (sample_world (sample_db (sample_row PENDING None None 0))) = (Inr (True, None), w')
           \<and> jobs (wdb w') ''j1'' = Some taken"
proof -
  let ?taken = "sample_row PROCESSING (Some ''b'') (Some 99) 2"
  let ?env = "sample_env\<lparr>ev_during := (\<lambda>d. d\<lparr>jobs := [''j1'' \<mapsto> ?taken]\<rparr>)\<rparr>"
  let ?r = "sample_row PENDING None None 0"
  obtain w1 where c: "claim_phase ''worker'' sample_svc (ev_claim ?env) (PStr ''j1'') (PStr ''t1'')
      (sample_world (sample_db ?r)) = (Inr (Claimed (claimed_lease sample_svc (ev_claim ?env) ?r)), w1)"
    by (rule claim_phase_claims [of "sample_world (sample_db ?r)" "''j1''" ?r "ev_claim ?env" "''t1''"
          "''worker''" sample_svc]) (simp_all add: claimable_def short_source sample_env_def
             del: sample_tx_fields(5))
  have d: "jobs (ev_during ?env (wdb w1)) ''j1'' = Some ?taken" by simp
  have e: "jm_lease_epoch ?taken \<noteq> lease_epoch (claimed_lease sample_svc (ev_claim ?env) ?r)"
    by (simp add: claimed_lease_def)
  have f: "\<not> refused (tx_fault (ev_finish ?env))" by simp
  from worker_lost_lease_discards [OF sample_event_names c d e sample_request f] d
  show ?thesis unfolding Let_def by metis
qed

lemma success_phase_commits:
  assumes "jobs (wdb w) k = Some r" and "tx_fault env = TxOk"
    and "jm_status r = status_value PROCESSING"
    and "jm_lease_owner r = Some (svc_worker_id svc)" and "jm_lease_epoch r = lease_epoch l"
    and "uuid_fresh (tx_uuid env 0) (wdb w)" and "short_names k t"
  shows "\<exists>w'. success_phase svc env (PStr k) (PStr t) l result w = (Inr (True, None), w')
    \<and> jobs (wdb w') = (jobs (wdb w))(k \<mapsto> finished_row env result r)
    \<and> job_events (wdb w') = job_events (wdb w) @
        [new_event (tx_dbnow env) (tx_uuid env 0) k PROCESSING_COMPLETED ''worker'' t
           (PDict [(''result'', result)]) (wdb w)]
    \<and> metrics w' = metric_add JOB_SUCCESS_TOTAL 1 (metrics w)"
  using assms
  by (simp add: success_phase_def success_block_def update_status_eq success_opts_def
        default_opts_def cas_matches_def job_of_row_ok [of _ SUCCESS] short_names_def
        event_add_new uuid_fresh_def new_event_def short_source not_none_def)
     (simp add: cas_row_def finished_row_def)

lemma failure_phase_commits:
  assumes "jobs (wdb w) k = Some r" and "tx_fault env = TxOk"
    and "jm_status r = status_value PROCESSING"
    and "jm_lease_owner r = Some (svc_worker_id svc)" and "jm_lease_epoch r = lease_epoch l"
    and "uuid_fresh (tx_uuid env 0) (wdb w)" and "short_names k t" and "str_len source \<le> 64"
  shows "\<exists>w'. failure_phase source svc env (PStr k) (PStr t) l exc w
                = (Inr (False, Some (exc_str exc)), w')
    \<and> jobs (wdb w') = (jobs (wdb w))(k \<mapsto> failed_row env exc r)
    \<and> job_events (wdb w') = job_events (wdb w) @
        [new_event (tx_dbnow env) (tx_uuid env 0) k EVENT_FAILED source t
           (PDict [(''error'', PStr (exc_str exc))]) (wdb w)]
    \<and> outbox_messages (wdb w') = outbox_messages (wdb w)
    \<and> metrics w' = metric_add JOB_FAILURE_TOTAL 1 (metrics w)"
  using assms
  by (simp add: failure_phase_def failure_block_def update_status_eq failure_opts_def
        default_opts_def cas_matches_def job_of_row_ok [of _ FAILED] short_names_def
        event_add_new uuid_fresh_def new_event_def)
     (simp add: cas_row_def failed_row_def)

lemma failure_phase_terminal:
  assumes "jobs (wdb w) k = Some r" and "jm_status r = status_value SUCCESS"
    and "\<not> refused (tx_fault env)"
  shows "failure_phase source svc env (PStr k) tid l exc w = (Inr (False, Some (exc_str exc)), w)"
proof -
  have "failure_block source svc env (PStr k) tid l exc (wdb w) = Inr (Rollback False)"
    using assms(1,2)
    by (auto simp: failure_block_def update_status_eq failure_opts_def default_opts_def
                   cas_matches_def)
  with assms(3) show ?thesis
    by (auto simp: failure_phase_def run_session_def refused_def split: tx_fault.splits)
qed

lemma claim_row_fields [simp]:
  "jm_status (claim_row now dbnow owner secs r) = status_value PROCESSING"
  "jm_lease_owner (claim_row now dbnow owner secs r) = Some owner"
  "jm_lease_epoch (claim_row now dbnow owner secs r) = jm_lease_epoch r + 1"
  "jm_result (claim_row now dbnow owner secs r) = jm_result r"
  by (simp_all add: claim_row_def)

lemma claimed_lease_epoch [simp]: "lease_epoch (claimed_lease svc env r) = jm_lease_epoch r + 1"
  by (simp add: claimed_lease_def)

text \<open>The database the worker finds when its processor has returned.\<close>

definition db_processed :: "string \<Rightarrow> service \<Rightarrow> svc_env \<Rightarrow> string \<Rightarrow> string \<Rightarrow> world \<Rightarrow> db" where
  "db_processed source svc env k t w =
     ev_during env (wdb (snd (claim_phase source svc (ev_claim env) (PStr k) (PStr t) w)))"

text \<open>
  A delivery that goes well: the job can be claimed, both transactions commit, identifiers are
  new, and nobody touches the job while the processor runs.
\<close>

definition undisturbed ::
  "string \<Rightarrow> service \<Rightarrow> svc_env \<Rightarrow> string \<Rightarrow> string \<Rightarrow> JobModel \<Rightarrow> world \<Rightarrow> bool" where
  "undisturbed source svc env k t r w \<longleftrightarrow>
     short_names k t \<and> jobs (wdb w) k = Some r \<and> claimable (tx_now (ev_claim env)) r
     \<and> tx_fault (ev_claim env) = TxOk \<and> uuid_fresh (tx_uuid (ev_claim env) 0) (wdb w)
     \<and> jobs (db_processed source svc env k t w) k =
         Some (claim_row (tx_now (ev_claim env)) (tx_dbnow (ev_claim env)) (svc_worker_id svc)
                 (svc_lease_seconds svc) r)"

lemma undisturbed_claim:
  assumes "undisturbed source svc env k t r w" and "str_len source \<le> 64"
  obtains w1 where
    "claim_phase source svc (ev_claim env) (PStr k) (PStr t) w
       = (Inr (Claimed (claimed_lease svc (ev_claim env) r)), w1)"
    "ev_during env (wdb w1) = db_processed source svc env k t w"
proof -
  from assms obtain w1 where "claim_phase source svc (ev_claim env) (PStr k) (PStr t) w
       = (Inr (Claimed (claimed_lease svc (ev_claim env) r)), w1)"
    unfolding undisturbed_def by (elim conjE) (rule claim_phase_claims [where source = source])
  then show thesis by (intro that) (simp_all add: db_processed_def)
qed

text \<open>The sample delivery is undisturbed, whatever else its surroundings do.\<close>

definition sample_pending :: world where
  "sample_pending = sample_world (sample_db (sample_row PENDING None None 0))"

lemma sample_undisturbed:
  assumes "ev_claim env = sample_tx (CHR ''c'')" and "ev_during env = (\<lambda>d. d)"
    and "str_len source \<le> 64"
  shows "undisturbed source sample_svc env ''j1'' ''t1'' (sample_row PENDING None None 0)
           sample_pending"
    and "n < 64 \<Longrightarrow> c \<noteq> CHR ''c'' \<Longrightarrow> uuid_fresh (tx_uuid (sample_tx c) n)
           (db_processed source sample_svc env ''j1'' ''t1'' sample_pending)"
    and "outbox_messages (db_processed source sample_svc env ''j1'' ''t1'' sample_pending) = []"
proof -
  let ?r = "sample_row PENDING None None 0"
  have r: "jobs (wdb sample_pending) ''j1'' = Some ?r" "claimable (tx_now (ev_claim env)) ?r"
    "uuid_fresh (tx_uuid (ev_claim env) 0) (wdb sample_pending)"
    using assms(1) sample_uuid [of 0 "CHR ''c''"]
    by (simp_all add: sample_pending_def claimable_def del: sample_uuid)
  obtain w1 where w1: "claim_phase source sample_svc (ev_claim env) (PStr ''j1'') (PStr ''t1'')
      sample_pending = (Inr (Claimed (claimed_lease sample_svc (ev_claim env) ?r)), w1)"
    "jobs (wdb w1) = (jobs (wdb sample_pending))(''j1'' \<mapsto> claim_row (tx_now (ev_claim env))
       (tx_dbnow (ev_claim env)) (svc_worker_id sample_svc) (svc_lease_seconds sample_svc) ?r)"
    "job_events (wdb w1) = job_events (wdb sample_pending) @
       [new_event (tx_dbnow (ev_claim env)) (tx_uuid (ev_claim env) 0) ''j1'' PROCESSING_STARTED
          source ''t1'' (PDict [(''lease_epoch'', PInt (jm_lease_epoch ?r + 1))])
          (wdb sample_pending)]"
    "outbox_messages (wdb w1) = outbox_messages (wdb sample_pending)"
    by (rule claim_phase_claims [OF r(1,2) _ r(3) sample_short assms(3)])
       (simp add: assms(1))
  have d: "db_processed source sample_svc env ''j1'' ''t1'' sample_pending = wdb w1"
    using w1(1) assms(2) by (simp add: db_processed_def)
  show "undisturbed source sample_svc env ''j1'' ''t1'' ?r sample_pending"
    using r w1(2) assms(1) by (simp add: undisturbed_def d)
  show "uuid_fresh (tx_uuid (sample_tx c) n)
           (db_processed source sample_svc env ''j1'' ''t1'' sample_pending)"
    if "n < 64" "c \<noteq> CHR ''c''"
    unfolding d using that w1(3) assms(1)
    by (simp add: uuid_fresh_def str_len_le new_event_def sample_pending_def)
  show "outbox_messages (db_processed source sample_svc env ''j1'' ''t1'' sample_pending) = []"
    unfolding d using w1(4) by (simp add: sample_pending_def)
qed

lemma worker_succeeds:
  assumes "names_job event k t" and "undisturbed ''worker'' svc env k t r w"
    and "process_request process event = Inr (request, result)" and "result \<noteq> PNone"
    and "tx_fault (ev_finish env) = TxOk"
    and "d = db_processed ''worker'' svc env k t w"
    and "uuid_fresh (tx_uuid (ev_finish env) 0) d"
  shows "\<exists>w' r'. worker_handle_event svc env process event w = (Inr (True, None), w')
    \<and> jobs (wdb w') = (jobs d)(k \<mapsto> r')
    \<and> outcome r' = (status_value SUCCESS, Some result, None)
    \<and> jm_lease_owner r' = None \<and> jm_lease_epoch r' = jm_lease_epoch r + 1
    \<and> job_events (wdb w') = job_events d @
        [new_event (tx_dbnow (ev_finish env)) (tx_uuid (ev_finish env) 0) k PROCESSING_COMPLETED
           ''worker'' t (PDict [(''result'', result)]) d]"
proof -
  from assms(2) obtain w1 where c: "claim_phase ''worker'' svc (ev_claim env) (PStr k) (PStr t) w
       = (Inr (Claimed (claimed_lease svc (ev_claim env) r)), w1)"
    and d: "ev_during env (wdb w1) = d"
    by (rule undisturbed_claim) (auto simp: short_source assms(6))
  let ?r = "claim_row (tx_now (ev_claim env)) (tx_dbnow (ev_claim env)) (svc_worker_id svc)
                 (svc_lease_seconds svc) r"
  from assms(2,6) have "jobs d k = Some ?r" "short_names k t" by (simp_all add: undisturbed_def)
  with assms(5,7) d success_phase_commits [of "world_env (ev_during env) w1" k ?r "ev_finish env" svc
      "claimed_lease svc (ev_claim env) r" t result]
  obtain w2 where "success_phase svc (ev_finish env) (PStr k) (PStr t)
      (claimed_lease svc (ev_claim env) r) result (world_env (ev_during env) w1)
        = (Inr (True, None), w2)"
    "jobs (wdb w2) = (jobs d)(k \<mapsto> finished_row (ev_finish env) result ?r)"
    "job_events (wdb w2) = job_events d @
        [new_event (tx_dbnow (ev_finish env)) (tx_uuid (ev_finish env) 0) k PROCESSING_COMPLETED
           ''worker'' t (PDict [(''result'', result)]) d]"
    by auto
  with assms(1,3,4) c show ?thesis
    by (simp add: worker_handle_named worker_try_def Let_def)
       (intro exI [of _ "finished_row (ev_finish env) result ?r"],
        simp add: finished_row_def outcome_def)
qed

text \<open>
  C23: The full success path. A claimable job whose request the processor answers ends SUCCESS with
  that answer as its result, no error and no lease, one epoch further; the completion event is the
  last of the log, no other job changes, and the message is acknowledged.
\<close>

theorem worker_completes:
  assumes "names_job event k t" and "undisturbed ''worker'' svc env k t r w"
    and "process_request process event = Inr (request, result)" and "result \<noteq> PNone"
    and "tx_fault (ev_finish env) = TxOk"
    and "d = db_processed ''worker'' svc env k t w"
    and "uuid_fresh (tx_uuid (ev_finish env) 0) d"
  shows "\<exists>w' r'. worker_handle_event svc env process event w = (Inr (True, None), w')
    \<and> jobs (wdb w') = (jobs d)(k \<mapsto> r')
    \<and> outcome r' = (status_value SUCCESS, Some result, None)
    \<and> jm_lease_owner r' = None \<and> jm_lease_epoch r' = jm_lease_epoch r + 1
    \<and> job_events (wdb w') = job_events d @
        [new_event (tx_dbnow (ev_finish env)) (tx_uuid (ev_finish env) 0) k PROCESSING_COMPLETED
           ''worker'' t (PDict [(''result'', result)]) d]"
  using assms by (rule worker_succeeds)

theorem worker_completes_witness:
  "\<exists>w' r'. worker_handle_event sample_svc sample_env sample_process sample_event sample_pending
      = (Inr (True, None), w')
    \<and> jobs (wdb w') ''j1'' = Some r'
    \<and> outcome r' = (status_value SUCCESS, Some (PStr ''out''), None)"
proof -
  have env: "ev_claim sample_env = sample_tx (CHR ''c'')" "ev_during sample_env = (\<lambda>d. d)"
    by (simp_all add: sample_env_def)
  note u = sample_undisturbed [OF env short_source(1)]
  from worker_completes [OF sample_event_names u(1) sample_request _ _ refl] u(2) [of 0 "CHR ''f''"]
  show ?thesis by fastforce
qed

lemma worker_fails:
  assumes "names_job event k t" and "undisturbed ''worker'' svc env k t r w"
    and "process_request process event = Inl exc"
    and "tx_fault (ev_fail env) = TxOk"
    and "d = ev_before_fail env (db_processed ''worker'' svc env k t w)"
    and "jobs d k = jobs (db_processed ''worker'' svc env k t w) k"
    and "uuid_fresh (tx_uuid (ev_fail env) 0) d"
  shows "\<exists>w' r'. worker_handle_event svc env process event w
      = (Inr (False, Some (exc_str exc)), w')
    \<and> jobs (wdb w') = (jobs d)(k \<mapsto> r')
    \<and> outcome r' = (status_value FAILED, jm_result r, Some (exc_str exc))
    \<and> jm_lease_owner r' = None \<and> jm_lease_epoch r' = jm_lease_epoch r + 1
    \<and> job_events (wdb w') = job_events d @
        [new_event (tx_dbnow (ev_fail env)) (tx_uuid (ev_fail env) 0) k EVENT_FAILED
           ''worker'' t (PDict [(''error'', PStr (exc_str exc))]) d]"
proof -
  from assms(2) obtain w1 where c: "claim_phase ''worker'' svc (ev_claim env) (PStr k) (PStr t) w
       = (Inr (Claimed (claimed_lease svc (ev_claim env) r)), w1)"
    and d: "ev_before_fail env (ev_during env (wdb w1)) = d"
    by (rule undisturbed_claim) (auto simp: short_source assms(5))
  let ?r = "claim_row (tx_now (ev_claim env)) (tx_dbnow (ev_claim env)) (svc_worker_id svc)
                 (svc_lease_seconds svc) r"
  let ?w = "world_env (ev_before_fail env) (world_env (ev_during env) w1)"
  from assms(2,6) have "jobs d k = Some ?r" "short_names k t" by (simp_all add: undisturbed_def)
  with assms(4,7) d failure_phase_commits [of ?w k ?r "ev_fail env" svc
      "claimed_lease svc (ev_claim env) r" t "''worker''" exc]
  obtain w2 where "failure_phase ''worker'' svc (ev_fail env) (PStr k) (PStr t)
      (claimed_lease svc (ev_claim env) r) exc ?w = (Inr (False, Some (exc_str exc)), w2)"
    "jobs (wdb w2) = (jobs d)(k \<mapsto> failed_row (ev_fail env) exc ?r)"
    "job_events (wdb w2) = job_events d @
        [new_event (tx_dbnow (ev_fail env)) (tx_uuid (ev_fail env) 0) k EVENT_FAILED
           ''worker'' t (PDict [(''error'', PStr (exc_str exc))]) d]"
    by (auto simp: short_source)
  with assms(1,3) c show ?thesis
    by (simp add: worker_handle_named worker_try_def Let_def)
       (intro exI [of _ "failed_row (ev_fail env) exc ?r"],
        simp add: failed_row_def outcome_def)
qed

text \<open>
  C24: The failure path. If the request is missing from the event or the processor raises, the job
  ends FAILED with the exception's text, its lease is released, a FAILED event is logged, and the
  handler reports the failure so that the message is retried.
\<close>

theorem worker_records_failure:
  assumes "names_job event k t" and "undisturbed ''worker'' svc env k t r w"
    and "process_request process event = Inl exc"
    and "tx_fault (ev_fail env) = TxOk"
    and "d = ev_before_fail env (db_processed ''worker'' svc env k t w)"
    and "jobs d k = jobs (db_processed ''worker'' svc env k t w) k"
    and "uuid_fresh (tx_uuid (ev_fail env) 0) d"
  shows "\<exists>w' r'. worker_handle_event svc env process event w
      = (Inr (False, Some (exc_str exc)), w')
    \<and> jobs (wdb w') = (jobs d)(k \<mapsto> r')
    \<and> outcome r' = (status_value FAILED, jm_result r, Some (exc_str exc))
    \<and> jm_lease_owner r' = None \<and> jm_lease_epoch r' = jm_lease_epoch r + 1
    \<and> job_events (wdb w') = job_events d @
        [new_event (tx_dbnow (ev_fail env)) (tx_uuid (ev_fail env) 0) k EVENT_FAILED
           ''worker'' t (PDict [(''error'', PStr (exc_str exc))]) d]"
  using assms by (rule worker_fails)

theorem worker_records_failure_witness:
  "\<exists>w' r'. worker_handle_event sample_svc sample_env (\<lambda>_. Inl (PyExc ''RuntimeError'' ''boom''))
      sample_event sample_pending = (Inr (False, Some ''boom''), w')
    \<and> jobs (wdb w') ''j1'' = Some r'
    \<and> outcome r' = (status_value FAILED, None, Some ''boom'')"
proof -
  let ?e = "PyExc ''RuntimeError'' ''boom''"
  have env: "ev_claim sample_env = sample_tx (CHR ''c'')" "ev_during sample_env = (\<lambda>d. d)"
    by (simp_all add: sample_env_def)
  note u = sample_undisturbed [OF env short_source(1)]
  have p: "process_request (\<lambda>_. Inl ?e) sample_event = Inl ?e"
    by (simp add: process_request_def sample_event_def)
  from worker_records_failure [OF sample_event_names u(1) p _ refl] u(2) [of 0 "CHR ''e''"]
  show ?thesis by (fastforce simp: sample_row_def)
qed

lemma success_phase_ambiguous:
  assumes "jobs (wdb w) k = Some r" and "tx_fault env = TxAmbiguous e"
    and "jm_status r = status_value PROCESSING"
    and "jm_lease_owner r = Some (svc_worker_id svc)" and "jm_lease_epoch r = lease_epoch l"
    and "uuid_fresh (tx_uuid env 0) (wdb w)" and "short_names k t"
  shows "\<exists>w'. success_phase svc env (PStr k) (PStr t) l result w = (Inl e, w')
    \<and> jobs (wdb w') k = Some (finished_row env result r)"
  using assms
  by (simp add: success_phase_def success_block_def update_status_eq success_opts_def
        default_opts_def cas_matches_def job_of_row_ok [of _ SUCCESS] short_names_def
        event_add_new uuid_fresh_def short_source not_none_def run_session_def)
     (simp add: cas_row_def finished_row_def)

text \<open>
  An ambiguous commit does no harm. If the transaction that records SUCCESS commits but the
  worker sees an exception (its connection is lost at that moment), the compensating update to
  FAILED matches no row: the job keeps SUCCESS and its result, and the handler reports the failure
  so that the message comes back and is then acknowledged as a duplicate.
\<close>

theorem worker_ambiguous_commit:
  assumes "names_job event k t" and "undisturbed ''worker'' svc env k t r w"
    and "process_request process event = Inr (request, result)" and "result \<noteq> PNone"
    and "tx_fault (ev_finish env) = TxAmbiguous e" and "tx_fault (ev_fail env) = TxOk"
    and "uuid_fresh (tx_uuid (ev_finish env) 0) (db_processed ''worker'' svc env k t w)"
    and "\<And>d. domain_step\<^sup>*\<^sup>* d (ev_before_fail env d)"
  shows "\<exists>w' r'. worker_handle_event svc env process event w
      = (Inr (False, Some (exc_str e)), w')
    \<and> jobs (wdb w') k = Some r'
    \<and> outcome r' = (status_value SUCCESS, Some result, None)"
proof -
  from assms(2) obtain w1 where c: "claim_phase ''worker'' svc (ev_claim env) (PStr k) (PStr t) w
       = (Inr (Claimed (claimed_lease svc (ev_claim env) r)), w1)"
    and d: "ev_during env (wdb w1) = db_processed ''worker'' svc env k t w"
    by (rule undisturbed_claim) (auto simp: short_source)
  let ?r = "claim_row (tx_now (ev_claim env)) (tx_dbnow (ev_claim env)) (svc_worker_id svc)
                 (svc_lease_seconds svc) r"
  from assms(2) d assms(5,7) success_phase_ambiguous [of "world_env (ev_during env) w1" k ?r
      "ev_finish env" e svc "claimed_lease svc (ev_claim env) r" t result]
  obtain w2 where s: "success_phase svc (ev_finish env) (PStr k) (PStr t)
      (claimed_lease svc (ev_claim env) r) result (world_env (ev_during env) w1) = (Inl e, w2)"
    and r2: "jobs (wdb w2) k = Some (finished_row (ev_finish env) result ?r)"
    by (auto simp: undisturbed_def)
  have "outcome (finished_row (ev_finish env) result ?r)
      = (status_value SUCCESS, Some result, None)"
    using assms(4) by (simp add: finished_row_def outcome_def)
  with success_final.le_steps [OF assms(8) [of "wdb w2"]] r2
  obtain r' where r': "jobs (ev_before_fail env (wdb w2)) k = Some r'"
      "outcome r' = (status_value SUCCESS, Some result, None)"
    unfolding same_success_def by (metis outcome_def prod.inject)
  then have "failure_phase ''worker'' svc (ev_fail env) (PStr k) (PStr t)
      (claimed_lease svc (ev_claim env) r) e (world_env (ev_before_fail env) w2)
        = (Inr (False, Some (exc_str e)), world_env (ev_before_fail env) w2)"
    using assms(6) by (intro failure_phase_terminal) (auto simp: outcome_def refused_def)
  with assms(1,3) c s r' show ?thesis
    by (simp add: worker_handle_named worker_try_def Let_def)
qed

theorem worker_ambiguous_commit_witness:
  "let lost = PyExc ''DBAPIError'' ''connection lost'';
       env = sample_env\<lparr>ev_finish := (sample_tx (CHR ''f''))\<lparr>tx_fault := TxAmbiguous lost\<rparr>\<rparr>
   in \<exists>w' r'. worker_handle_event sample_svc env sample_process sample_event sample_pending
          = (Inr (False, Some ''connection lost''), w')
        \<and> jobs (wdb w') ''j1'' = Some r'
        \<and> outcome r' = (status_value SUCCESS, Some (PStr ''out''), None)"
proof -
  let ?e = "PyExc ''DBAPIError'' ''connection lost''"
  let ?env = "sample_env\<lparr>ev_finish := (sample_tx (CHR ''f''))\<lparr>tx_fault := TxAmbiguous ?e\<rparr>\<rparr>"
  have env: "ev_claim ?env = sample_tx (CHR ''c'')" "ev_during ?env = (\<lambda>d. d)"
    by (simp_all add: sample_env_def)
  note u = sample_undisturbed [OF env short_source(1)]
  have "tx_uuid (ev_finish ?env) 0 = tx_uuid (sample_tx (CHR ''f'')) 0" by simp
  then show ?thesis
    using worker_ambiguous_commit [OF sample_event_names u(1) sample_request, of ?e]
      u(2) [of 0 "CHR ''f''"]
    by (simp add: Let_def)
qed

end
