(* ===== verification/Pipeline_Services.thy ===== *)
theory Pipeline_Services
  imports Worker_Service
begin

section \<open>The split pipeline: inference and downstream services\<close>

text \<open>
  \<open>InferencePipelineService\<close> and \<open>DownstreamPipelineService\<close> of
  \<open>app/application/pipeline_services.py\<close>. Inference claims the job like the unified worker and
  hands the job on through the outbox, leaving it PROCESSING; downstream finishes it without a
  lease.
\<close>

subsection \<open>Inference\<close>

definition InferencePipelineService_init :: "int option \<Rightarrow> string option \<Rightarrow> string \<Rightarrow> service" where
  "InferencePipelineService_init lease_seconds worker_id uuid =
     \<lparr>svc_worker_id = worker_identity ''inference-'' worker_id uuid,
      svc_lease_seconds = default_lease lease_seconds\<rparr>"

definition downstream_event :: "tx_env \<Rightarrow> pyval \<Rightarrow> pyval \<Rightarrow> pyval \<Rightarrow> pyval \<Rightarrow> pyval" where
  "downstream_event env jid tid request result =
     build_event (tx_uuid env 0) (tx_isonow env) jid INFERENCE_COMPLETED ''inference-worker'' tid
       (PDict [(''request'', request), (''inference_result'', result)])"

definition handover_block ::
  "string \<Rightarrow> tx_env \<Rightarrow> pyval \<Rightarrow> pyval \<Rightarrow> pyval \<Rightarrow> pyval \<Rightarrow> db \<Rightarrow> unit tx res" where
  "handover_block downstream_topic env jid tid request result d =
     bind_res (event_add (tx_dbnow env)
                 (build_event (tx_uuid env 1) (tx_isonow env) jid INFERENCE_COMPLETED
                    ''inference-worker'' tid (PDict [(''result'', result)])) d) (\<lambda>d1.
     bind_res (outbox_add (tx_dbnow env) (tx_uuid env 2) downstream_topic
                 (downstream_event env jid tid request result) None d1) (\<lambda>(_, d2).
       Inr (Commit () d2)))"

definition inference_try ::
  "string \<Rightarrow> svc_env \<Rightarrow> processor \<Rightarrow> pyval \<Rightarrow> pyval \<Rightarrow> pyval \<Rightarrow> world \<Rightarrow> handled \<times> world" where
  "inference_try downstream_topic env process event jid tid w =
     (let w1 = world_env (ev_during env) w
      in case process_request process event of
           Inl e \<Rightarrow> (Inl e, w1)
         | Inr (request, result) \<Rightarrow>
             (case run_session (tx_fault (ev_finish env))
                     (handover_block downstream_topic (ev_finish env) jid tid request result)
                     (wdb w1) of
                (Inl e, d') \<Rightarrow> (Inl e, w1\<lparr>wdb := d'\<rparr>)
              | (Inr _, d') \<Rightarrow>
                  (Inr (True, None),
                   count_metric DOWNSTREAM_EVENT_PUBLISHED_TOTAL 1 (w1\<lparr>wdb := d'\<rparr>))))"

definition inference_handle_event ::
  "string \<Rightarrow> service \<Rightarrow> svc_env \<Rightarrow> processor \<Rightarrow> pyval \<Rightarrow> world \<Rightarrow> handled \<times> world" where
  "inference_handle_event downstream_topic svc env process event w =
     (case bind_res (py_getitem event ''job_id'') (\<lambda>jid.
           bind_res (py_getitem event ''trace_id'') (\<lambda>tid. Inr (jid, tid))) of
        Inl e \<Rightarrow> (Inl e, w)
      | Inr (jid, tid) \<Rightarrow>
          (case claim_phase ''inference-worker'' svc (ev_claim env) jid tid w of
             (Inl e, w1) \<Rightarrow> (Inl e, w1)
           | (Inr (Finished b msg), w1) \<Rightarrow> (Inr (b, msg), w1)
           | (Inr (Claimed lease), w1) \<Rightarrow>
               (case inference_try downstream_topic env process event jid tid w1 of
                  (Inr x, w2) \<Rightarrow> (Inr x, w2)
                | (Inl exc, w2) \<Rightarrow>
                    failure_phase ''inference-worker'' svc (ev_fail env) jid tid lease exc
                      (world_env (ev_before_fail env) w2))))"

subsection \<open>Downstream\<close>

definition fmt_job_id :: "pyval \<Rightarrow> string" where
  "fmt_job_id jid = (case jid of PStr s \<Rightarrow> s | _ \<Rightarrow> ''None'')"

text \<open>The read at the start: \<open>True\<close> if the job is finished already.\<close>

definition downstream_lookup :: "tx_env \<Rightarrow> pyval \<Rightarrow> db \<Rightarrow> bool res" where
  "downstream_lookup env jid d =
     (case tx_fault env of
        TxAbort e \<Rightarrow> Inl e
      | _ \<Rightarrow>
          bind_res (job_get jid d) (\<lambda>existing.
            case existing of
              None \<Rightarrow> Inl (PyExc ''ValueError''
                             (''Job not found for downstream event: '' @ fmt_job_id jid))
            | Some j \<Rightarrow> Inr (job_status j = SUCCESS)))"

definition finish_block ::
  "tx_env \<Rightarrow> pyval \<Rightarrow> pyval \<Rightarrow> pyval \<Rightarrow> pyval \<Rightarrow> db \<Rightarrow> unit tx res" where
  "finish_block env jid tid payload result d =
     bind_res (py_get payload ''inference_result'' PNone) (\<lambda>inference_result.
     bind_res (update_status (tx_dbnow env) jid (status_value SUCCESS)
                 (default_opts\<lparr>opt_result := Some (PDict [(''inference'', inference_result),
                                                         (''downstream'', result)]),
                               opt_clear_error := True\<rparr>) d) (\<lambda>(_, d1).
     bind_res (event_add (tx_dbnow env)
                 (build_event (tx_uuid env 0) (tx_isonow env) jid DOWNSTREAM_COMPLETED
                    ''downstream-worker'' tid (PDict [(''result'', result)])) d1) (\<lambda>d2.
       Inr (Commit () d2))))"

definition downstream_try ::
  "svc_env \<Rightarrow> processor \<Rightarrow> pyval \<Rightarrow> pyval \<Rightarrow> pyval \<Rightarrow> world \<Rightarrow> handled \<times> world" where
  "downstream_try env process event jid tid w =
     (case downstream_lookup (ev_claim env) jid (wdb w) of
        Inl e \<Rightarrow> (Inl e, w)
      | Inr True \<Rightarrow> (Inr (True, None), w)
      | Inr False \<Rightarrow>
          (let w1 = world_env (ev_during env) w
           in case bind_res (py_getitem event ''payload'') (\<lambda>payload.
                   bind_res (process payload) (\<lambda>result. Inr (payload, result))) of
                Inl e \<Rightarrow> (Inl e, w1)
              | Inr (payload, result) \<Rightarrow>
                  (case run_session (tx_fault (ev_finish env))
                          (finish_block (ev_finish env) jid tid payload result) (wdb w1) of
                     (Inl e, d') \<Rightarrow> (Inl e, w1\<lparr>wdb := d'\<rparr>)
                   | (Inr _, d') \<Rightarrow>
                       (Inr (True, None),
                        count_metric DOWNSTREAM_SUCCESS_TOTAL 1 (w1\<lparr>wdb := d'\<rparr>)))))"

definition downstream_fail_block ::
  "tx_env \<Rightarrow> pyval \<Rightarrow> pyval \<Rightarrow> py_exc \<Rightarrow> db \<Rightarrow> unit tx res" where
  "downstream_fail_block env jid tid exc d =
     bind_res (update_status (tx_dbnow env) jid (status_value FAILED)
                 (default_opts\<lparr>opt_error := Some (exc_str exc)\<rparr>) d) (\<lambda>(_, d1).
     bind_res (event_add (tx_dbnow env)
                 (build_event (tx_uuid env 0) (tx_isonow env) jid EVENT_FAILED
                    ''downstream-worker'' tid (PDict [(''error'', PStr (exc_str exc))])) d1) (\<lambda>d2.
       Inr (Commit () d2)))"

definition downstream_handle_event ::
  "svc_env \<Rightarrow> processor \<Rightarrow> pyval \<Rightarrow> world \<Rightarrow> handled \<times> world" where
  "downstream_handle_event env process event w =
     (case bind_res (py_getitem event ''job_id'') (\<lambda>jid.
           bind_res (py_getitem event ''trace_id'') (\<lambda>tid. Inr (jid, tid))) of
        Inl e \<Rightarrow> (Inl e, w)
      | Inr (jid, tid) \<Rightarrow>
          (case downstream_try env process event jid tid w of
             (Inr x, w1) \<Rightarrow> (Inr x, w1)
           | (Inl exc, w1) \<Rightarrow>
               (let w2 = world_env (ev_before_fail env) w1
                in case run_session (tx_fault (ev_fail env))
                          (downstream_fail_block (ev_fail env) jid tid exc) (wdb w2) of
                     (Inl e, d') \<Rightarrow> (Inl e, w2\<lparr>wdb := d'\<rparr>)
                   | (Inr _, d') \<Rightarrow>
                       (Inr (False, Some (exc_str exc)),
                        count_metric DOWNSTREAM_FAILURE_TOTAL 1 (w2\<lparr>wdb := d'\<rparr>)))))"

subsection \<open>Handlers as sequences of statements\<close>

lemma outbox_add_frame:
  "outbox_add now mid tp p hs d = Inr (m, d') \<Longrightarrow>
     jobs d' = jobs d \<and> job_events d' = job_events d \<and> event_seq d' = event_seq d"
  by (auto simp: outbox_add_def split: if_splits)

lemma handover_block_frame:
  assumes "handover_block tp env jid tid request result d = Inr (Commit a d')"
  shows "jobs d' = jobs d"
  using assms by (auto simp: handover_block_def dest!: event_add_frame(1) outbox_add_frame)

lemma handover_block_steps:
  "handover_block tp env jid tid request result d = Inr (Commit a d') \<Longrightarrow> domain_step\<^sup>*\<^sup>* d d'"
  by (drule handover_block_frame) (auto intro: client_step.other)

lemma finish_block_steps:
  "finish_block env jid tid payload result d = Inr (Commit a d') \<Longrightarrow> domain_step\<^sup>*\<^sup>* d d'"
  by (auto simp: finish_block_def default_opts_def elim!: update_then_event_steps [rotated 2])

lemma downstream_fail_block_steps:
  "downstream_fail_block env jid tid exc d = Inr (Commit a d') \<Longrightarrow> domain_step\<^sup>*\<^sup>* d d'"
  by (auto simp: downstream_fail_block_def default_opts_def
           elim!: update_then_event_steps [rotated 2])

lemma inference_try_wdb:
  assumes "inference_try tp env process event jid tid w = (r, w')"
  shows "wdb w' = ev_during env (wdb w) \<or>
    (\<exists>request result x. run_session (tx_fault (ev_finish env))
       (handover_block tp (ev_finish env) jid tid request result) (ev_during env (wdb w))
         = (x, wdb w'))"
  using assms
  by (fastforce simp: inference_try_def Let_def split: sum.splits prod.splits)

lemma inference_try_steps:
  assumes "env_ok env"
  shows "domain_step\<^sup>*\<^sup>* (wdb w) (wdb (snd (inference_try tp env process event jid tid w)))"
proof (cases "inference_try tp env process event jid tid w")
  case (Pair r w')
  from inference_try_wdb [OF this] have "domain_step\<^sup>*\<^sup>* (ev_during env (wdb w)) (wdb w')"
    by (auto intro: session_steps handover_block_steps)
  with env_ok_steps(1) [OF assms] Pair show ?thesis by (auto intro: rtranclp_trans)
qed

lemma fail_after_steps:
  assumes "env_ok env" and "domain_step\<^sup>*\<^sup>* d (wdb w)"
  shows "domain_step\<^sup>*\<^sup>* d (wdb (snd (failure_phase source svc e jid tid l exc
           (world_env (ev_before_fail env) w))))"
  using assms(2) env_ok_steps(2) [OF assms(1), of "wdb w"]
    failure_phase_steps [of "world_env (ev_before_fail env) w" source svc e jid tid l exc]
  by (auto intro: rtranclp_trans)

lemma inference_handle_event_steps:
  assumes "env_ok env"
  shows "domain_step\<^sup>*\<^sup>* (wdb w) (wdb (snd (inference_handle_event tp svc env process event w)))"
proof (cases "\<exists>jid tid l w1. py_getitem event ''job_id'' = Inr jid
    \<and> py_getitem event ''trace_id'' = Inr tid
    \<and> claim_phase ''inference-worker'' svc (ev_claim env) jid tid w = (Inr (Claimed l), w1)")
  case False
  then show ?thesis
    using claim_phase_steps [of w "''inference-worker''" svc "ev_claim env"]
    by (auto simp: inference_handle_event_def split: sum.splits prod.splits claim_result.splits)
       (metis snd_conv)+
next
  case True
  then obtain jid tid l w1 where ids: "py_getitem event ''job_id'' = Inr jid"
      "py_getitem event ''trace_id'' = Inr tid"
    and c: "claim_phase ''inference-worker'' svc (ev_claim env) jid tid w = (Inr (Claimed l), w1)"
    by blast
  obtain r w2 where t: "inference_try tp env process event jid tid w1 = (r, w2)"
    by (cases "inference_try tp env process event jid tid w1")
  have "domain_step\<^sup>*\<^sup>* (wdb w) (wdb w2)"
    using claim_phase_steps [of w "''inference-worker''" svc "ev_claim env" jid tid]
      inference_try_steps [OF assms, of w1 tp process event jid tid] c t
    by (auto intro: rtranclp_trans)
  with fail_after_steps [OF assms this] ids c t show ?thesis
    by (cases r) (simp_all add: inference_handle_event_def)
qed

lemma downstream_try_wdb:
  assumes "downstream_try env process event jid tid w = (r, w')"
  shows "wdb w' = wdb w \<or> wdb w' = ev_during env (wdb w) \<or>
    (\<exists>payload result x. run_session (tx_fault (ev_finish env))
       (finish_block (ev_finish env) jid tid payload result) (ev_during env (wdb w))
         = (x, wdb w'))"
  using assms
  by (fastforce simp: downstream_try_def Let_def split: sum.splits prod.splits bool.splits)

lemma downstream_try_steps:
  assumes "env_ok env"
  shows "domain_step\<^sup>*\<^sup>* (wdb w) (wdb (snd (downstream_try env process event jid tid w)))"
proof (cases "downstream_try env process event jid tid w")
  case (Pair r w')
  from downstream_try_wdb [OF this]
  have "wdb w' = wdb w \<or> domain_step\<^sup>*\<^sup>* (ev_during env (wdb w)) (wdb w')"
    by (auto intro: session_steps finish_block_steps)
  with env_ok_steps(1) [OF assms] Pair show ?thesis by (auto intro: rtranclp_trans)
qed

lemma downstream_handle_event_steps:
  assumes "env_ok env"
  shows "domain_step\<^sup>*\<^sup>* (wdb w) (wdb (snd (downstream_handle_event env process event w)))"
proof (cases "\<exists>jid tid. py_getitem event ''job_id'' = Inr jid \<and> py_getitem event ''trace_id'' = Inr tid")
  case False
  then show ?thesis by (auto simp: downstream_handle_event_def split: sum.splits)
next
  case True
  then obtain jid tid where ids: "py_getitem event ''job_id'' = Inr jid" "py_getitem event ''trace_id'' = Inr tid"
    by blast
  obtain r w1 where t: "downstream_try env process event jid tid w = (r, w1)"
    by (cases "downstream_try env process event jid tid w")
  have w1: "domain_step\<^sup>*\<^sup>* (wdb w) (wdb w1)"
    using downstream_try_steps [OF assms, of w process event jid tid] t by simp
  show ?thesis
  proof (cases r)
    case (Inr x)
    with ids t w1 show ?thesis by (simp add: downstream_handle_event_def)
  next
    case (Inl exc)
    let ?d = "ev_before_fail env (wdb w1)"
    obtain x d' where f: "run_session (tx_fault (ev_fail env))
        (downstream_fail_block (ev_fail env) jid tid exc) ?d = (x, d')"
      by (cases "run_session (tx_fault (ev_fail env))
        (downstream_fail_block (ev_fail env) jid tid exc) ?d")
    then have "domain_step\<^sup>*\<^sup>* ?d d'" by (rule session_steps) (rule downstream_fail_block_steps)
    with w1 env_ok_steps(2) [OF assms, of "wdb w1"] have "domain_step\<^sup>*\<^sup>* (wdb w) d'"
      by (blast intro: rtranclp_trans)
    with ids t Inl f show ?thesis
      by (simp add: downstream_handle_event_def Let_def split: sum.splits)
  qed
qed

interpretation inference:
  role_port "\<lambda>(env, process). inference_handle_event tp svc env process"
              "\<lambda>(env, process). env_ok env"
  for tp svc
  by unfold_locales (auto intro: inference_handle_event_steps)

interpretation downstream:
  role_port "\<lambda>(env, process). downstream_handle_event env process"
              "\<lambda>(env, process). env_ok env"
  by unfold_locales (auto intro: downstream_handle_event_steps)

subsection \<open>Behaviour of the split pipeline\<close>

text \<open>
  No role undoes a finished job. Whatever event a unified, an inference or a downstream worker
  handles, with whatever processor and failures, beside any other clients, every job that was
  SUCCESS is SUCCESS afterwards, with the same result and error columns.
\<close>

theorem roles_keep_success:
  assumes "env_ok env"
  shows "same_success (wdb w) (wdb (snd (worker_handle_event svc env process event w)))
    \<and> same_success (wdb w) (wdb (snd (inference_handle_event tp svc env process event w)))
    \<and> same_success (wdb w) (wdb (snd (downstream_handle_event env process event w)))"
  using unified.handle_success [of "(env, process)"] inference.handle_success [of "(env, process)"]
    downstream.handle_success [of "(env, process)"] assms
  by simp

theorem roles_keep_success_witness:
  "let w = sample_world (sample_db (sample_row SUCCESS None None 1))
   in same_success (wdb w) (wdb (snd (downstream_handle_event sample_env sample_process
        sample_event w)))"
proof -
  have "env_ok sample_env" by (simp add: env_ok_def)
  from roles_keep_success [OF this] show ?thesis by (simp add: Let_def)
qed

text \<open>The message the hand-over queues.\<close>

definition handover_item :: "string \<Rightarrow> tx_env \<Rightarrow> pyval \<Rightarrow> pyval \<Rightarrow> pyval \<Rightarrow> pyval \<Rightarrow> db \<Rightarrow> OutboxItem" where
  "handover_item tp env jid tid request result d =
     \<lparr>oi_id = outbox_seq d + 1, oi_message_id = tx_uuid env 2, oi_topic = tp,
      oi_payload = downstream_event env jid tid request result, oi_headers = None,
      oi_attempts = 0\<rparr>"

lemma handover_block_Commit:
  assumes "handover_block tp env jid tid request result d = Inr (Commit a d')"
  obtains ev where "jobs d' = jobs d" "job_events d' = job_events d @ [ev]"
    "je_event_type ev = event_value INFERENCE_COMPLETED" "jid = PStr (je_job_id ev)"
    "je_payload ev = PDict [(''result'', result)]"
    "pending_items d' = pending_items d @ [handover_item tp env jid tid request result d]"
proof -
  from assms obtain m d1 where
    ev: "event_add (tx_dbnow env) (build_event (tx_uuid env 1) (tx_isonow env) jid
           INFERENCE_COMPLETED ''inference-worker'' tid (PDict [(''result'', result)])) d = Inr d1"
    and ob: "outbox_add (tx_dbnow env) (tx_uuid env 2) tp
           (downstream_event env jid tid request result) None d1 = Inr (m, d')"
    by (auto simp: handover_block_def)
  from ev show thesis
    by (rule event_add_build)
       (use outbox_add_pending [OF ob] in
        \<open>auto intro!: that simp: handover_item_def pending_items_def\<close>)
qed

text \<open>
  C25: The hand-over is atomic. However the attempt of an inference worker ends, the database is
  what the other processes left, or it has in addition exactly one INFERENCE_COMPLETED event and
  exactly one pending message for the downstream topic, with the processor's result in both; the
  job rows are not touched.
\<close>

theorem inference_handover_atomic:
  "let d = ev_during env (wdb w);
       d' = wdb (snd (inference_try tp env process event jid tid w))
   in d' = d \<or>
      (\<exists>request result ev.
         process_request process event = Inr (request, result)
         \<and> jobs d' = jobs d \<and> job_events d' = job_events d @ [ev]
         \<and> je_event_type ev = event_value INFERENCE_COMPLETED
         \<and> je_payload ev = PDict [(''result'', result)]
         \<and> pending_items d' = pending_items d @
             [handover_item tp (ev_finish env) jid tid request result d])"
proof (cases "process_request process event")
  case (Inl e)
  then show ?thesis by (simp add: inference_try_def Let_def)
next
  case (Inr x)
  then obtain request result where req: "process_request process event = Inr (request, result)"
    by (cases x) simp
  let ?d = "ev_during env (wdb w)"
  obtain r d' where run: "run_session (tx_fault (ev_finish env))
      (handover_block tp (ev_finish env) jid tid request result) ?d = (r, d')"
    by (cases "run_session (tx_fault (ev_finish env))
      (handover_block tp (ev_finish env) jid tid request result) ?d")
  have d': "wdb (snd (inference_try tp env process event jid tid w)) = d'"
    using req run by (cases r) (simp_all add: inference_try_def)
  from run show ?thesis
  proof (rule run_session_cases)
    assume "d' = ?d"
    with d' show ?thesis by simp
  next
    fix a
    assume "handover_block tp (ev_finish env) jid tid request result ?d = Inr (Commit a d')"
    then show ?thesis
      by (rule handover_block_Commit) (use req d' in \<open>auto simp: Let_def\<close>)
  qed
qed

lemma event_add_outbox:
  assumes "event_add now ev d = Inr d'"
  shows "pending_items d' = pending_items d"
  using event_add_frame [OF assms] by (simp add: pending_items_def)

definition message_fresh :: "string \<Rightarrow> string \<Rightarrow> db \<Rightarrow> bool" where
  "message_fresh u tp d \<longleftrightarrow>
     str_len u \<le> 64 \<and> str_len tp \<le> 128 \<and> u \<notin> ob_message_id ` set (outbox_messages d)"

lemma outbox_add_new:
  assumes "message_fresh u tp d"
  obtains d' where "outbox_add now u tp p hs d = Inr (u, d')"
  using assms by (auto simp: outbox_add_def varchar_def message_fresh_def)

lemma inference_handle_named:
  assumes "names_job event k t"
    and "claim_phase ''inference-worker'' svc (ev_claim env) (PStr k) (PStr t) w
           = (Inr (Claimed l), w1)"
    and "inference_try tp env process event (PStr k) (PStr t) w1 = (Inr x, w2)"
  shows "inference_handle_event tp svc env process event w = (Inr x, w2)"
  using assms by (simp add: inference_handle_event_def names_job_def)

text \<open>
  The inference success path. The job stays PROCESSING under the worker's lease, the
  completion event is logged, the downstream message is queued behind those already pending, and
  the message is acknowledged.
\<close>

theorem inference_completes:
  assumes "names_job event k t" and "undisturbed ''inference-worker'' svc env k t r w"
    and "process_request process event = Inr (request, result)"
    and "tx_fault (ev_finish env) = TxOk"
    and "d = db_processed ''inference-worker'' svc env k t w"
    and "uuid_fresh (tx_uuid (ev_finish env) 1) d"
    and "message_fresh (tx_uuid (ev_finish env) 2) tp d"
  shows "\<exists>w' ev. inference_handle_event tp svc env process event w = (Inr (True, None), w')
    \<and> jobs (wdb w') = jobs d
    \<and> map_option jm_status (jobs (wdb w') k) = Some (status_value PROCESSING)
    \<and> job_events (wdb w') = job_events d @ [ev]
    \<and> je_event_type ev = event_value INFERENCE_COMPLETED \<and> je_job_id ev = k
    \<and> je_event_id ev = tx_uuid (ev_finish env) 1
    \<and> pending_items (wdb w') = pending_items d @
        [handover_item tp (ev_finish env) (PStr k) (PStr t) request result d]"
proof -
  from assms(2) obtain w1 where c: "claim_phase ''inference-worker'' svc (ev_claim env) (PStr k)
       (PStr t) w = (Inr (Claimed (claimed_lease svc (ev_claim env) r)), w1)"
    and d: "ev_during env (wdb w1) = d"
    by (rule undisturbed_claim) (auto simp: short_source assms(5))
  from assms(2) have k: "short_names k t" by (simp add: undisturbed_def)
  let ?env = "ev_finish env"
  let ?ev = "new_event (tx_dbnow ?env) (tx_uuid ?env 1) k INFERENCE_COMPLETED ''inference-worker''
               t (PDict [(''result'', result)]) d"
  let ?d1 = "d\<lparr>event_seq := event_seq d + 1, job_events := job_events d @ [?ev]\<rparr>"
  have "message_fresh (tx_uuid ?env 2) tp ?d1" using assms(7) by (simp add: message_fresh_def)
  then obtain d2 where o: "outbox_add (tx_dbnow ?env) (tx_uuid ?env 2) tp
      (downstream_event ?env (PStr k) (PStr t) request result) None ?d1 = Inr (tx_uuid ?env 2, d2)"
    by (rule outbox_add_new)
  have "handover_block tp ?env (PStr k) (PStr t) request result d = Inr (Commit () d2)"
    using k assms(6) o by (simp add: handover_block_def event_add_new short_names_def short_source)
  then have "\<exists>w'. inference_try tp env process event (PStr k) (PStr t) w1 = (Inr (True, None), w')
      \<and> wdb w' = d2"
    using assms(3,4) d by (simp add: inference_try_def Let_def)
  then obtain w2 where "inference_try tp env process event (PStr k) (PStr t) w1
      = (Inr (True, None), w2)" "wdb w2 = d2" by blast
  with inference_handle_named [OF assms(1) c] outbox_add_pending [OF o] show ?thesis
    using assms(2,5)
    by (simp add: handover_item_def pending_items_def undisturbed_def)
       (simp add: new_event_def)
qed

theorem inference_completes_witness:
  "\<exists>w'. inference_handle_event ''downstream-topic'' sample_svc sample_env sample_process sample_event
      sample_pending = (Inr (True, None), w')
    \<and> map_option jm_status (jobs (wdb w') ''j1'') = Some (status_value PROCESSING)
    \<and> map oi_topic (pending_items (wdb w')) = [''downstream-topic'']"
proof -
  have env: "ev_claim sample_env = sample_tx (CHR ''c'')" "ev_during sample_env = (\<lambda>d. d)"
    by (simp_all add: sample_env_def)
  note u = sample_undisturbed [OF env short_source(2)]
  let ?d = "db_processed ''inference-worker'' sample_svc sample_env ''j1'' ''t1'' sample_pending"
  have "message_fresh (tx_uuid (ev_finish sample_env) 2) ''downstream-topic'' ?d"
    by (simp add: message_fresh_def u(3) str_len_le)
  moreover have "pending_items ?d = []" by (simp add: pending_items_def u(3))
  ultimately show ?thesis
    using inference_completes [OF sample_event_names u(1) sample_request _ refl, of "''downstream-topic''"]
      u(2) [of 1 "CHR ''f''"]
    by (auto simp: handover_item_def)
qed

definition downstream_result :: "pyval \<Rightarrow> pyval \<Rightarrow> pyval" where
  "downstream_result inference_result result =
     PDict [(''inference'', inference_result), (''downstream'', result)]"

definition downstream_row :: "tx_env \<Rightarrow> pyval \<Rightarrow> JobModel \<Rightarrow> JobModel" where
  "downstream_row env result r =
     (if jm_status r = status_value PROCESSING
      then r\<lparr>jm_status := status_value SUCCESS, jm_updated_at := tx_dbnow env,
             jm_result := Some result, jm_error_message := None\<rparr>
      else r)"

text \<open>
  The finishing transaction: a PROCESSING row becomes SUCCESS, any other row is left as it is, and
  the event is logged in both cases.
\<close>

lemma finish_block_eq:
  assumes "jobs d k = Some r" and "py_get payload ''inference_result'' PNone = Inr ir"
    and "uuid_fresh (tx_uuid env 0) d" and "short_names k t"
  shows "\<exists>d'. finish_block env (PStr k) (PStr t) payload result d = Inr (Commit () d')
    \<and> jobs d' = (jobs d)(k \<mapsto> downstream_row env (downstream_result ir result) r)
    \<and> job_events d' = job_events d @
        [new_event (tx_dbnow env) (tx_uuid env 0) k DOWNSTREAM_COMPLETED ''downstream-worker'' t
           (PDict [(''result'', result)]) d]"
proof (cases "jm_status r = status_value PROCESSING")
  case True
  with assms show ?thesis
    by (simp add: finish_block_def update_status_eq default_opts_def cas_matches_def
          job_of_row_ok [of _ SUCCESS] short_names_def event_add_new uuid_fresh_def short_source)
       (simp add: cas_row_def downstream_row_def downstream_result_def new_event_def)
next
  case False
  with assms show ?thesis
    by (simp add: finish_block_def update_status_eq default_opts_def cas_matches_def
          short_names_def event_add_new short_source downstream_row_def fun_upd_idem)
qed

lemma downstream_named:
  assumes "names_job event k t" and "short_names k t"
    and "jobs (wdb w) k = Some r0" and "jm_status r0 = status_value st" and "st \<noteq> SUCCESS"
    and "tx_fault (ev_claim env) = TxOk" and "tx_fault (ev_finish env) = TxOk"
    and "py_getitem event ''payload'' = Inr (PDict ps)" and "process (PDict ps) = Inr result"
    and "d = ev_during env (wdb w)" and "jobs d k = Some r"
    and "uuid_fresh (tx_uuid (ev_finish env) 0) d"
  shows "\<exists>w'. downstream_handle_event env process event w = (Inr (True, None), w')
    \<and> jobs (wdb w') = (jobs d)(k \<mapsto> downstream_row (ev_finish env)
         (downstream_result (case map_of ps ''inference_result'' of None \<Rightarrow> PNone | Some v \<Rightarrow> v)
            result) r)
    \<and> job_events (wdb w') = job_events d @
        [new_event (tx_dbnow (ev_finish env)) (tx_uuid (ev_finish env) 0) k DOWNSTREAM_COMPLETED
           ''downstream-worker'' t (PDict [(''result'', result)]) d]
    \<and> metrics w' = metric_add DOWNSTREAM_SUCCESS_TOTAL 1 (metrics w)"
proof -
  let ?ir = "case map_of ps ''inference_result'' of None \<Rightarrow> PNone | Some v \<Rightarrow> v"
  have "downstream_lookup (ev_claim env) (PStr k) (wdb w) = Inr False"
    using assms(3-6) by (simp add: downstream_lookup_def job_get_PStr job_of_row_ok [of r0 st])
  moreover obtain d' where "finish_block (ev_finish env) (PStr k) (PStr t) (PDict ps) result d
      = Inr (Commit () d')"
    "jobs d' = (jobs d)(k \<mapsto> downstream_row (ev_finish env) (downstream_result ?ir result) r)"
    "job_events d' = job_events d @
        [new_event (tx_dbnow (ev_finish env)) (tx_uuid (ev_finish env) 0) k DOWNSTREAM_COMPLETED
           ''downstream-worker'' t (PDict [(''result'', result)]) d]"
    using finish_block_eq [OF assms(11) _ assms(12,2), of "PDict ps" ?ir result] by auto
  ultimately show ?thesis
    using assms(1,7-10)
    by (simp add: downstream_handle_event_def downstream_try_def names_job_def Let_def)
       (simp add: world_env_def)
qed

text \<open>
  The downstream success path. A PROCESSING job whose downstream step succeeds ends SUCCESS
  with the inference result and the downstream result together, and no error.
\<close>

theorem downstream_completes:
  assumes "names_job event k t" and "short_names k t"
    and "jobs (wdb w) k = Some r" and "jm_status r = status_value PROCESSING"
    and "tx_fault (ev_claim env) = TxOk" and "tx_fault (ev_finish env) = TxOk"
    and "py_getitem event ''payload'' = Inr (PDict ps)"
    and "map_of ps ''inference_result'' = Some ir" and "process (PDict ps) = Inr result"
    and "jobs (ev_during env (wdb w)) k = Some r"
    and "uuid_fresh (tx_uuid (ev_finish env) 0) (ev_during env (wdb w))"
  shows "\<exists>w' r'. downstream_handle_event env process event w = (Inr (True, None), w')
    \<and> jobs (wdb w') = (jobs (ev_during env (wdb w)))(k \<mapsto> r')
    \<and> outcome r' = (status_value SUCCESS, Some (downstream_result ir result), None)
    \<and> length (job_events (wdb w')) = length (job_events (ev_during env (wdb w))) + 1"
proof -
  from downstream_named [where process = process, OF assms(1-4) _ assms(5-7,9) refl assms(10,11)] assms(8)
  obtain w' where "downstream_handle_event env process event w = (Inr (True, None), w')"
    "jobs (wdb w') = (jobs (ev_during env (wdb w)))(k \<mapsto>
       downstream_row (ev_finish env) (downstream_result ir result) r)"
    "length (job_events (wdb w')) = length (job_events (ev_during env (wdb w))) + 1"
    by auto
  then show ?thesis
    using assms(4)
    by simp (intro exI [of _ "downstream_row (ev_finish env) (downstream_result ir result) r"],
             simp add: downstream_row_def outcome_def)
qed

text \<open>An event on the downstream topic.\<close>

definition sample_downstream_event :: pyval where
  "sample_downstream_event =
     PDict [(''job_id'', PStr ''j1''), (''trace_id'', PStr ''t1''),
            (''payload'', PDict [(''inference_result'', PInt 5)])]"

lemma sample_downstream_names: "names_job sample_downstream_event ''j1'' ''t1''"
  by (simp add: sample_downstream_event_def names_job_def)

theorem downstream_completes_witness:
  "\<exists>w' r'. downstream_handle_event sample_env sample_process sample_downstream_event
      (sample_world (sample_db (sample_row PROCESSING (Some ''a'') (Some 5) 1)))
        = (Inr (True, None), w')
    \<and> jobs (wdb w') ''j1'' = Some r'
    \<and> outcome r' = (status_value SUCCESS, Some (downstream_result (PInt 5) (PStr ''out'')), None)"
  using downstream_completes [OF sample_downstream_names sample_short, of
      "sample_world (sample_db (sample_row PROCESSING (Some ''a'') (Some 5) 1))"
      "sample_row PROCESSING (Some ''a'') (Some 5) 1" sample_env
      "[(''inference_result'', PInt 5)]" "PInt 5" sample_process "PStr ''out''"]
    sample_uuid [of 0 "CHR ''f''"]
  by (auto simp: sample_downstream_event_def sample_process_def)

text \<open>
  C27: A downstream retry cannot finish a job that failed downstream before. The failed attempt set
  the row to FAILED; the retry processes the payload, its update to SUCCESS matches no row because
  FAILED is not an allowed source, and this is not looked at: the job rows stay as they are, yet
  DOWNSTREAM_COMPLETED is logged, a success is counted and the message is acknowledged.
\<close>

theorem downstream_retry_leaves_failed:
  assumes "names_job event k t" and "short_names k t"
    and "jobs (wdb w) k = Some r" and "jm_status r = status_value FAILED"
    and "tx_fault (ev_claim env) = TxOk" and "tx_fault (ev_finish env) = TxOk"
    and "py_getitem event ''payload'' = Inr (PDict ps)" and "process (PDict ps) = Inr result"
    and "jobs (ev_during env (wdb w)) k = Some r"
    and "uuid_fresh (tx_uuid (ev_finish env) 0) (ev_during env (wdb w))"
  shows "\<exists>w'. downstream_handle_event env process event w = (Inr (True, None), w')
    \<and> jobs (wdb w') = jobs (ev_during env (wdb w))
    \<and> je_event_type (last (job_events (wdb w'))) = event_value DOWNSTREAM_COMPLETED
    \<and> metrics w' DOWNSTREAM_SUCCESS_TOTAL = metrics w DOWNSTREAM_SUCCESS_TOTAL + 1"
  using downstream_named [where process = process, OF assms(1-4) _ assms(5-8) refl assms(9,10)] assms(4,9)
  by (auto simp: downstream_row_def new_event_def fun_upd_idem)

theorem downstream_retry_leaves_failed_witness:
  "\<exists>w'. downstream_handle_event sample_env sample_process sample_downstream_event
      (sample_world (sample_db (sample_row FAILED None None 1))) = (Inr (True, None), w')
    \<and> map_option jm_status (jobs (wdb w') ''j1'') = Some (status_value FAILED)
    \<and> je_event_type (last (job_events (wdb w'))) = event_value DOWNSTREAM_COMPLETED"
  using downstream_retry_leaves_failed [OF sample_downstream_names sample_short, of
      "sample_world (sample_db (sample_row FAILED None None 1))"
      "sample_row FAILED None None 1" sample_env
      "[(''inference_result'', PInt 5)]" sample_process "PStr ''out''"]
    sample_uuid [of 0 "CHR ''f''"]
  by (auto simp: sample_downstream_event_def sample_process_def)

end
