(* ===== verification/Job_Service.thy ===== *)
theory Job_Service
  imports Pipeline_Services
begin

section \<open>Creating jobs idempotently\<close>

text \<open>
  \<open>IdempotencyPort\<close> with its two implementations in the repository,
  \<open>RedisIdempotencyStore\<close> (\<open>app/adapters/cache/redis_idempotency.py\<close>) and the in-memory store
  of \<open>tests/conftest.py\<close>, and \<open>JobService\<close> (\<open>app/application/job_service.py\<close>). The Redis
  client is a parameter; \<open>redis_laws\<close> states what \<open>GET\<close> and \<open>SET [NX] EX\<close> are documented
  to do. The locale \<open>idempotency_port\<close> is the contract of the port.
\<close>

subsection \<open>The port\<close>

record IdempotencyRecord =
  idr_key :: string
  idr_job_id :: pyval
  idr_status :: pyval

record 's idem_store =
  idem_get :: "string \<Rightarrow> 's \<Rightarrow> IdempotencyRecord option res"
  idem_reserve :: "string \<Rightarrow> string \<Rightarrow> 's \<Rightarrow> bool res \<times> 's"
  idem_complete :: "string \<Rightarrow> string \<Rightarrow> 's \<Rightarrow> unit res \<times> 's"

subsection \<open>The Redis store\<close>

text \<open>
  A text is represented by what \<open>json.loads\<close> makes of it: the document, or the error it raises.
\<close>

datatype json_text = JsonText pyval | BadText string

definition json_dumps :: "pyval \<Rightarrow> json_text" where
  "json_dumps v = JsonText v"

fun json_loads :: "json_text \<Rightarrow> pyval res" where
  "json_loads (JsonText v) = Inr v"
| "json_loads (BadText msg) = Inl (PyExc ''JSONDecodeError'' msg)"

record 's redis_api =
  rd_get :: "string \<Rightarrow> 's \<Rightarrow> json_text option res"
  rd_set :: "string \<Rightarrow> json_text \<Rightarrow> bool \<Rightarrow> int \<Rightarrow> 's \<Rightarrow> bool res \<times> 's"

record RedisIdempotencyStore =
  rs_ttl_seconds :: int
  rs_processing_ttl_seconds :: int

definition request_key :: "string \<Rightarrow> string" where
  "request_key key = ''idem:req:'' @ key"

definition redis_record :: "string \<Rightarrow> json_text \<Rightarrow> IdempotencyRecord res" where
  "redis_record key raw =
     bind_res (json_loads raw) (\<lambda>data.
     bind_res (py_get data ''job_id'' PNone) (\<lambda>jid.
     bind_res (py_getitem data ''status'') (\<lambda>st.
       Inr \<lparr>idr_key = key, idr_job_id = jid, idr_status = st\<rparr>)))"

definition redis_get_request_record ::
  "'s redis_api \<Rightarrow> string \<Rightarrow> 's \<Rightarrow> IdempotencyRecord option res" where
  "redis_get_request_record api key s =
     bind_res (rd_get api (request_key key) s) (\<lambda>raw.
       case raw of
         None \<Rightarrow> Inr None
       | Some t \<Rightarrow> bind_res (redis_record key t) (\<lambda>r. Inr (Some r)))"

definition redis_reserve_request ::
  "'s redis_api \<Rightarrow> RedisIdempotencyStore \<Rightarrow> string \<Rightarrow> string \<Rightarrow> 's \<Rightarrow> bool res \<times> 's" where
  "redis_reserve_request api rs key jid s =
     rd_set api (request_key key)
       (json_dumps (PDict [(''status'', PStr ''PROCESSING''), (''job_id'', PStr jid)]))
       True (rs_processing_ttl_seconds rs) s"

definition redis_complete_request ::
  "'s redis_api \<Rightarrow> RedisIdempotencyStore \<Rightarrow> string \<Rightarrow> string \<Rightarrow> 's \<Rightarrow> unit res \<times> 's" where
  "redis_complete_request api rs key jid s =
     (case rd_set api (request_key key)
             (json_dumps (PDict [(''status'', PStr ''COMPLETED''), (''job_id'', PStr jid)]))
             False (rs_ttl_seconds rs) s of
        (Inl e, s') \<Rightarrow> (Inl e, s')
      | (Inr _, s') \<Rightarrow> (Inr (), s'))"

definition redis_store :: "'s redis_api \<Rightarrow> RedisIdempotencyStore \<Rightarrow> 's idem_store" where
  "redis_store api rs =
     \<lparr>idem_get = redis_get_request_record api,
      idem_reserve = redis_reserve_request api rs,
      idem_complete = redis_complete_request api rs\<rparr>"

subsection \<open>The in-memory store\<close>

type_synonym memory = "string \<rightharpoonup> IdempotencyRecord"

definition mem_get_request_record :: "string \<Rightarrow> memory \<Rightarrow> IdempotencyRecord option res" where
  "mem_get_request_record key m = Inr (m key)"

definition mem_reserve_request :: "string \<Rightarrow> string \<Rightarrow> memory \<Rightarrow> bool res \<times> memory" where
  "mem_reserve_request key jid m =
     (if m key \<noteq> None then (Inr False, m)
      else (Inr True, m(key \<mapsto> \<lparr>idr_key = key, idr_job_id = PStr jid,
                                 idr_status = PStr ''PROCESSING''\<rparr>)))"

definition mem_complete_request :: "string \<Rightarrow> string \<Rightarrow> memory \<Rightarrow> unit res \<times> memory" where
  "mem_complete_request key jid m =
     (Inr (), m(key \<mapsto> \<lparr>idr_key = key, idr_job_id = PStr jid, idr_status = PStr ''COMPLETED''\<rparr>))"

definition memory_store :: "memory idem_store" where
  "memory_store =
     \<lparr>idem_get = mem_get_request_record,
      idem_reserve = mem_reserve_request,
      idem_complete = mem_complete_request\<rparr>"

subsection \<open>The job service\<close>

record job_service =
  js_topic :: string

text \<open>
  What a request draws from its surroundings: what other clients commit to the database before
  this request uses it, what happens to the store (expiry, other clients) before its n-th call,
  the failure of a read, and the transaction's own environment. Identifiers are numbered: the
  request key if none was given, the job, the trace, the event, the outbox message.
\<close>

record 's create_env =
  ce_tx :: tx_env
  ce_db :: "db \<Rightarrow> db"
  ce_store :: "nat \<Rightarrow> 's \<Rightarrow> 's"
  ce_read_fault :: "py_exc option"

definition get_job :: "py_exc option \<Rightarrow> pyval \<Rightarrow> db \<Rightarrow> Job option res" where
  "get_job fault jid d = (case fault of Some e \<Rightarrow> Inl e | None \<Rightarrow> job_get jid d)"

definition job_not_found :: "string \<Rightarrow> py_exc" where
  "job_not_found key = PyExc ''ValueError'' (''Idempotent job not found for key '' @ key)"

definition return_existing ::
  "'s create_env \<Rightarrow> string \<Rightarrow> IdempotencyRecord \<Rightarrow> world \<Rightarrow> Job res \<times> world" where
  "return_existing env key existing w =
     (bind_res (get_job (ce_read_fault env) (idr_job_id existing) (wdb w)) (\<lambda>job.
        case job of None \<Rightarrow> Inl (job_not_found key) | Some j \<Rightarrow> Inr j),
      count_metric JOB_DUPLICATE_TOTAL 1 w)"

definition known_job :: "IdempotencyRecord option \<Rightarrow> IdempotencyRecord option" where
  "known_job existing =
     (case existing of None \<Rightarrow> None | Some r \<Rightarrow> if py_truth (idr_job_id r) then Some r else None)"

definition new_job :: "tx_env \<Rightarrow> pyval \<Rightarrow> Job" where
  "new_job env payload =
     \<lparr>job_id = tx_uuid env 1, job_status = PENDING, job_request_payload = payload,
      job_result = None, job_error = None, job_retry_count = 0,
      job_created_at = tx_now env, job_updated_at = tx_now env\<rparr>"

definition request_event :: "tx_env \<Rightarrow> pyval \<Rightarrow> pyval" where
  "request_event env payload =
     build_event (tx_uuid env 3) (tx_isonow env) (PStr (tx_uuid env 1)) REQUESTED ''api''
       (PStr (tx_uuid env 2)) (PDict [(''request'', payload)])"

definition create_block :: "job_service \<Rightarrow> tx_env \<Rightarrow> pyval \<Rightarrow> db \<Rightarrow> unit tx res" where
  "create_block svc env payload d =
     bind_res (job_add (tx_dbnow env) (new_job env payload) d) (\<lambda>d1.
     bind_res (event_add (tx_dbnow env) (request_event env payload) d1) (\<lambda>d2.
     bind_res (outbox_add (tx_dbnow env) (tx_uuid env 4) (js_topic svc)
                 (request_event env payload) None d2) (\<lambda>(_, d3).
       Inr (Commit () d3))))"

definition write_job ::
  "'s idem_store \<Rightarrow> job_service \<Rightarrow> 's create_env \<Rightarrow> pyval \<Rightarrow> string \<Rightarrow> world \<Rightarrow> 's
     \<Rightarrow> Job res \<times> world \<times> 's" where
  "write_job st svc env payload key w s =
     (case run_session (tx_fault (ce_tx env)) (create_block svc (ce_tx env) payload) (wdb w) of
        (Inl e, d') \<Rightarrow> (Inl e, w\<lparr>wdb := d'\<rparr>, s)
      | (Inr _, d') \<Rightarrow>
          (case idem_complete st key (tx_uuid (ce_tx env) 1) (ce_store env 3 s) of
             (Inl e, s') \<Rightarrow> (Inl e, w\<lparr>wdb := d'\<rparr>, s')
           | (Inr _, s') \<Rightarrow>
               (Inr (new_job (ce_tx env) payload),
                count_metric JOB_CREATED_TOTAL 1 (w\<lparr>wdb := d'\<rparr>), s')))"

definition effective_key :: "tx_env \<Rightarrow> string option \<Rightarrow> string" where
  "effective_key env key =
     (case key of None \<Rightarrow> tx_uuid env 0 | Some k \<Rightarrow> if k = [] then tx_uuid env 0 else k)"

definition create_job ::
  "'s idem_store \<Rightarrow> job_service \<Rightarrow> 's create_env \<Rightarrow> pyval \<Rightarrow> string option \<Rightarrow> world \<Rightarrow> 's
     \<Rightarrow> Job res \<times> world \<times> 's" where
  "create_job st svc env payload idempotency_key w0 s0 =
     (let w = world_env (ce_db env) w0;
          key = effective_key (ce_tx env) idempotency_key;
          s1 = ce_store env 0 s0
      in case idem_get st key s1 of
           Inl e \<Rightarrow> (Inl e, w, s1)
         | Inr existing \<Rightarrow>
             (case known_job existing of
                Some r \<Rightarrow> (let (res, w') = return_existing env key r w in (res, w', s1))
              | None \<Rightarrow>
                  (case idem_reserve st key (tx_uuid (ce_tx env) 1) (ce_store env 1 s1) of
                     (Inl e, s2) \<Rightarrow> (Inl e, w, s2)
                   | (Inr True, s2) \<Rightarrow> write_job st svc env payload key w s2
                   | (Inr False, s2) \<Rightarrow>
                       (let s3 = ce_store env 2 s2
                        in case idem_get st key s3 of
                             Inl e \<Rightarrow> (Inl e, w, s3)
                           | Inr existing' \<Rightarrow>
                               (case known_job existing' of
                                  Some r \<Rightarrow>
                                    (let (res, w') = return_existing env key r w in (res, w', s3))
                                | None \<Rightarrow>
                                    (Inl (PyExc ''ValueError''
                                            ''Unable to reserve idempotency key''), w, s3))))))"

subsection \<open>The contract of the port\<close>

text \<open>
  \<open>lookup\<close> is the record the store holds for a key. A reservation succeeds only where there is
  none, and then leaves one that names the job; a failed one changes nothing; completion writes
  the record. Calls that raise promise nothing.
\<close>

definition idem_entry :: "string \<Rightarrow> string \<Rightarrow> string \<Rightarrow> IdempotencyRecord" where
  "idem_entry key jid st = \<lparr>idr_key = key, idr_job_id = PStr jid, idr_status = PStr st\<rparr>"

locale idempotency_port =
  fixes st :: "'s idem_store"
    and lookup :: "'s \<Rightarrow> string \<Rightarrow> IdempotencyRecord option"
  assumes get_lookup: "idem_get st key s = Inr r \<Longrightarrow> r = lookup s key"
    and reserve_new: "idem_reserve st key jid s = (Inr True, s') \<Longrightarrow>
          lookup s key = None \<and> lookup s' key = Some (idem_entry key jid ''PROCESSING'')"
    and reserve_taken: "idem_reserve st key jid s = (Inr False, s') \<Longrightarrow> lookup s' = lookup s"
    and complete_lookup: "idem_complete st key jid s = (Inr u, s') \<Longrightarrow>
          lookup s' key = Some (idem_entry key jid ''COMPLETED'')"
begin

text \<open>A key with a job on record: the answer is that job, and nothing is written.\<close>

lemma create_job_known:
  assumes "effective_key (ce_tx env) ikey = key"
    and "idem_get st key (ce_store env 0 s) = Inr x"
    and "lookup (ce_store env 0 s) key = Some r" and "py_truth (idr_job_id r)"
  shows "create_job st svc env payload ikey w s =
    (let (res, w') = return_existing env key r (world_env (ce_db env) w)
     in (res, w', ce_store env 0 s))"
proof -
  from get_lookup [OF assms(2)] assms(3) have "x = Some r" by simp
  with assms show ?thesis by (simp add: create_job_def Let_def known_job_def)
qed

text \<open>Whoever writes a job found no record under its key.\<close>

lemma create_job_writes:
  assumes "create_job st svc env payload ikey w s = (res, w', s')"
    and "wdb w' \<noteq> ce_db env (wdb w)"
    and "key = effective_key (ce_tx env) ikey"
  shows "lookup (ce_store env 1 (ce_store env 0 s)) key = None"
  using assms
  by (auto simp: create_job_def Let_def return_existing_def dest!: reserve_new
           split: sum.splits option.splits prod.splits bool.splits)

end

interpretation mem: idempotency_port memory_store "\<lambda>m. m"
  by unfold_locales
     (auto simp: memory_store_def mem_get_request_record_def mem_reserve_request_def
                 mem_complete_request_def idem_entry_def split: if_splits)

text \<open>
  What Redis documents of the two commands, over the contents of its keyspace: \<open>GET\<close> answers the
  value of the key, \<open>SET NX\<close> is refused where the key exists, and a \<open>SET\<close> that is not refused
  stores the value and leaves the other keys.
\<close>

definition redis_laws :: "'s redis_api \<Rightarrow> ('s \<Rightarrow> string \<Rightarrow> json_text option) \<Rightarrow> bool" where
  "redis_laws api contents \<longleftrightarrow>
     (\<forall>k s v. rd_get api k s = Inr v \<longrightarrow> v = contents s k)
     \<and> (\<forall>k v nx ex s s'. rd_set api k v nx ex s = (Inr True, s') \<longrightarrow>
          (nx \<longrightarrow> contents s k = None) \<and> contents s' = (contents s)(k \<mapsto> v))
     \<and> (\<forall>k v nx ex s s'. rd_set api k v nx ex s = (Inr False, s') \<longrightarrow>
          nx \<and> contents s k \<noteq> None \<and> contents s' = contents s)"

lemma redis_set_stores:
  "redis_laws api contents \<Longrightarrow> rd_set api k v nx ex s = (Inr True, s') \<Longrightarrow>
     contents s' = (contents s)(k \<mapsto> v)"
  unfolding redis_laws_def by blast

lemma redis_set_refused:
  "redis_laws api contents \<Longrightarrow> rd_set api k v nx ex s = (Inr False, s') \<Longrightarrow> nx"
  unfolding redis_laws_def by blast

definition redis_lookup ::
  "('s \<Rightarrow> string \<Rightarrow> json_text option) \<Rightarrow> 's \<Rightarrow> string \<Rightarrow> IdempotencyRecord option" where
  "redis_lookup contents s key =
     (case contents s (request_key key) of
        None \<Rightarrow> None
      | Some t \<Rightarrow> (case redis_record key t of Inl _ \<Rightarrow> None | Inr r \<Rightarrow> Some r))"

lemma redis_record_entry [simp]:
  "redis_record key (json_dumps (PDict [(''status'', PStr st), (''job_id'', PStr jid)]))
     = Inr (idem_entry key jid st)"
  by (simp add: redis_record_def json_dumps_def idem_entry_def)

lemma redis_store_port:
  assumes "redis_laws api contents"
  shows "idempotency_port (redis_store api rs) (redis_lookup contents)"
proof
  fix key s r
  assume "idem_get (redis_store api rs) key s = Inr r"
  with assms show "r = redis_lookup contents s key"
    by (fastforce simp: redis_store_def redis_get_request_record_def redis_lookup_def
          redis_laws_def split: option.splits)
next
  fix key jid s s'
  assume "idem_reserve (redis_store api rs) key jid s = (Inr True, s')"
  then have "rd_set api (request_key key)
       (json_dumps (PDict [(''status'', PStr ''PROCESSING''), (''job_id'', PStr jid)]))
       True (rs_processing_ttl_seconds rs) s = (Inr True, s')"
    by (simp add: redis_store_def redis_reserve_request_def)
  with assms have "contents s (request_key key) = None"
    "contents s' = (contents s)(request_key key \<mapsto>
       json_dumps (PDict [(''status'', PStr ''PROCESSING''), (''job_id'', PStr jid)]))"
    unfolding redis_laws_def by blast+
  then show "redis_lookup contents s key = None \<and>
       redis_lookup contents s' key = Some (idem_entry key jid ''PROCESSING'')"
    by (simp add: redis_lookup_def)
next
  fix key jid s s'
  assume "idem_reserve (redis_store api rs) key jid s = (Inr False, s')"
  with assms have "contents s' = contents s"
    unfolding redis_laws_def redis_store_def redis_reserve_request_def by fastforce
  then show "redis_lookup contents s' = redis_lookup contents s"
    by (simp add: redis_lookup_def fun_eq_iff)
next
  fix key jid s u s'
  assume "idem_complete (redis_store api rs) key jid s = (Inr u, s')"
  then obtain b where "rd_set api (request_key key)
       (json_dumps (PDict [(''status'', PStr ''COMPLETED''), (''job_id'', PStr jid)]))
       False (rs_ttl_seconds rs) s = (Inr b, s')"
    by (auto simp: redis_store_def redis_complete_request_def split: sum.splits prod.splits)
  with assms have "contents s' = (contents s)(request_key key \<mapsto>
       json_dumps (PDict [(''status'', PStr ''COMPLETED''), (''job_id'', PStr jid)]))"
    by (cases b) (auto dest: redis_set_stores redis_set_refused)
  then show "redis_lookup contents s' key = Some (idem_entry key jid ''COMPLETED'')"
    by (simp add: redis_lookup_def)
qed

subsection \<open>What a request writes\<close>

definition request_item :: "job_service \<Rightarrow> tx_env \<Rightarrow> pyval \<Rightarrow> db \<Rightarrow> OutboxItem" where
  "request_item svc env payload d =
     \<lparr>oi_id = outbox_seq d + 1, oi_message_id = tx_uuid env 4, oi_topic = js_topic svc,
      oi_payload = request_event env payload, oi_headers = None, oi_attempts = 0\<rparr>"

lemma create_block_Commit:
  assumes "create_block svc env payload d = Inr (Commit u d')"
  obtains row ev where
    "jobs d (tx_uuid env 1) = None" "jobs d' = (jobs d)(tx_uuid env 1 \<mapsto> row)"
    "row_ok (tx_uuid env 1) row" "jm_status row = status_value PENDING"
    "jm_request_payload row = payload" "jm_lease_epoch row = 0"
    "job_events d' = job_events d @ [ev]" "je_job_id ev = tx_uuid env 1"
    "je_event_type ev = event_value REQUESTED" "je_event_id ev = tx_uuid env 3"
    "pending_items d' = pending_items d @ [request_item svc env payload d]"
proof -
  from assms obtain d1 d2 m where
    j: "job_add (tx_dbnow env) (new_job env payload) d = Inr d1"
    and e: "event_add (tx_dbnow env) (request_event env payload) d1 = Inr d2"
    and o: "outbox_add (tx_dbnow env) (tx_uuid env 4) (js_topic svc)
              (request_event env payload) None d2 = Inr (m, d')"
    by (auto simp: create_block_def)
  from j obtain row where row: "jobs d (tx_uuid env 1) = None"
    "d1 = d\<lparr>jobs := (jobs d)(tx_uuid env 1 \<mapsto> row)\<rparr>" "row_ok (tx_uuid env 1) row"
    "jm_status row = status_value PENDING" "jm_request_payload row = payload"
    "jm_lease_epoch row = 0"
    by (auto simp: job_add_def new_job_def varchar_Inr row_ok_def split: if_splits)
  note o' = outbox_add_pending [OF o]
  from e show thesis
    unfolding request_event_def
  proof (rule event_add_build)
    fix k tid
    assume k: "PStr (tx_uuid env 1) = PStr k"
      and d2: "d2 = d1\<lparr>event_seq := event_seq d1 + 1, job_events := job_events d1 @
        [\<lparr>je_id = event_seq d1 + 1, je_event_id = tx_uuid env 3, je_job_id = k,
          je_event_type = event_value REQUESTED, je_source = ''api'', je_trace_id = tid,
          je_payload = PDict [(''request'', payload)], je_created_at = tx_dbnow env\<rparr>]\<rparr>"
    with row o' show thesis
      by (intro that) (auto simp: request_item_def pending_items_def)
  qed
qed

text \<open>
  C15: Creating a job is atomic. However a request ends, the database is what the other clients
  left, or it has in addition a new PENDING row, exactly one REQUESTED event and exactly one
  pending message for the request topic, all for the same job; the message carries the request.
\<close>

theorem create_job_atomic:
  "let d = ce_db env (wdb w);
       d' = wdb (fst (snd (create_job st svc env payload ikey w s)));
       jid = tx_uuid (ce_tx env) 1
   in d' = d \<or>
      (\<exists>row ev. jobs d jid = None \<and> jobs d' = (jobs d)(jid \<mapsto> row)
         \<and> jm_status row = status_value PENDING \<and> jm_request_payload row = payload
         \<and> job_events d' = job_events d @ [ev] \<and> je_job_id ev = jid
         \<and> je_event_type ev = event_value REQUESTED
         \<and> pending_items d' = pending_items d @ [request_item svc (ce_tx env) payload d])"
proof -
  let ?d = "ce_db env (wdb w)"
  have wr: "wdb (fst (snd (write_job st svc env payload key (world_env (ce_db env) w) s2))) = ?d
     \<or> (\<exists>u. create_block svc (ce_tx env) payload ?d
           = Inr (Commit u (wdb (fst (snd (write_job st svc env payload key
                (world_env (ce_db env) w) s2))))))" for key s2
    by (auto simp: write_job_def split: prod.splits sum.splits elim: run_session_cases)
  have "wdb (fst (snd (create_job st svc env payload ikey w s))) = ?d
     \<or> (\<exists>u. create_block svc (ce_tx env) payload ?d
           = Inr (Commit u (wdb (fst (snd (create_job st svc env payload ikey w s))))))"
    using wr
    by (auto simp: create_job_def Let_def return_existing_def
             split: sum.splits option.splits prod.splits bool.splits)
  then show ?thesis
    unfolding Let_def by (elim disjE exE create_block_Commit) blast+
qed

subsection \<open>Repeated requests\<close>

lemma job_get_Some:
  assumes "job_get v d = Inr (Some j)" and "jobs_ok d"
  shows "v = PStr (job_id j)" and "jobs d (job_id j) \<noteq> None"
proof -
  from assms(1) obtain k r where k: "v = PStr k" "jobs d k = Some r" "job_of_row r = Inr j"
    by (auto simp: job_get_def key_arg_Some split: option.splits)
       (metis bind_eq_Some_conv key_arg_Some)
  with assms(2) have "job_id j = k"
    by (auto simp: jobs_ok_def row_ok_def job_of_row_def)
  with k show "v = PStr (job_id j)" "jobs d (job_id j) \<noteq> None" by auto
qed

lemma job_get_row:
  assumes "jobs d k \<noteq> None" and "jobs_ok d"
  obtains j where "job_get (PStr k) d = Inr (Some j)" "job_id j = k"
proof -
  from assms obtain r where r: "jobs d k = Some r" "row_ok k r" by (auto simp: jobs_ok_def)
  then obtain st where "jm_status r = status_value st" "jm_id r = k"
    by (auto simp: row_ok_def)
  with r show thesis by (intro that) (simp add: job_get_PStr job_of_row_ok [of r st])+
qed

lemma jobs_persist:
  assumes "(client_step P)\<^sup>*\<^sup>* d d'" and "jobs d k \<noteq> None"
  shows "jobs d' k \<noteq> None"
  using fencing.epoch_steps [OF assms(1)] assms(2) by (fastforce simp: job_epoch_def)

lemma create_block_ok:
  assumes "create_block svc env payload d = Inr (Commit u d')" and "jobs_ok d"
  shows "jobs_ok d'" "jobs d' (tx_uuid env 1) \<noteq> None"
proof -
  show "jobs_ok d'"
    using assms(1) by (rule create_block_Commit) (use assms(2) in \<open>auto simp: jobs_ok_def\<close>)
  show "jobs d' (tx_uuid env 1) \<noteq> None"
    using assms(1) by (rule create_block_Commit) auto
qed

definition answered :: "IdempotencyRecord option \<Rightarrow> Job \<Rightarrow> db \<Rightarrow> bool" where
  "answered r j d \<longleftrightarrow>
     (\<exists>e. r = Some e \<and> idr_job_id e = PStr (job_id j) \<and> job_id j \<noteq> [])
     \<and> jobs d (job_id j) \<noteq> None \<and> jobs_ok d"

lemma return_existing_answered:
  assumes "return_existing env key r w = (Inr j, w')" and "py_truth (idr_job_id r)"
    and "jobs_ok (wdb w)"
  shows "answered (Some r) j (wdb w')"
proof -
  from assms(1) have "job_get (idr_job_id r) (wdb w) = Inr (Some j)" "wdb w' = wdb w"
    by (auto simp: return_existing_def get_job_def split: option.splits)
  with job_get_Some [OF this(1) assms(3)] assms(2,3) show ?thesis
    by (auto simp: answered_def)
qed

context idempotency_port
begin

lemma write_job_answered:
  assumes "write_job st svc env payload key w s = (Inr j, w', s')"
    and "jobs_ok (wdb w)" and "tx_uuid (ce_tx env) 1 \<noteq> []"
  shows "answered (lookup s' key) j (wdb w')"
proof -
  from assms(1) obtain u d' where
    run: "run_session (tx_fault (ce_tx env)) (create_block svc (ce_tx env) payload) (wdb w)
            = (Inr u, d')"
    and c: "idem_complete st key (tx_uuid (ce_tx env) 1) (ce_store env 3 s) = (Inr (), s')"
    and j: "j = new_job (ce_tx env) payload" "wdb w' = d'"
    by (auto simp: write_job_def split: prod.splits sum.splits)
  from run have "create_block svc (ce_tx env) payload (wdb w) = Inr (Commit u d')"
    by (rule run_session_Inr) (auto simp: create_block_def)
  from create_block_ok [OF this assms(2)] complete_lookup [OF c] j assms(3) show ?thesis
    by (simp add: answered_def idem_entry_def new_job_def)
qed

text \<open>A request that was answered leaves a record of the job it was answered with.\<close>

lemma create_job_answered:
  assumes run: "create_job st svc env payload ikey w s = (Inr j, w', s')"
    and ok: "jobs_ok (ce_db env (wdb w))" and "tx_uuid (ce_tx env) 1 \<noteq> []"
  shows "answered (lookup s' (effective_key (ce_tx env) ikey)) j (wdb w')"
proof -
  let ?key = "effective_key (ce_tx env) ikey" and ?w = "world_env (ce_db env) w"
  have known: "answered (lookup s1 ?key) j (wdb w')"
    if "idem_get st ?key s1 = Inr x" "known_job x = Some r"
       "return_existing env ?key r ?w = (Inr j, w')" for s1 x r
  proof -
    from that(2) have "x = Some r" "py_truth (idr_job_id r)"
      by (auto simp: known_job_def split: option.splits if_splits)
    with get_lookup [OF that(1)] that(3) ok show ?thesis
      by (metis return_existing_answered world_env_wdb)
  qed
  show ?thesis
    using run known write_job_answered [of svc env payload ?key ?w _ j w' s'] ok assms(3)
    by (auto simp: create_job_def Let_def
             split: sum.splits option.splits prod.splits bool.splits)
qed

lemma create_job_repeat:
  assumes "answered (lookup s key) j (wdb w)"
    and "lookup (ce_store env 0 s) key = lookup s key"
    and "idem_get st key (ce_store env 0 s) = Inr x"
    and "repo_step\<^sup>*\<^sup>* (wdb w) (ce_db env (wdb w))" and "ce_read_fault env = None" and "key \<noteq> []"
  shows "\<exists>j' w' s'. create_job st svc env payload (Some key) w s = (Inr j', w', s')
    \<and> job_id j' = job_id j \<and> wdb w' = ce_db env (wdb w)"
proof -
  from assms(1) obtain e where e: "lookup s key = Some e" "idr_job_id e = PStr (job_id j)"
      "job_id j \<noteq> []"
    and row: "jobs (wdb w) (job_id j) \<noteq> None" "jobs_ok (wdb w)"
    by (auto simp: answered_def)
  from jobs_persist [OF assms(4) row(1)] jobs_inv.inv_steps [OF assms(4) row(2)]
  obtain j' where "job_get (PStr (job_id j)) (ce_db env (wdb w)) = Inr (Some j')"
      "job_id j' = job_id j"
    by (rule job_get_row)
  with create_job_known [of env "Some key" key s x e svc payload w] assms(2,3,5,6) e show ?thesis
    by (simp add: effective_key_def return_existing_def get_job_def)
qed

end

text \<open>
  C16: Requests are idempotent. If a request with an idempotency key was answered with a job, then
  a later request with the same key, while Redis still holds the key's record and whatever other
  clients did to the database in between, is answered with the same job and writes nothing.
\<close>

theorem create_job_idempotent:
  assumes "redis_laws api contents" and "key \<noteq> []"
    and "create_job (redis_store api rs) svc env payload (Some key) w s = (Inr j, w1, s1)"
    and "jobs_ok (ce_db env (wdb w))" and "tx_uuid (ce_tx env) 1 \<noteq> []"
    and "contents (ce_store env2 0 s1) (request_key key) = contents s1 (request_key key)"
    and "rd_get api (request_key key) (ce_store env2 0 s1) = Inr raw"
    and "repo_step\<^sup>*\<^sup>* (wdb w1) (ce_db env2 (wdb w1))" and "ce_read_fault env2 = None"
  shows "\<exists>j2 w2 s2. create_job (redis_store api rs) svc env2 payload2 (Some key) w1 s1
      = (Inr j2, w2, s2) \<and> job_id j2 = job_id j \<and> wdb w2 = ce_db env2 (wdb w1)"
proof -
  note port = redis_store_port [OF assms(1), of rs]
  have ans: "answered (redis_lookup contents s1 key) j (wdb w1)"
    using idempotency_port.create_job_answered [OF port assms(3-5)] assms(2)
    by (simp add: effective_key_def)
  have same: "redis_lookup contents (ce_store env2 0 s1) key = redis_lookup contents s1 key"
    using assms(6) by (simp add: redis_lookup_def)
  from ans obtain e where "redis_lookup contents s1 key = Some e" by (auto simp: answered_def)
  with same have "redis_lookup contents (ce_store env2 0 s1) key = Some e" by simp
  moreover have "raw = contents (ce_store env2 0 s1) (request_key key)"
    using assms(1,7) by (simp add: redis_laws_def)
  ultimately have "\<exists>x. idem_get (redis_store api rs) key (ce_store env2 0 s1) = Inr x"
    using assms(7)
    by (auto simp: redis_lookup_def redis_store_def redis_get_request_record_def
             split: option.splits sum.splits)
  then show ?thesis
    using idempotency_port.create_job_repeat [OF port ans same _ assms(8,9,2)] by blast
qed

text \<open>A Redis that never fails and never expires a key, and a first request to it.\<close>

definition map_redis :: "(string \<rightharpoonup> json_text) redis_api" where
  "map_redis =
     \<lparr>rd_get = (\<lambda>k m. Inr (m k)),
      rd_set = (\<lambda>k v nx ex m. if nx \<and> m k \<noteq> None then (Inr False, m) else (Inr True, m(k \<mapsto> v)))\<rparr>"

definition sample_rs :: RedisIdempotencyStore where
  "sample_rs = \<lparr>rs_ttl_seconds = 3600, rs_processing_ttl_seconds = 1800\<rparr>"

definition sample_create :: "(string \<rightharpoonup> json_text) create_env" where
  "sample_create = \<lparr>ce_tx = sample_tx (CHR ''r''), ce_db = (\<lambda>d. d), ce_store = (\<lambda>_ s. s),
                    ce_read_fault = None\<rparr>"

definition sample_js :: job_service where
  "sample_js = \<lparr>js_topic = ''request-topic''\<rparr>"

lemma map_redis_laws: "redis_laws map_redis (\<lambda>m. m)"
  by (auto simp: redis_laws_def map_redis_def split: if_splits)

lemma sample_create_fields [simp]:
  "ce_tx sample_create = sample_tx (CHR ''r'')" "ce_db sample_create d = d"
  "ce_store sample_create n s = s" "ce_read_fault sample_create = None"
  by (simp_all add: sample_create_def)

lemma sample_block:
  "\<exists>d'. create_block sample_js (sample_tx (CHR ''r'')) payload empty_db = Inr (Commit () d')"
  by (simp add: create_block_def job_add_def new_job_def varchar_def str_len_le request_event_def
        event_add_new uuid_fresh_def empty_db_def outbox_add_def sample_js_def)

lemma sample_first:
  "\<exists>j w1 s1. create_job (redis_store map_redis sample_rs) sample_js sample_create payload
       (Some ''k1'') (sample_world empty_db) Map.empty = (Inr j, w1, s1)"
  using sample_block [of payload]
  by (auto simp: create_job_def redis_store_def redis_get_request_record_def map_redis_def
        effective_key_def known_job_def redis_reserve_request_def write_job_def
        redis_complete_request_def Let_def)

theorem create_job_idempotent_witness:
  "\<exists>j w1 s1 j2 w2 s2.
     create_job (redis_store map_redis sample_rs) sample_js sample_create (PDict [])
       (Some ''k1'') (sample_world empty_db) Map.empty = (Inr j, w1, s1)
     \<and> create_job (redis_store map_redis sample_rs) sample_js sample_create (PDict [])
       (Some ''k1'') w1 s1 = (Inr j2, w2, s2) \<and> job_id j2 = job_id j \<and> wdb w2 = wdb w1"
proof -
  obtain j w1 s1 where f: "create_job (redis_store map_redis sample_rs) sample_js sample_create
      (PDict []) (Some ''k1'') (sample_world empty_db) Map.empty = (Inr j, w1, s1)"
    using sample_first by blast
  have "jobs_ok empty_db" by (simp add: jobs_ok_def empty_db_def)
  with create_job_idempotent [OF map_redis_laws _ f, of sample_create "s1 (request_key ''k1'')"
      "PDict []"] f
  show ?thesis by (auto simp: map_redis_def)
qed

text \<open>
  A job is written only under a free key. If a request changed the database, then at its
  reservation Redis held no value under its key; so of two requests with the same key, the one
  that finds the other's record writes nothing.
\<close>

theorem create_job_needs_free_key:
  assumes "redis_laws api contents"
    and "create_job (redis_store api rs) svc env payload ikey w s = (res, w', s')"
    and "wdb w' \<noteq> ce_db env (wdb w)"
  shows "contents (ce_store env 1 (ce_store env 0 s))
           (request_key (effective_key (ce_tx env) ikey)) = None"
  using assms
  by (fastforce simp: create_job_def Let_def return_existing_def redis_store_def
        redis_reserve_request_def redis_laws_def
        split: sum.splits option.splits prod.splits bool.splits)

theorem create_job_needs_free_key_witness:
  "(Map.empty :: string \<rightharpoonup> json_text) (request_key ''k1'') = None
   \<and> (\<exists>j w1 s1. create_job (redis_store map_redis sample_rs) sample_js sample_create (PDict [])
       (Some ''k1'') (sample_world empty_db) Map.empty = (Inr j, w1, s1) \<and> wdb w1 \<noteq> empty_db)"
proof -
  obtain j w1 s1 where f: "create_job (redis_store map_redis sample_rs) sample_js sample_create
      (PDict []) (Some ''k1'') (sample_world empty_db) Map.empty = (Inr j, w1, s1)"
    using sample_first by blast
  have "answered (redis_lookup (\<lambda>m. m) s1 (effective_key (ce_tx sample_create) (Some ''k1''))) j (wdb w1)"
    by (rule idempotency_port.create_job_answered [OF redis_store_port [OF map_redis_laws] f])
       (simp_all add: jobs_ok_def empty_db_def)
  then have "wdb w1 \<noteq> empty_db" by (auto simp: answered_def empty_db_def)
  with f create_job_needs_free_key [OF map_redis_laws f] show ?thesis
    by (simp add: effective_key_def)
qed

text \<open>
  C36: A reservation outlives the request that failed to write. If the transaction of a first
  request fails to commit, the request raises, but its reservation stays: until Redis drops the
  key, every repetition of the request raises \<open>ValueError\<close> (the job that the record names does
  not exist) instead of creating the job.
\<close>

theorem create_job_failed_commit_blocks_key:
  assumes "redis_laws api contents" and "key \<noteq> []" and "tx_uuid (ce_tx env) 1 \<noteq> []"
    and "idem_get (redis_store api rs) key (ce_store env 0 s) = Inr None"
    and "idem_reserve (redis_store api rs) key (tx_uuid (ce_tx env) 1)
           (ce_store env 1 (ce_store env 0 s)) = (Inr True, s1)"
    and "tx_fault (ce_tx env) = TxCommitFail e"
    and "create_block svc (ce_tx env) payload (ce_db env (wdb w)) = Inr (Commit u d')"
    and "idem_get (redis_store api rs) key (ce_store env2 0 s1) = Inr x"
    and "contents (ce_store env2 0 s1) (request_key key) = contents s1 (request_key key)"
    and "ce_read_fault env2 = None"
    and "jobs (ce_db env2 (ce_db env (wdb w))) (tx_uuid (ce_tx env) 1) = None"
  shows "\<exists>w1 w2. create_job (redis_store api rs) svc env payload (Some key) w s = (Inl e, w1, s1)
    \<and> wdb w1 = ce_db env (wdb w)
    \<and> create_job (redis_store api rs) svc env2 payload (Some key) w1 s1
        = (Inl (job_not_found key), w2, ce_store env2 0 s1)"
proof -
  note port = redis_store_port [OF assms(1), of rs]
  let ?w = "world_env (ce_db env) w"
  have first: "create_job (redis_store api rs) svc env payload (Some key) w s = (Inl e, ?w, s1)"
    using assms(2,4-7)
    by (simp add: create_job_def effective_key_def known_job_def write_job_def run_session_def)
  have "redis_lookup contents (ce_store env2 0 s1) key
      = Some (idem_entry key (tx_uuid (ce_tx env) 1) ''PROCESSING'')"
    using idempotency_port.reserve_new [OF port assms(5)] assms(9)
    by (simp add: redis_lookup_def)
  from idempotency_port.create_job_known [OF port _ assms(8) this, of "Some key" svc payload ?w]
  have "\<exists>w2. create_job (redis_store api rs) svc env2 payload (Some key) ?w s1
      = (Inl (job_not_found key), w2, ce_store env2 0 s1)"
    using assms(2,3,10,11)
    by (simp add: effective_key_def idem_entry_def return_existing_def get_job_def job_get_PStr)
  with first show ?thesis by simp
qed

text \<open>A commit that fails, and the same request again.\<close>

theorem create_job_failed_commit_blocks_key_witness:
  "let lost = PyExc ''DBAPIError'' ''lost'';
       env = sample_create\<lparr>ce_tx := (sample_tx (CHR ''r''))\<lparr>tx_fault := TxCommitFail lost\<rparr>\<rparr>
   in \<exists>w1 s1 w2.
     create_job (redis_store map_redis sample_rs) sample_js env (PDict []) (Some ''k1'')
       (sample_world empty_db) Map.empty = (Inl lost, w1, s1) \<and> wdb w1 = empty_db
     \<and> create_job (redis_store map_redis sample_rs) sample_js sample_create (PDict []) (Some ''k1'')
         w1 s1 = (Inl (job_not_found ''k1''), w2, s1)"
proof -
  let ?e = "PyExc ''DBAPIError'' ''lost''"
  let ?env = "sample_create\<lparr>ce_tx := (sample_tx (CHR ''r''))\<lparr>tx_fault := TxCommitFail ?e\<rparr>\<rparr>"
  let ?st = "redis_store map_redis sample_rs"
  let ?m = "[request_key ''k1'' \<mapsto> json_dumps (PDict [(''status'', PStr ''PROCESSING''),
              (''job_id'', PStr (tx_uuid (sample_tx (CHR ''r'')) 1))])]"
  obtain d' where block: "create_block sample_js (ce_tx ?env) (PDict []) empty_db
      = Inr (Commit () d')"
    using sample_block [of "PDict []"]
    by (auto simp: create_block_def new_job_def request_event_def)
  have get: "idem_get ?st ''k1'' Map.empty = Inr None"
    by (simp add: redis_store_def redis_get_request_record_def map_redis_def)
  have reserve: "idem_reserve ?st ''k1'' (tx_uuid (ce_tx ?env) 1) Map.empty = (Inr True, ?m)"
    by (simp add: redis_store_def redis_reserve_request_def map_redis_def)
  have again: "idem_get ?st ''k1'' ?m
      = Inr (Some (idem_entry ''k1'' (tx_uuid (sample_tx (CHR ''r'')) 1) ''PROCESSING''))"
    by (simp add: redis_store_def redis_get_request_record_def map_redis_def
             del: sample_tx_fields)
  from create_job_failed_commit_blocks_key [of map_redis "\<lambda>m. m" "''k1''" ?env sample_rs Map.empty
      ?m ?e sample_js "PDict []" "sample_world empty_db" "()" d' sample_create, OF map_redis_laws]
    block get reserve again
  show ?thesis by (auto simp: empty_db_def)
qed

end
