(* ===== verification/Processing.thy ===== *)
theory Processing
  imports Config
begin

section \<open>Processors\<close>

text \<open>
  The task processors of \<open>app/adapters/processing\<close>: the two dummies and the GPU simulator with its
  micro-batching. Random draws are a parameter (the \<open>n\<close>-th answer of \<open>random.random()\<close>), sleeping
  is recorded and takes no time here. Spans are left out.
\<close>

subsection \<open>The dummies\<close>

definition content_of :: "pyval \<Rightarrow> pyval res" where
  "content_of payload =
     bind_res (py_get payload ''input'' (PDict [])) (\<lambda>i. py_get i ''content'' (PStr ''''))"

definition dummy_process :: processor where
  "dummy_process payload =
     bind_res (content_of payload) (\<lambda>content.
     bind_res (py_len content) (\<lambda>n.
       Inr (PDict [(''message'', PStr ''dummy processing completed''),
                   (''echo'', content),
                   (''length'', PInt n)])))"

definition downstream_dummy_process :: processor where
  "downstream_dummy_process payload =
     bind_res (py_get payload ''request'' (PDict [])) (\<lambda>request.
     bind_res (py_get payload ''inference_result'' (PDict [])) (\<lambda>inference_result.
     bind_res (content_of request) (\<lambda>content.
     bind_res (py_len content) (\<lambda>n.
     bind_res (py_get inference_result ''mode'' PNone) (\<lambda>mode.
       Inr (PDict [(''message'', PStr ''downstream dummy completed''),
                   (''persisted'', PBool True),
                   (''notified'', PBool True),
                   (''input_length'', PInt n),
                   (''inference_mode'', mode)]))))))"

text \<open>The latency of the downstream dummy in seconds.\<close>

definition downstream_latency :: "int \<Rightarrow> rat" where
  "downstream_latency base_latency_ms = of_int (max 1 base_latency_ms) / 1000"

subsection \<open>The GPU simulator: one request\<close>

record gpu_sim =
  sim_permits :: int
  sim_base_latency_ms :: int
  sim_utilization :: rat
  sim_failure_rate :: rat
  sim_batch_enabled :: bool
  sim_batch_size :: int
  sim_batch_timeout_seconds :: rat
  sim_batch_overhead_ms :: int

definition clamp01 :: "rat \<Rightarrow> rat" where
  "clamp01 x = min (max x 0) 1"

definition gpu_init :: "GpuConfig \<Rightarrow> gpu_sim" where
  "gpu_init c =
     \<lparr>sim_permits = max 1 (gpu_max_concurrency c),
      sim_base_latency_ms = max 1 (gpu_base_latency_ms c),
      sim_utilization = clamp01 (gpu_utilization c),
      sim_failure_rate = clamp01 (gpu_failure_rate c),
      sim_batch_enabled = gpu_batch_enabled c,
      sim_batch_size = max 1 (gpu_batch_size c),
      sim_batch_timeout_seconds = of_int (max 1 (gpu_batch_timeout_ms c)) / 1000,
      sim_batch_overhead_ms = max 0 (gpu_batch_overhead_ms c)\<rparr>"

definition resolve_latency_ms :: "gpu_sim \<Rightarrow> pyval \<Rightarrow> int res" where
  "resolve_latency_ms sim payload =
     bind_res (py_get payload ''options'' (PDict [])) (\<lambda>options.
     bind_res (py_get options ''simulate_inference_ms'' PNone) (\<lambda>override.
       Inr (case override of
              PInt n \<Rightarrow> n
            | PBool b \<Rightarrow> (if b then 1 else 0)
            | PFloat x \<Rightarrow> float_int x
            | _ \<Rightarrow> sim_base_latency_ms sim)))"

text \<open>\<open>float(n)\<close> and \<open>n / 1000\<close> raise where the quotient is beyond the largest double.\<close>

definition float_of_int :: "int \<Rightarrow> rat res" where
  "float_of_int n =
     (if float_limit \<le> \<bar>of_int n\<bar>
      then Inl (PyExc ''OverflowError'' ''int too large to convert to float'')
      else Inr (of_int n))"

definition milliseconds :: "int \<Rightarrow> rat res" where
  "milliseconds n =
     (if float_limit \<le> \<bar>of_int n / 1000\<bar>
      then Inl (PyExc ''OverflowError'' ''integer division result too large for a float'')
      else Inr (of_int n / 1000))"

definition failure_rate_of :: "gpu_sim \<Rightarrow> pyval \<Rightarrow> rat res" where
  "failure_rate_of sim payload =
     bind_res (py_get payload ''options'' (PDict [])) (\<lambda>options.
     bind_res (py_get options ''simulate_inference_failure_rate'' PNone) (\<lambda>override.
     bind_res (case override of
                 PInt n \<Rightarrow> float_of_int n
               | PBool b \<Rightarrow> Inr (if b then 1 else 0)
               | PFloat x \<Rightarrow> Inr x
               | _ \<Rightarrow> Inr (sim_failure_rate sim)) (\<lambda>rate.
       Inr (clamp01 rate))))"

definition build_result :: "gpu_sim \<Rightarrow> pyval \<Rightarrow> int \<Rightarrow> int \<Rightarrow> pyval res" where
  "build_result sim payload latency_ms batch_size =
     bind_res (content_of payload) (\<lambda>content.
     bind_res (py_len content) (\<lambda>n.
       Inr (PDict [(''message'', PStr ''gpu inference simulator completed''),
                   (''mode'', PStr ''simulated-gpu''),
                   (''echo'', content),
                   (''length'', PInt n),
                   (''simulated_latency_ms'', PInt latency_ms),
                   (''simulated_gpu_utilization'', PFloat (sim_utilization sim)),
                   (''simulated_batch_size'', PInt batch_size)])))"

text \<open>What a run leaves behind: metrics, the sleeps, the number of random draws.\<close>

record gpu_world =
  gw_metrics :: metrics
  gw_sleeps :: "rat list"
  gw_draws :: nat

definition gpu_idle :: gpu_world where
  "gpu_idle = \<lparr>gw_metrics = (\<lambda>_. 0), gw_sleeps = [], gw_draws = 0\<rparr>"

definition gw_count :: "metric \<Rightarrow> rat \<Rightarrow> gpu_world \<Rightarrow> gpu_world" where
  "gw_count k n g = g\<lparr>gw_metrics := metric_add k n (gw_metrics g)\<rparr>"

definition gw_gauge :: "metric \<Rightarrow> rat \<Rightarrow> gpu_world \<Rightarrow> gpu_world" where
  "gw_gauge k n g = g\<lparr>gw_metrics := metric_set k n (gw_metrics g)\<rparr>"

definition gw_sleep :: "rat \<Rightarrow> gpu_world \<Rightarrow> gpu_world" where
  "gw_sleep s g = g\<lparr>gw_sleeps := gw_sleeps g @ [s]\<rparr>"

definition should_fail :: "gpu_sim \<Rightarrow> (nat \<Rightarrow> rat) \<Rightarrow> pyval \<Rightarrow> gpu_world \<Rightarrow> bool res \<times> gpu_world" where
  "should_fail sim rnd payload g =
     (case failure_rate_of sim payload of
        Inl e \<Rightarrow> (Inl e, g)
      | Inr rate \<Rightarrow> (Inr (rnd (gw_draws g) < rate), g\<lparr>gw_draws := Suc (gw_draws g)\<rparr>))"

definition simulated_failure :: py_exc where
  "simulated_failure = PyExc ''RuntimeError'' ''simulated inference failure''"

definition single_body :: "gpu_sim \<Rightarrow> (nat \<Rightarrow> rat) \<Rightarrow> pyval \<Rightarrow> gpu_world \<Rightarrow> pyval res \<times> gpu_world" where
  "single_body sim rnd payload g =
     (case resolve_latency_ms sim payload of
        Inl e \<Rightarrow> (Inl e, g)
      | Inr latency_ms \<Rightarrow>
          (case milliseconds (max 1 latency_ms) of
             Inl e \<Rightarrow> (Inl e, g)
           | Inr s \<Rightarrow>
               (case should_fail sim rnd payload (gw_sleep s g) of
                  (Inl e, g1) \<Rightarrow> (Inl e, g1)
                | (Inr True, g1) \<Rightarrow>
                    (Inl simulated_failure, gw_count INFERENCE_SIMULATED_FAILURE_TOTAL 1 g1)
                | (Inr False, g1) \<Rightarrow> (build_result sim payload latency_ms 1, g1))))"

definition run_single :: "gpu_sim \<Rightarrow> (nat \<Rightarrow> rat) \<Rightarrow> pyval \<Rightarrow> gpu_world \<Rightarrow> pyval res \<times> gpu_world" where
  "run_single sim rnd payload g =
     (let g1 = gw_gauge INFERENCE_SIMULATED_GPU_UTILIZATION (sim_utilization sim)
                 (gw_count INFERENCE_ACTIVE_JOBS 1 (gw_count INFERENCE_SEMAPHORE_WAIT_SECONDS 1 g));
          (r, g2) = single_body sim rnd payload g1
      in (r, gw_count INFERENCE_ACTIVE_JOBS (- 1) (gw_count INFERENCE_PROCESSING_SECONDS 1 g2)))"

subsection \<open>A batch\<close>

text \<open>
  What becomes of the futures of a batch: \<open>Some\<close> result or exception, or \<open>None\<close> if nothing is ever
  set. The first component is the exception that leaves the function, if one does.
\<close>

type_synonym outcomes = "pyval res option list"

fun finalize_items ::
  "gpu_sim \<Rightarrow> (nat \<Rightarrow> rat) \<Rightarrow> int \<Rightarrow> (pyval \<times> int) list \<Rightarrow> gpu_world
     \<Rightarrow> unit res \<times> outcomes \<times> gpu_world" where
  "finalize_items sim rnd bsz [] g = (Inr (), [], g)"
| "finalize_items sim rnd bsz ((payload, latency_ms) # rest) g =
     (case should_fail sim rnd payload g of
        (Inl e, g1) \<Rightarrow> (Inl e, replicate (Suc (length rest)) None, g1)
      | (Inr True, g1) \<Rightarrow>
          (let (r, os, g2) = finalize_items sim rnd bsz rest
                               (gw_count INFERENCE_SIMULATED_FAILURE_TOTAL 1 g1)
           in (r, Some (Inl simulated_failure) # os, g2))
      | (Inr False, g1) \<Rightarrow>
          (case build_result sim payload latency_ms bsz of
             Inl e \<Rightarrow> (Inl e, replicate (Suc (length rest)) None, g1)
           | Inr v \<Rightarrow>
               (let (r, os, g2) = finalize_items sim rnd bsz rest g1
                in (r, Some (Inr v) # os, g2))))"

fun resolve_all :: "gpu_sim \<Rightarrow> pyval list \<Rightarrow> int list res" where
  "resolve_all sim [] = Inr []"
| "resolve_all sim (p # ps) =
     bind_res (resolve_latency_ms sim p) (\<lambda>l. bind_res (resolve_all sim ps) (\<lambda>ls. Inr (l # ls)))"

definition py_max :: "int list \<Rightarrow> int res" where
  "py_max xs =
     (if xs = [] then Inl (PyExc ''ValueError'' ''max() iterable argument is empty'')
      else Inr (Max (set xs)))"

definition batch_body ::
  "gpu_sim \<Rightarrow> (nat \<Rightarrow> rat) \<Rightarrow> pyval list \<Rightarrow> gpu_world \<Rightarrow> unit res \<times> outcomes \<times> gpu_world" where
  "batch_body sim rnd items g =
     (case bind_res (resolve_all sim items) (\<lambda>latencies.
           bind_res (py_max latencies) (\<lambda>longest.
           bind_res (milliseconds (longest + sim_batch_overhead_ms sim)) (\<lambda>s.
             Inr (latencies, s)))) of
        Inl e \<Rightarrow> (Inl e, replicate (length items) None, g)
      | Inr (latencies, s) \<Rightarrow>
          finalize_items sim rnd (int (length items)) (zip items latencies) (gw_sleep s g))"

definition run_batch ::
  "gpu_sim \<Rightarrow> (nat \<Rightarrow> rat) \<Rightarrow> pyval list \<Rightarrow> gpu_world \<Rightarrow> unit res \<times> outcomes \<times> gpu_world" where
  "run_batch sim rnd items g =
     (case items of
        [payload] \<Rightarrow> (let (r, g1) = run_single sim rnd payload g in (Inr (), [Some r], g1))
      | _ \<Rightarrow>
          (let n = of_nat (length items);
               g1 = gw_count INFERENCE_SEMAPHORE_WAIT_SECONDS n
                      (gw_gauge INFERENCE_SIMULATED_GPU_UTILIZATION (sim_utilization sim)
                         (gw_count INFERENCE_ACTIVE_JOBS n g));
               (r, os, g2) = batch_body sim rnd items g1
           in (r, os, gw_count INFERENCE_ACTIVE_JOBS (- n)
                        (gw_count INFERENCE_PROCESSING_SECONDS n g2))))"

text \<open>The processor behind each kind; the simulator without batching, on a given draw.\<close>

definition gpu_single_process :: "GpuConfig \<Rightarrow> rat \<Rightarrow> processor" where
  "gpu_single_process c draw payload =
     fst (run_single (gpu_init c) (\<lambda>_. draw) payload
            gpu_idle)"

fun run_processor :: "rat \<Rightarrow> processor_kind \<Rightarrow> processor" where
  "run_processor draw DummyTaskProcessor = dummy_process"
| "run_processor draw (GpuInferenceSimulator c) = gpu_single_process c draw"
| "run_processor draw (DownstreamDummyProcessor _) = downstream_dummy_process"

subsection \<open>A batch answers like single requests\<close>

text \<open>
  A payload the simulator can serve: its options are a dict with numbers that fit a double, its
  content has a length.
\<close>

definition servable :: "gpu_sim \<Rightarrow> pyval \<Rightarrow> bool" where
  "servable sim p \<longleftrightarrow>
     (case resolve_latency_ms sim p of
        Inl _ \<Rightarrow> False
      | Inr l \<Rightarrow> \<bar>of_int l\<bar> + of_int (sim_batch_overhead_ms sim) + 1 < 1000 * float_limit) \<and>
     (case failure_rate_of sim p of Inl _ \<Rightarrow> False | Inr _ \<Rightarrow> True) \<and>
     (case bind_res (content_of p) py_len of Inl _ \<Rightarrow> False | Inr _ \<Rightarrow> True)"

text \<open>The answer of a single run, with the size of the batch in place of 1.\<close>

fun rebatch :: "int \<Rightarrow> pyval res \<Rightarrow> pyval res" where
  "rebatch n (Inr (PDict d)) = Inr (PDict (dict_set ''simulated_batch_size'' (PInt n) d))"
| "rebatch n r = r"

definition single_answer :: "gpu_sim \<Rightarrow> rat \<Rightarrow> pyval \<Rightarrow> pyval res" where
  "single_answer sim draw p =
     fst (run_single sim (\<lambda>_. draw) p gpu_idle)"

lemma gw_simps [simp]:
  "gw_draws (gw_count k n g) = gw_draws g"
  "gw_draws (gw_gauge k n g) = gw_draws g"
  "gw_draws (gw_sleep s g) = gw_draws g"
  by (simp_all add: gw_count_def gw_gauge_def gw_sleep_def)

lemma servableE:
  assumes "servable sim p"
  obtains l rate content n where
    "resolve_latency_ms sim p = Inr l"
    "\<bar>of_int l\<bar> + of_int (sim_batch_overhead_ms sim) + 1 < 1000 * float_limit"
    "failure_rate_of sim p = Inr rate" "content_of p = Inr content" "py_len content = Inr n"
  using assms by (auto simp: servable_def split: sum.splits)

lemma build_result_rebatch:
  "build_result sim p l n = rebatch n (build_result sim p l 1)"
  by (cases "bind_res (content_of p) py_len") (auto simp: build_result_def)

lemma milliseconds_ok:
  "\<bar>of_int n\<bar> < 1000 * float_limit \<Longrightarrow> milliseconds n = Inr (of_int n / 1000)"
  by (simp add: milliseconds_def)

lemma single_latency_ok:
  assumes "0 \<le> sim_batch_overhead_ms sim"
    and "\<bar>of_int l\<bar> + of_int (sim_batch_overhead_ms sim) + 1 < 1000 * float_limit"
  shows "milliseconds (max 1 l) = Inr (of_int (max 1 l) / 1000)"
  using assms by (intro milliseconds_ok) (auto simp: max_def)

lemma single_answer_servable:
  assumes "servable sim p" "0 \<le> sim_batch_overhead_ms sim"
    and "resolve_latency_ms sim p = Inr l" "failure_rate_of sim p = Inr rate"
  shows "single_answer sim draw p =
           (if draw < rate then Inl simulated_failure else build_result sim p l 1)"
  using assms(1)
proof (rule servableE)
  fix l' rate' content n
  assume "resolve_latency_ms sim p = Inr l'"
    and "\<bar>of_int l'\<bar> + of_int (sim_batch_overhead_ms sim) + 1 < 1000 * float_limit"
  with assms have "milliseconds (max 1 l) = Inr (of_int (max 1 l) / 1000)"
    by (intro single_latency_ok) auto
  with assms show ?thesis
    by (simp add: single_answer_def run_single_def single_body_def should_fail_def Let_def
          split: bool.splits prod.splits)
qed

lemma finalize_items_servable:
  assumes "\<forall>(p, l) \<in> set items. servable sim p \<and> resolve_latency_ms sim p = Inr l"
    and "0 \<le> sim_batch_overhead_ms sim"
  shows "\<exists>g'. finalize_items sim rnd bsz items g =
           (Inr (), map (\<lambda>i. Some (rebatch bsz (single_answer sim (rnd (gw_draws g + i)) (fst (items ! i)))))
              [0..<length items], g') \<and> gw_draws g' = gw_draws g + length items"
  using assms(1)
proof (induction items arbitrary: g)
  case Nil
  then show ?case by simp
next
  case (Cons a items)
  obtain p l where a: "a = (p, l)" by (cases a)
  with Cons.prems have p: "servable sim p" "resolve_latency_ms sim p = Inr l" by auto
  from p(1) obtain rate content n where
    rate: "failure_rate_of sim p = Inr rate" and content: "content_of p = Inr content" "py_len content = Inr n"
    by (rule servableE)
  let ?g = "g\<lparr>gw_draws := Suc (gw_draws g)\<rparr>"
  let ?g' = "if rnd (gw_draws g) < rate then gw_count INFERENCE_SIMULATED_FAILURE_TOTAL 1 ?g else ?g"
  have d: "gw_draws ?g' = Suc (gw_draws g)" by simp
  from Cons.IH [of ?g'] Cons.prems obtain g' where IH:
    "finalize_items sim rnd bsz items ?g' =
       (Inr (), map (\<lambda>i. Some (rebatch bsz (single_answer sim (rnd (Suc (gw_draws g) + i)) (fst (items ! i)))))
          [0..<length items], g')" "gw_draws g' = Suc (gw_draws g) + length items"
    unfolding d by auto
  have ans: "single_answer sim (rnd (gw_draws g)) p =
      (if rnd (gw_draws g) < rate then Inl simulated_failure else build_result sim p l 1)"
    by (rule single_answer_servable [OF p(1) assms(2) p(2) rate])
  obtain v where v: "build_result sim p l bsz = Inr v"
    using content by (simp add: build_result_def)
  have upt: "[0..<Suc (length items)] = 0 # map Suc [0..<length items]"
    by (simp add: upt_conv_Cons map_Suc_upt del: upt_Suc)
  show ?case
    using IH ans v rate build_result_rebatch [of sim p l bsz] unfolding a
    by (auto simp: should_fail_def upt simp del: upt_Suc split: if_splits)
qed

lemma resolve_all_servable:
  assumes "\<forall>p \<in> set items. servable sim p"
  shows "\<exists>ls. resolve_all sim items = Inr ls \<and> length ls = length items \<and>
           (\<forall>(p, l) \<in> set (zip items ls). servable sim p \<and> resolve_latency_ms sim p = Inr l)"
  using assms
proof (induction items)
  case Nil
  then show ?case by simp
next
  case (Cons p items)
  then obtain ls where "resolve_all sim items = Inr ls" "length ls = length items"
    "\<forall>(p, l) \<in> set (zip items ls). servable sim p \<and> resolve_latency_ms sim p = Inr l"
    by auto
  moreover from Cons.prems obtain l where "resolve_latency_ms sim p = Inr l"
    by (auto elim: servableE)
  ultimately show ?case using Cons.prems by auto
qed

lemma batch_latency_ok:
  assumes "\<forall>(p, l) \<in> set (zip items ls). servable sim p \<and> resolve_latency_ms sim p = Inr l"
    and "length ls = length items" "items \<noteq> []" "0 \<le> sim_batch_overhead_ms sim"
  shows "\<exists>m s. py_max ls = Inr m \<and> milliseconds (m + sim_batch_overhead_ms sim) = Inr s"
proof -
  from assms(2,3) have ls: "ls \<noteq> []" by auto
  then have "Max (set ls) \<in> set ls" by simp
  then obtain i where i: "i < length ls" "ls ! i = Max (set ls)" by (auto simp: in_set_conv_nth)
  with assms(2) have "(items ! i, Max (set ls)) \<in> set (zip items ls)"
    by (force simp: set_zip)
  with assms(1) have "servable sim (items ! i)" "resolve_latency_ms sim (items ! i) = Inr (Max (set ls))"
    by auto
  then have "\<bar>of_int (Max (set ls))\<bar> + of_int (sim_batch_overhead_ms sim) + 1 < 1000 * float_limit"
    by (auto elim!: servableE)
  with assms(4) have "milliseconds (Max (set ls) + sim_batch_overhead_ms sim) =
      Inr (of_int (Max (set ls) + sim_batch_overhead_ms sim) / 1000)"
    by (intro milliseconds_ok) auto
  with ls show ?thesis unfolding py_max_def by (metis (full_types))
qed

lemma batch_body_servable:
  assumes "\<forall>p \<in> set items. servable sim p" "items \<noteq> []" "0 \<le> sim_batch_overhead_ms sim"
  shows "\<exists>g'. batch_body sim rnd items g =
    (Inr (), map (\<lambda>i. Some (rebatch (int (length items)) (single_answer sim (rnd (gw_draws g + i)) (items ! i))))
       [0..<length items], g') \<and> gw_draws g' = gw_draws g + length items"
proof -
  obtain ls where ls: "resolve_all sim items = Inr ls" "length ls = length items"
    "\<forall>(p, l) \<in> set (zip items ls). servable sim p \<and> resolve_latency_ms sim p = Inr l"
    using resolve_all_servable [OF assms(1)] by blast
  obtain m s where "py_max ls = Inr m" "milliseconds (m + sim_batch_overhead_ms sim) = Inr s"
    using batch_latency_ok [OF ls(3,2) assms(2,3)] by blast
  with ls finalize_items_servable [OF ls(3) assms(3), of rnd "int (length items)" "gw_sleep s g"]
  show ?thesis
    by (auto simp: batch_body_def cong: map_cong)
qed

lemma run_batch_many:
  assumes "2 \<le> length items"
  obtains g1 h where "gw_draws g1 = gw_draws g" "\<And>g2. gw_draws (h g2) = gw_draws g2"
    "run_batch sim rnd items g = (case batch_body sim rnd items g1 of (r, os, g2) \<Rightarrow> (r, os, h g2))"
proof -
  obtain p q ps where items: "items = p # q # ps"
    using assms by (cases items rule: remdups_adj.cases) auto
  let ?n = "of_nat (length items) :: rat"
  let ?g1 = "gw_count INFERENCE_SEMAPHORE_WAIT_SECONDS ?n
              (gw_gauge INFERENCE_SIMULATED_GPU_UTILIZATION (sim_utilization sim)
                 (gw_count INFERENCE_ACTIVE_JOBS ?n g))"
  let ?h = "\<lambda>g2. gw_count INFERENCE_ACTIVE_JOBS (- ?n) (gw_count INFERENCE_PROCESSING_SECONDS ?n g2)"
  have "run_batch sim rnd items g = (case batch_body sim rnd items ?g1 of (r, os, g2) \<Rightarrow> (r, os, ?h g2))"
    unfolding run_batch_def by (simp add: items Let_def)
  then show ?thesis using that [of ?g1 ?h] by simp
qed

lemma run_batch_servable:
  assumes "2 \<le> length items" "\<forall>p \<in> set items. servable sim p" "0 \<le> sim_batch_overhead_ms sim"
  shows "\<exists>g'. run_batch sim rnd items g =
    (Inr (),
     map (\<lambda>i. Some (rebatch (int (length items)) (single_answer sim (rnd (gw_draws g + i)) (items ! i))))
       [0..<length items],
     g') \<and> gw_draws g' = gw_draws g + length items"
proof -
  obtain g1 h where g1: "gw_draws g1 = gw_draws g" and h: "\<And>g2. gw_draws (h g2) = gw_draws g2"
    and run: "run_batch sim rnd items g =
      (case batch_body sim rnd items g1 of (r, os, g2) \<Rightarrow> (r, os, h g2))"
    using run_batch_many [OF assms(1)] by blast
  have "items \<noteq> []" using assms(1) by auto
  from batch_body_servable [OF assms(2) this assms(3), of rnd g1] show ?thesis
    by (auto simp: run g1 h)
qed

text \<open>A run on its own depends on the world only through its draw.\<close>

lemma run_single_answer: "fst (run_single sim rnd p g) = single_answer sim (rnd (gw_draws g)) p"
  by (auto simp: single_answer_def run_single_def single_body_def should_fail_def Let_def
        split: sum.splits bool.splits prod.splits)

lemma run_single_draws:
  assumes "servable sim p" "0 \<le> sim_batch_overhead_ms sim"
  shows "gw_draws (snd (run_single sim rnd p g)) = Suc (gw_draws g)"
  using assms(1)
proof (rule servableE)
  fix l rate content n
  assume "resolve_latency_ms sim p = Inr l" "failure_rate_of sim p = Inr rate"
    and "\<bar>of_int l\<bar> + of_int (sim_batch_overhead_ms sim) + 1 < 1000 * float_limit"
  moreover from this assms(2) have "milliseconds (max 1 l) = Inr (of_int (max 1 l) / 1000)"
    by (intro single_latency_ok)
  ultimately show ?thesis
    by (auto simp: run_single_def single_body_def should_fail_def Let_def
          split: prod.splits bool.splits if_splits)
qed

lemma rebatch_one: "rebatch 1 (single_answer sim draw p) = single_answer sim draw p"
  by (auto simp: single_answer_def run_single_def single_body_def should_fail_def build_result_def
        simulated_failure_def bind_res_def Let_def split: sum.splits bool.splits prod.splits)

text \<open>
  C20: A batch of two or more well-formed requests answers each request exactly as a run of that request
  alone would with the same random draw, simulated failures included; only the reported batch size
  differs. No request of the batch stays unanswered.
\<close>

theorem batch_matches_single:
  assumes "2 \<le> length items" "\<forall>p \<in> set items. servable (gpu_init c) p"
  shows "\<exists>g'. run_batch (gpu_init c) rnd items g =
    (Inr (),
     map (\<lambda>i. Some (rebatch (int (length items)) (single_answer (gpu_init c) (rnd (gw_draws g + i)) (items ! i))))
       [0..<length items],
     g')"
  using run_batch_servable [OF assms] by (auto simp: gpu_init_def)

text \<open>Two requests: one asks for its own latency, the other has a length 5 content.\<close>

definition sample_gpu :: GpuConfig where
  "sample_gpu =
     \<lparr>gpu_max_concurrency = 2, gpu_base_latency_ms = 10, gpu_utilization = 1 / 2,
      gpu_failure_rate = 1 / 4, gpu_batch_enabled = True, gpu_batch_size = 2,
      gpu_batch_timeout_ms = 20, gpu_batch_overhead_ms = 3\<rparr>"

definition sample_requests :: "pyval list" where
  "sample_requests =
     [PDict [(''input'', PDict [(''content'', PStr ''hello'')]),
             (''options'', PDict [(''simulate_inference_ms'', PInt 7)])],
      PDict [(''input'', PDict [(''content'', PStr ''x'')])]]"

lemma sample_requests_servable: "\<forall>p \<in> set sample_requests. servable (gpu_init sample_gpu) p"
  by (simp add: sample_requests_def servable_def resolve_latency_ms_def failure_rate_of_def
        content_of_def gpu_init_def sample_gpu_def float_limit_def)

definition sample_draws :: "nat \<Rightarrow> rat" where
  "sample_draws n = (if n = 0 then 1 / 2 else 0)"

theorem batch_matches_single_witness:
  "(case run_batch (gpu_init sample_gpu) sample_draws sample_requests gpu_idle of
      (r, os, g) \<Rightarrow> r = Inr () \<and>
        os = [Some (rebatch 2 (single_answer (gpu_init sample_gpu) (1 / 2) (sample_requests ! 0))),
              Some (rebatch 2 (single_answer (gpu_init sample_gpu) 0 (sample_requests ! 1)))])"
proof -
  have l: "length sample_requests = 2" by (simp add: sample_requests_def)
  have u: "[0..<2] = [0, 1::nat]" by (simp add: upt_rec)
  have "2 \<le> length sample_requests" by (simp add: l)
  from batch_matches_single [OF this sample_requests_servable, of sample_draws gpu_idle]
  show ?thesis by (auto simp: l u gpu_idle_def sample_draws_def)
qed

end
