(* ===== verification/Kafka_Topics.thy ===== *)
theory Kafka_Topics
  imports Config
begin

section \<open>Topic configuration\<close>

text \<open>
  \<open>ensure_kafka_topics\<close> of \<open>app/core/kafka_topics.py\<close>. The admin client of aiokafka is a parameter
  (\<open>admin_api\<close>, a record of its calls on a state of its own); what its documentation promises is
  \<open>admin_laws\<close>. Creating topics and partitions does not raise when the cluster refuses: the calls return a
  response with an error code per topic, which the function does not look at. Log lines are left out.
\<close>

subsection \<open>The admin client\<close>

record NewTopic =
  nt_name :: string
  nt_num_partitions :: int
  nt_replication_factor :: int

text \<open>An entry of \<open>describe_topics\<close>: its \<open>topic\<close> and, when present, the length of \<open>partitions\<close>.\<close>

record topic_meta =
  tm_topic :: string
  tm_partitions :: "nat option"

text \<open>The error code of each topic in a response; 0 is success.\<close>

type_synonym topic_codes = "(string \<times> int) list"

record 'c admin_api =
  adm_start :: "'c \<Rightarrow> unit res \<times> 'c"
  adm_list_topics :: "'c \<Rightarrow> string list res \<times> 'c"
  adm_create_topics :: "NewTopic list \<Rightarrow> 'c \<Rightarrow> topic_codes res \<times> 'c"
  adm_describe_topics :: "string list \<Rightarrow> 'c \<Rightarrow> topic_meta list res \<times> 'c"
  adm_create_partitions :: "(string \<times> int) list \<Rightarrow> 'c \<Rightarrow> topic_codes res \<times> 'c"
  adm_close :: "'c \<Rightarrow> unit res \<times> 'c"

text \<open>Sequencing of calls that may raise; a response nobody looks at.\<close>

definition and_then :: "'a res \<times> 'c \<Rightarrow> ('a \<Rightarrow> 'c \<Rightarrow> 'b res \<times> 'c) \<Rightarrow> 'b res \<times> 'c" where
  "and_then m f = (case m of (Inl e, c) \<Rightarrow> (Inl e, c) | (Inr a, c) \<Rightarrow> f a c)"

definition ignore_response :: "'a res \<times> 'c \<Rightarrow> unit res \<times> 'c" where
  "ignore_response m = and_then m (\<lambda>_ c. (Inr (), c))"

lemma and_then_simps [simp]:
  "and_then (Inl e, c) f = (Inl e, c)"
  "and_then (Inr a, c) f = f a c"
  by (simp_all add: and_then_def)

lemma and_then_Inr:
  "and_then m f = (Inr b, c') \<longleftrightarrow> (\<exists>a c. m = (Inr a, c) \<and> f a c = (Inr b, c'))"
  by (cases m; cases "fst m") auto

lemma ignore_response_Inr: "ignore_response m = (Inr (), c') \<longleftrightarrow> (\<exists>a. m = (Inr a, c'))"
  by (auto simp: ignore_response_def and_then_Inr)

subsection \<open>The function\<close>

definition missing_topics :: "Settings \<Rightarrow> (string \<times> int) list \<Rightarrow> string list \<Rightarrow> NewTopic list" where
  "missing_topics s targets existing =
     map (\<lambda>(name, n). \<lparr>nt_name = name, nt_num_partitions = n,
                       nt_replication_factor = max 1 (kafka_topic_replication_factor s)\<rparr>)
       (filter (\<lambda>(name, _). name \<notin> set existing) targets)"

definition expand_entry ::
  "(string \<times> int) list \<Rightarrow> (string \<times> int) list \<Rightarrow> topic_meta \<Rightarrow> (string \<times> int) list" where
  "expand_entry targets expand tm =
     (let current = int (case tm_partitions tm of None \<Rightarrow> 0 | Some n \<Rightarrow> n);
          target = (case map_of targets (tm_topic tm) of None \<Rightarrow> current | Some t \<Rightarrow> t)
      in if current < target then dict_set (tm_topic tm) target expand else expand)"

definition expand_map :: "(string \<times> int) list \<Rightarrow> topic_meta list \<Rightarrow> (string \<times> int) list" where
  "expand_map targets described = foldl (expand_entry targets) [] described"

definition configure_topics :: "'c admin_api \<Rightarrow> Settings \<Rightarrow> 'c \<Rightarrow> unit res \<times> 'c" where
  "configure_topics api s c =
     (let targets = build_topic_partition_targets s in
      and_then (adm_list_topics api c) (\<lambda>existing c1.
      let missing = missing_topics s targets existing in
      and_then (if missing = [] then (Inr (), c1)
                else ignore_response (adm_create_topics api missing c1)) (\<lambda>_ c2.
      and_then (adm_describe_topics api (map fst targets) c2) (\<lambda>described c3.
      let expand = expand_map targets described in
      if expand = [] then (Inr (), c3)
      else ignore_response (adm_create_partitions api expand c3)))))"

text \<open>\<open>try ... finally: await admin.close()\<close>: the exception of \<open>close\<close> replaces an earlier one.\<close>

definition ensure_kafka_topics :: "'c admin_api \<Rightarrow> Settings \<Rightarrow> 'c \<Rightarrow> unit res \<times> 'c" where
  "ensure_kafka_topics api s c =
     (if \<not> kafka_topic_auto_configure s then (Inr (), c)
      else and_then (adm_start api c) (\<lambda>_ c1.
           let (r, c2) = configure_topics api s c1
           in and_then (adm_close api c2) (\<lambda>_ c3. (r, c3))))"

subsection \<open>What the client promises\<close>

text \<open>
  \<open>count c t\<close> is the number of partitions of topic \<open>t\<close>, if it exists. Listing and describing report the
  cluster and leave it alone (a description may lag behind: it reports at most the partitions there
  are). Of new topics, those are created whose code in the response is 0, with the number asked for; of
  topics to expand, those get the new total, if it is larger, whose code is 0. The cluster may refuse
  (for want of permissions, by a policy, for want of brokers for the replication factor): \<open>no_create\<close> and
  \<open>no_grow\<close> are the topics it refuses to create and to expand. Laws about answers hold for calls that do
  not raise.
\<close>

definition add_topics :: "NewTopic list \<Rightarrow> (string \<rightharpoonup> nat) \<Rightarrow> string \<rightharpoonup> nat" where
  "add_topics ts m = m ++ map_of (map (\<lambda>t. (nt_name t, nat (nt_num_partitions t))) ts)"

definition grow_topics :: "(string \<times> int) list \<Rightarrow> (string \<rightharpoonup> nat) \<Rightarrow> string \<rightharpoonup> nat" where
  "grow_topics e m t =
     (case (map_of e t, m t) of (Some n, Some k) \<Rightarrow> Some (max k (nat n)) | _ \<Rightarrow> m t)"

definition described :: "topic_meta \<Rightarrow> nat" where
  "described m = (case tm_partitions m of None \<Rightarrow> 0 | Some n \<Rightarrow> n)"

definition admin_laws ::
  "'c admin_api \<Rightarrow> ('c \<Rightarrow> string \<rightharpoonup> nat) \<Rightarrow> (string \<Rightarrow> bool) \<Rightarrow> (string \<Rightarrow> bool) \<Rightarrow> bool" where
  "admin_laws api count no_create no_grow \<longleftrightarrow>
     (\<forall>c r c'. adm_start api c = (r, c') \<longrightarrow> count c' = count c) \<and>
     (\<forall>c r c'. adm_close api c = (r, c') \<longrightarrow> count c' = count c) \<and>
     (\<forall>c r c'. adm_list_topics api c = (r, c') \<longrightarrow>
        count c' = count c \<and> (\<forall>ts. r = Inr ts \<longrightarrow> set ts = dom (count c))) \<and>
     (\<forall>ts c codes c'. adm_create_topics api ts c = (Inr codes, c') \<longrightarrow>
        (\<forall>t \<in> set ts. count c (nt_name t) = None \<and> 1 \<le> nt_num_partitions t) \<longrightarrow>
        (\<forall>t \<in> set ts. map_of codes (nt_name t) = Some 0 \<longleftrightarrow> \<not> no_create (nt_name t)) \<and>
        count c' = add_topics (filter (\<lambda>t. map_of codes (nt_name t) = Some 0) ts) (count c)) \<and>
     (\<forall>names c r c'. adm_describe_topics api names c = (r, c') \<longrightarrow>
        count c' = count c \<and>
        (\<forall>ms. r = Inr ms \<longrightarrow>
           set names \<inter> dom (count c) \<subseteq> tm_topic ` set ms \<and>
           (\<forall>m \<in> set ms. \<forall>k. count c (tm_topic m) = Some k \<longrightarrow> described m \<le> k))) \<and>
     (\<forall>e c codes c'. adm_create_partitions api e c = (Inr codes, c') \<longrightarrow>
        (\<forall>t n k. map_of e t = Some n \<longrightarrow> count c t = Some k \<longrightarrow> int k < n \<longrightarrow>
           (map_of codes t = Some 0 \<longleftrightarrow> \<not> no_grow t)) \<and>
        (\<forall>t. count c' t = (if map_of codes t = Some 0 then grow_topics e (count c) t else count c t)))"

subsection \<open>Expansion\<close>

lemma targets_distinct: "distinct (map fst (build_topic_partition_targets s))"
  by (simp add: build_topic_partition_targets_def Let_def)

lemma targets_positive: "(t, n) \<in> set (build_topic_partition_targets s) \<Longrightarrow> 1 \<le> n"
proof -
  have step: "\<forall>(t, n) \<in> set (dict_set k v d). 1 \<le> n"
    if "\<forall>(t, n) \<in> set d. 1 \<le> n" "1 \<le> v" for k and v :: int and d :: "(string \<times> int) list"
    using that by (induction d) (auto split: if_splits)
  have "\<forall>(t, n) \<in> set (build_topic_partition_targets s). 1 \<le> n"
    unfolding build_topic_partition_targets_def Let_def foldl.simps prod.case
    by (intro step) auto
  then show "(t, n) \<in> set (build_topic_partition_targets s) \<Longrightarrow> 1 \<le> n" by auto
qed

text \<open>Only topics below their target get an entry, with the target.\<close>

lemma expand_map_fold:
  assumes "\<And>t n. map_of e t = Some n \<Longrightarrow> map_of targets t = Some n"
  shows "map_of (foldl (expand_entry targets) e ms) t = Some n \<longleftrightarrow>
    map_of e t = Some n \<or>
    map_of targets t = Some n \<and>
      (\<exists>m \<in> set ms. tm_topic m = t \<and> int (case tm_partitions m of None \<Rightarrow> 0 | Some k \<Rightarrow> k) < n)"
  using assms
proof (induction ms arbitrary: e)
  case (Cons m ms)
  have "map_of targets t' = Some n'" if "map_of (expand_entry targets e m) t' = Some n'" for t' n'
    using that Cons.prems by (auto simp: expand_entry_def Let_def split: if_splits option.splits)
  then have "map_of (foldl (expand_entry targets) (expand_entry targets e m) ms) t = Some n \<longleftrightarrow>
      map_of (expand_entry targets e m) t = Some n \<or> map_of targets t = Some n \<and>
      (\<exists>m \<in> set ms. tm_topic m = t \<and> int (case tm_partitions m of None \<Rightarrow> 0 | Some k \<Rightarrow> k) < n)"
    by (rule Cons.IH)
  moreover have "map_of (expand_entry targets e m) t = Some n \<longleftrightarrow>
      map_of e t = Some n \<or> map_of targets t = Some n \<and> tm_topic m = t \<and>
      int (case tm_partitions m of None \<Rightarrow> 0 | Some k \<Rightarrow> k) < n"
    using Cons.prems by (auto simp: expand_entry_def Let_def split: if_splits option.splits)
  ultimately show ?case by auto
qed simp

lemma expand_map_Some:
  "map_of (expand_map targets ms) t = Some n \<longleftrightarrow>
     map_of targets t = Some n \<and> (\<exists>m \<in> set ms. tm_topic m = t \<and> int (described m) < n)"
  using expand_map_fold [of "[]" targets ms t n]
  by (simp add: expand_map_def described_def)

lemma map_of_missing:
  "map_of (map (\<lambda>t. (nt_name t, nat (nt_num_partitions t))) (missing_topics s targets ex)) t =
     (if t \<in> set ex then None else map_option nat (map_of targets t))"
  unfolding missing_topics_def by (induction targets) auto

text \<open>
  The partitions a topic ends with: the larger of what it had and its target, unless the cluster refuses.
\<close>

definition configured ::
  "(string \<times> int) list \<Rightarrow> (string \<Rightarrow> bool) \<Rightarrow> (string \<Rightarrow> bool) \<Rightarrow> (string \<rightharpoonup> nat) \<Rightarrow> string \<rightharpoonup> nat" where
  "configured targets no_create no_grow m t =
     (case (map_of targets t, m t) of
        (None, _) \<Rightarrow> m t
      | (Some n, None) \<Rightarrow> if no_create t then None else Some (nat n)
      | (Some n, Some k) \<Rightarrow> if no_grow t then Some k else Some (max (nat n) k))"

lemma admin_lawsD:
  assumes "admin_laws api count no_create no_grow"
  shows "adm_start api c = (r, c') \<Longrightarrow> count c' = count c"
    and "adm_close api c = (r, c') \<Longrightarrow> count c' = count c"
    and "adm_list_topics api c = (Inr ts, c') \<Longrightarrow> count c' = count c \<and> set ts = dom (count c)"
    and "adm_create_topics api new c = (Inr codes, c') \<Longrightarrow>
      \<forall>t \<in> set new. count c (nt_name t) = None \<and> 1 \<le> nt_num_partitions t \<Longrightarrow>
      (\<forall>t \<in> set new. map_of codes (nt_name t) = Some 0 \<longleftrightarrow> \<not> no_create (nt_name t)) \<and>
      count c' = add_topics (filter (\<lambda>t. map_of codes (nt_name t) = Some 0) new) (count c)"
    and "adm_describe_topics api names c = (Inr ms, c') \<Longrightarrow>
      count c' = count c \<and> set names \<inter> dom (count c) \<subseteq> tm_topic ` set ms \<and>
      (\<forall>m \<in> set ms. \<forall>k. count c (tm_topic m) = Some k \<longrightarrow> described m \<le> k)"
    and "adm_create_partitions api e c = (Inr codes, c') \<Longrightarrow>
      (\<forall>t n k. map_of e t = Some n \<longrightarrow> count c t = Some k \<longrightarrow> int k < n \<longrightarrow>
         (map_of codes t = Some 0 \<longleftrightarrow> \<not> no_grow t)) \<and>
      (\<forall>t. count c' t = (if map_of codes t = Some 0 then grow_topics e (count c) t else count c t))"
  using assms by (simp_all add: admin_laws_def)

text \<open>Creating what is missing: nothing else changes.\<close>

lemma created_topics:
  assumes "admin_laws api count no_create no_grow" "adm_create_topics api (missing_topics s targets ex) c = (Inr codes, c')"
    and "set ex = dom (count c)" "\<forall>(t, n) \<in> set targets. 1 \<le> n"
  shows "count c' t = (case count c t of Some k \<Rightarrow> Some k
    | None \<Rightarrow> if no_create t then None else map_option nat (map_of targets t))"
proof -
  let ?new = "missing_topics s targets ex" and ?key = "\<lambda>t. (nt_name t, nat (nt_num_partitions t))"
  have "\<forall>t \<in> set ?new. count c (nt_name t) = None \<and> 1 \<le> nt_num_partitions t"
    using assms(3,4) by (fastforce simp: missing_topics_def)
  from admin_lawsD(4) [OF assms(1,2) this]
  have codes: "\<forall>t \<in> set ?new. map_of codes (nt_name t) = Some 0 \<longleftrightarrow> \<not> no_create (nt_name t)"
    and c': "count c' = add_topics (filter (\<lambda>t. map_of codes (nt_name t) = Some 0) ?new) (count c)" by simp_all
  have "filter (\<lambda>t. map_of codes (nt_name t) = Some 0) ?new = filter (\<lambda>t. \<not> no_create (nt_name t)) ?new"
    using codes by (intro filter_cong) auto
  moreover have "map_of (map ?key (filter (\<lambda>t. \<not> no_create (nt_name t)) xs)) t
      = (if no_create t then None else map_of (map ?key xs) t)" for xs :: "NewTopic list"
    by (induction xs) auto
  ultimately have new: "map_of (map ?key (filter (\<lambda>t. map_of codes (nt_name t) = Some 0) ?new)) t =
      (if no_create t \<or> t \<in> set ex then None else map_option nat (map_of targets t))"
    by (simp add: map_of_missing)
  show ?thesis
    using assms(3) unfolding c' add_topics_def map_add_def new by (auto split: option.splits)
qed

text \<open>Expanding along a description that reports at most what there is.\<close>

lemma expanded_topics:
  assumes "admin_laws api count no_create no_grow"
    and "adm_create_partitions api (expand_map targets ms) c = (Inr codes, c')"
    and "\<And>k. map_of targets t \<noteq> None \<Longrightarrow> count c t = Some k \<Longrightarrow> \<exists>x \<in> set ms. tm_topic x = t \<and> described x \<le> k"
  shows "count c' t = (case (map_of targets t, count c t) of
    (Some n, Some k) \<Rightarrow> if no_grow t then Some k else Some (max (nat n) k) | _ \<Rightarrow> count c t)"
proof -
  let ?e = "expand_map targets ms"
  from admin_lawsD(6) [OF assms(1,2)]
  have codes: "map_of ?e t = Some n \<Longrightarrow> count c t = Some k \<Longrightarrow> int k < n \<Longrightarrow> (map_of codes t = Some 0 \<longleftrightarrow> \<not> no_grow t)"
    and c': "count c' t = (if map_of codes t = Some 0 then grow_topics ?e (count c) t else count c t)" for n k
    by blast+
  have small: "map_of ?e t = Some n" if n: "map_of targets t = Some n" "count c t = Some k" "int k < n" for n k
  proof -
    from n assms(3) [of k] obtain x where "x \<in> set ms" "tm_topic x = t" "int (described x) < n" by force
    with n(1) show ?thesis by (auto simp: expand_map_Some)
  qed
  have entry: "map_of ?e t = None \<or> map_of ?e t = map_of targets t"
    by (metis expand_map_Some not_None_eq)
  show ?thesis
  proof (cases "map_of targets t")
    case None
    with entry show ?thesis by (simp add: c' grow_topics_def)
  next
    case n: (Some n)
    show ?thesis
    proof (cases "count c t")
      case None
      then show ?thesis by (simp add: c' grow_topics_def split: option.splits)
    next
      case k: (Some k)
      show ?thesis
      proof (cases "int k < n")
        case True
        with small [OF n k] codes k n show ?thesis by (simp add: c' grow_topics_def max.commute)
      next
        case False
        then have "max (nat n) k = k" "max k (nat n) = k" by simp_all
        with entry n k show ?thesis by (auto simp: c' grow_topics_def split: option.splits)
      qed
    qed
  qed
qed

lemma configure_topicsE:
  assumes "configure_topics api s c = (Inr (), c')" "targets = build_topic_partition_targets s"
  obtains ex c1 c2 ms c3 where
    "adm_list_topics api c = (Inr ex, c1)"
    "missing_topics s targets ex = [] \<and> c2 = c1
     \<or> (\<exists>codes. adm_create_topics api (missing_topics s targets ex) c1 = (Inr codes, c2))"
    "adm_describe_topics api (map fst targets) c2 = (Inr ms, c3)"
    "expand_map targets ms = [] \<and> c' = c3
     \<or> (\<exists>codes. adm_create_partitions api (expand_map targets ms) c3 = (Inr codes, c'))"
proof -
  from assms obtain ex c1 c2 u ms c3 where
    "adm_list_topics api c = (Inr ex, c1)"
    "(if missing_topics s targets ex = [] then (Inr (), c1)
      else ignore_response (adm_create_topics api (missing_topics s targets ex) c1)) = (Inr u, c2)"
    "adm_describe_topics api (map fst targets) c2 = (Inr ms, c3)"
    "(if expand_map targets ms = [] then (Inr (), c3)
      else ignore_response (adm_create_partitions api (expand_map targets ms) c3)) = (Inr (), c')"
    by (auto simp: configure_topics_def Let_def and_then_Inr)
  then show thesis
    by (intro that [of ex c1 c2 ms c3]) (auto simp: ignore_response_Inr split: if_splits)
qed

lemma configure_topics_configured:
  assumes laws: "admin_laws api count no_create no_grow" and run: "configure_topics api s c = (Inr (), c')"
  shows "count c' = configured (build_topic_partition_targets s) no_create no_grow (count c)"
proof
  fix t
  define T where "T = build_topic_partition_targets s"
  from configure_topicsE [OF run T_def] obtain ex c1 c2 ms c3 where
    ex: "adm_list_topics api c = (Inr ex, c1)"
    and mk: "missing_topics s T ex = [] \<and> c2 = c1
      \<or> (\<exists>codes. adm_create_topics api (missing_topics s T ex) c1 = (Inr codes, c2))"
    and ds: "adm_describe_topics api (map fst T) c2 = (Inr ms, c3)"
    and gr: "expand_map T ms = [] \<and> c' = c3
      \<or> (\<exists>codes. adm_create_partitions api (expand_map T ms) c3 = (Inr codes, c'))" .
  have c1: "count c1 = count c" and set: "set ex = dom (count c)" using admin_lawsD(3) [OF laws ex] by auto
  have pos: "\<forall>(t, n) \<in> set T. 1 \<le> n" using targets_positive by (auto simp: T_def)
  have c2: "count c2 t = (case count c t of Some k \<Rightarrow> Some k
    | None \<Rightarrow> if no_create t then None else map_option nat (map_of T t))" for t
    using mk
  proof
    assume none: "missing_topics s T ex = [] \<and> c2 = c1"
    with map_of_missing [of s T ex t] set c1 show ?thesis by (auto split: option.splits if_splits)
  qed (use created_topics [OF laws _ _ pos] set c1 in auto)
  note ds' = admin_lawsD(5) [OF laws ds]
  have seen: "\<exists>x \<in> set ms. tm_topic x = t \<and> described x \<le> k" if "map_of T t \<noteq> None" "count c3 t = Some k" for t k
  proof -
    from that ds' have "t \<in> tm_topic ` set ms" by (force dest: map_of_SomeD)
    then obtain x where "x \<in> set ms" "tm_topic x = t" by blast
    with ds' that(2) show ?thesis by auto
  qed
  have c': "count c' t = (case (map_of T t, count c3 t) of
      (Some n, Some k) \<Rightarrow> if no_grow t then Some k else Some (max (nat n) k) | _ \<Rightarrow> count c3 t)"
    using gr
  proof
    assume none: "expand_map T ms = [] \<and> c' = c3"
    have "max (nat n) k = k" if "map_of T t = Some n" "count c3 t = Some k" for n k
    proof (rule ccontr)
      assume "max (nat n) k \<noteq> k"
      then have "int k < n" by (simp add: max_def split: if_splits)
      with seen [of t k] that have "\<exists>x \<in> set ms. tm_topic x = t \<and> int (described x) < n" by force
      with that(1) have "map_of (expand_map T ms) t = Some n" by (simp add: expand_map_Some)
      with none show False by simp
    qed
    with none show ?thesis by (auto split: option.splits)
  qed (use expanded_topics [OF laws _ seen] in auto)
  have "configured T no_create no_grow (count c) t = count c' t"
    using ds' unfolding c' by (auto simp: configured_def c2 split: option.splits)
  then show "count c' t = configured (build_topic_partition_targets s) no_create no_grow (count c) t"
    by (simp add: T_def)
qed

text \<open>
  C31: What \<open>ensure_kafka_topics\<close> leaves behind when it returns, also when the cluster refused some of it. A missing
  topic has exactly its target number of partitions, and is still missing if its creation was refused; an
  existing one has the larger of its old number and the target, and its old number if the expansion was
  refused. No topic loses partitions and no other topic is touched. So the system's topics are as
  configured when nothing was refused; a refusal goes unnoticed, because the response is not looked at.
\<close>

theorem ensure_topics_reach_targets:
  assumes "admin_laws api count no_create no_grow" "kafka_topic_auto_configure s"
    and "ensure_kafka_topics api s c = (Inr (), c')"
  shows "count c' = configured (build_topic_partition_targets s) no_create no_grow (count c)"
proof -
  obtain c1 c2 u where "adm_start api c = (u, c1)" "configure_topics api s c1 = (Inr (), c2)"
    "\<exists>v. adm_close api c2 = (v, c')"
    using assms(2,3)
    by (cases "configure_topics api s (snd (adm_start api c))")
       (auto simp: ensure_kafka_topics_def and_then_Inr Let_def)
  then show ?thesis
    using configure_topics_configured [OF assms(1)] admin_lawsD(1,2) [OF assms(1)] by metis
qed

text \<open>A cluster in memory, its topics an association list, that refuses to create or expand some.\<close>

definition grown :: "(string \<times> int) list \<Rightarrow> (string \<Rightarrow> bool) \<Rightarrow> string \<times> nat \<Rightarrow> string \<times> nat" where
  "grown e no_grow tk =
     (case tk of (t, k) \<Rightarrow> (t, case map_of e t of None \<Rightarrow> k | Some n \<Rightarrow> if no_grow t then k else max k (nat n)))"

definition list_admin :: "(string \<Rightarrow> bool) \<Rightarrow> (string \<Rightarrow> bool) \<Rightarrow> (string \<times> nat) list admin_api" where
  "list_admin no_create no_grow =
     \<lparr>adm_start = (\<lambda>c. (Inr (), c)),
      adm_list_topics = (\<lambda>c. (Inr (map fst c), c)),
      adm_create_topics = (\<lambda>ts c.
        (Inr (map (\<lambda>t. (nt_name t, if no_create (nt_name t) then 44 else 0)) ts),
         map (\<lambda>t. (nt_name t, nat (nt_num_partitions t))) (filter (\<lambda>t. \<not> no_create (nt_name t)) ts) @ c)),
      adm_describe_topics = (\<lambda>names c.
        (Inr (map (\<lambda>t. \<lparr>tm_topic = t, tm_partitions = map_of c t\<rparr>) names), c)),
      adm_create_partitions = (\<lambda>e c.
        (Inr (map (\<lambda>(t, _). (t, if no_grow t then 44 else 0)) e), map (grown e no_grow) c)),
      adm_close = (\<lambda>c. (Inr (), c))\<rparr>"

lemma map_of_grown: "map_of (map (grown e no_grow) c) t = map_option (\<lambda>k. snd (grown e no_grow (t, k))) (map_of c t)"
  by (induction c) (auto simp: grown_def split: option.splits)

lemma map_of_codes: "map_of (map (\<lambda>(t, _). (t, f t)) e) t = map_option (\<lambda>_. f t) (map_of e t)"
  by (induction e) auto

lemma map_of_new_codes: "x \<in> set ts \<Longrightarrow> map_of (map (\<lambda>t. (nt_name t, f (nt_name t))) ts) (nt_name x) = Some (f (nt_name x))"
  by (induction ts) auto

lemma list_admin_laws: "admin_laws (list_admin no_create no_grow) map_of no_create no_grow"
proof -
  have new: "filter (\<lambda>t. map_of (map (\<lambda>t. (nt_name t, if no_create (nt_name t) then 44 else 0 :: int)) ts) (nt_name t) = Some 0) ts
      = filter (\<lambda>t. \<not> no_create (nt_name t)) ts" for ts
    by (rule filter_cong) (simp_all add: map_of_new_codes [where f = "\<lambda>n. if no_create n then 44 else 0"])
  show ?thesis
    by (auto simp: admin_laws_def list_admin_def add_topics_def described_def dom_map_of_conv_image_fst image_image
        new map_of_new_codes [where f = "\<lambda>n. if no_create n then 44 else 0 :: int"] map_of_codes map_of_grown
        grow_topics_def grown_def option.map_ident split: option.splits)
qed

text \<open>A cluster that refuses to create the downstream topic: the function returns, and the topic is missing.\<close>

theorem ensure_topics_reach_targets_witness:
  "\<exists>c. ensure_kafka_topics (list_admin (\<lambda>t. t = ''downstream-topic'') (\<lambda>_. False)) default_settings
         [(''dlq-topic'', 3)] = (Inr (), c) \<and>
       map_of c ''dlq-topic'' = Some 3 \<and> map_of c ''request-topic'' = Some 1 \<and> map_of c ''downstream-topic'' = None"
proof -
  let ?api = "list_admin (\<lambda>t. t = ''downstream-topic'') (\<lambda>_. False)"
  obtain r c where run: "ensure_kafka_topics ?api default_settings [(''dlq-topic'', 3)] = (r, c)"
    by fastforce
  have auto_on: "kafka_topic_auto_configure default_settings" by (simp add: default_settings_def)
  have r: "r = Inr ()"
    using run auto_on
    by (simp add: ensure_kafka_topics_def configure_topics_def list_admin_def ignore_response_def Let_def
        split: if_splits)
  have "map_of c = configured (build_topic_partition_targets default_settings) (\<lambda>t. t = ''downstream-topic'')
      (\<lambda>_. False) (map_of [(''dlq-topic'', 3)])"
    using list_admin_laws auto_on run unfolding r by (rule ensure_topics_reach_targets)
  then show ?thesis
    using run r
    by (simp add: configured_def build_topic_partition_targets_def default_settings_def Let_def)
qed

end
