(* ===== verification/Api.thy ===== *)
theory Api
  imports Processing Kafka_Topics
begin

section \<open>HTTP API\<close>

text \<open>
  The container of \<open>app/core/container.py\<close>, the schemas, routes and middleware of \<open>app/api\<close> and
  \<open>app/main.py\<close>. A request arrives parsed: checking a body against \<open>JobCreateRequest\<close> and routing are
  FastAPI's. A handler answers with a status code and a document, or raises.
\<close>

subsection \<open>Container\<close>

definition container_store :: "'s redis_api \<Rightarrow> Settings \<Rightarrow> 's idem_store" where
  "container_store api s =
     redis_store api \<lparr>rs_ttl_seconds = idempotency_ttl_seconds s,
                      rs_processing_ttl_seconds = worker_processing_ttl_seconds s\<rparr>"

definition container_job_service :: "Settings \<Rightarrow> job_service" where
  "container_job_service s = \<lparr>js_topic = kafka_request_topic s\<rparr>"

definition container_worker_service :: "Settings \<Rightarrow> role_service" where
  "container_worker_service s =
     WorkerService (worker_processing_ttl_seconds s) (build_primary_processor s False)"

subsection \<open>Schemas\<close>

record JobCreateRequest =
  req_input :: "(string \<times> pyval) list"
  req_options :: "(string \<times> pyval) list"

text \<open>A body without \<open>options\<close> gets the empty dict.\<close>

definition job_create_request ::
  "(string \<times> pyval) list \<Rightarrow> (string \<times> pyval) list option \<Rightarrow> JobCreateRequest" where
  "job_create_request i opts =
     \<lparr>req_input = i, req_options = (case opts of None \<Rightarrow> [] | Some d \<Rightarrow> d)\<rparr>"

definition model_dump :: "JobCreateRequest \<Rightarrow> pyval" where
  "model_dump r = PDict [(''input'', PDict (req_input r)), (''options'', PDict (req_options r))]"

definition JobResponse :: "string \<Rightarrow> string \<Rightarrow> pyval" where
  "JobResponse jid st = PDict [(''job_id'', PStr jid), (''status'', PStr st)]"

text \<open>The field \<open>result\<close> takes a dict or \<open>None\<close>; \<open>text\<close> is the message of the validation error.\<close>

definition JobDetailResponse ::
  "string \<Rightarrow> string \<Rightarrow> string \<Rightarrow> pyval option \<Rightarrow> string option \<Rightarrow> pyval res" where
  "JobDetailResponse text jid st result error =
     (case result of
        Some v \<Rightarrow>
          if is_dict v
          then Inr (PDict [(''job_id'', PStr jid), (''status'', PStr st), (''result'', v),
                           (''error'', case error of None \<Rightarrow> PNone | Some e \<Rightarrow> PStr e)])
          else Inl (PyExc ''ValidationError'' text)
      | None \<Rightarrow> Inr (PDict [(''job_id'', PStr jid), (''status'', PStr st), (''result'', PNone),
                           (''error'', case error of None \<Rightarrow> PNone | Some e \<Rightarrow> PStr e)]))"

record dependency =
  dep_status :: string
  dep_detail :: string

record HealthResponse =
  hr_status :: string
  hr_dependencies :: "(string \<times> dependency) list"
  hr_details :: "(string \<times> string) list"

subsection \<open>Routes\<close>

datatype http_outcome = Response int pyval | Unhandled py_exc

definition create_job_route ::
  "'s redis_api \<Rightarrow> Settings \<Rightarrow> 's create_env \<Rightarrow> JobCreateRequest \<Rightarrow> string option \<Rightarrow> world \<Rightarrow> 's
     \<Rightarrow> http_outcome \<times> world \<times> 's" where
  "create_job_route api s env request idempotency_key w st =
     (case create_job (container_store api s) (container_job_service s) env (model_dump request)
             idempotency_key w st of
        (Inl e, w', st') \<Rightarrow> (Unhandled e, w', st')
      | (Inr job, w', st') \<Rightarrow>
          (Response 202 (JobResponse (job_id job) (status_value (job_status job))), w', st'))"

definition get_job_route :: "string \<Rightarrow> py_exc option \<Rightarrow> string \<Rightarrow> db \<Rightarrow> http_outcome" where
  "get_job_route text fault jid d =
     (case get_job fault (PStr jid) d of
        Inl e \<Rightarrow> Unhandled e
      | Inr None \<Rightarrow> Response 404 (PDict [(''detail'', PStr ''Job not found'')])
      | Inr (Some job) \<Rightarrow>
          (case JobDetailResponse text (job_id job) (status_value (job_status job)) (job_result job)
                  (job_error job) of
             Inl e \<Rightarrow> Unhandled e
           | Inr body \<Rightarrow> Response 200 body))"

text \<open>\<open>record_http_metrics\<close>: only requests that were answered are counted.\<close>

definition record_http_metrics :: "string \<Rightarrow> string \<Rightarrow> http_outcome \<Rightarrow> metrics \<Rightarrow> metrics" where
  "record_http_metrics method path r m =
     (case r of
        Response code _ \<Rightarrow> metric_inc (HTTP_REQUESTS_TOTAL method path code) m
      | Unhandled _ \<Rightarrow> m)"

subsection \<open>Health\<close>

definition live :: HealthResponse where
  "live = \<lparr>hr_status = ''ok'', hr_dependencies = [], hr_details = [(''service'', ''alive'')]\<rparr>"

definition probe :: "string \<Rightarrow> unit res \<Rightarrow> dependency" where
  "probe detail answer =
     (case answer of
        Inr _ \<Rightarrow> \<lparr>dep_status = ''ok'', dep_detail = detail\<rparr>
      | Inl e \<Rightarrow> \<lparr>dep_status = ''error'', dep_detail = exc_str e\<rparr>)"

definition kafka_probe :: "bool \<times> string \<Rightarrow> dependency" where
  "kafka_probe r =
     probe (snd r) (if fst r then Inr () else Inl (PyExc ''RuntimeError'' (snd r)))"

text \<open>
  \<open>ready\<close>: what the database answers to \<open>SELECT 1\<close>, Redis to \<open>ping\<close> and the publisher to
  \<open>readiness()\<close>.
\<close>

definition ready :: "unit res \<Rightarrow> unit res \<Rightarrow> bool \<times> string \<Rightarrow> int \<times> HealthResponse" where
  "ready select1 ping kafka =
     (let deps = [(''database'', probe ''connection ok'' select1),
                  (''redis'', probe ''ping ok'' ping),
                  (''kafka'', kafka_probe kafka)];
          all_ok = list_all (\<lambda>(_, d). dep_status d = ''ok'') deps
      in (if all_ok then 200 else 503,
          \<lparr>hr_status = (if all_ok then ''ok'' else ''degraded''), hr_dependencies = deps,
           hr_details = map (\<lambda>(name, d). (name, dep_status d)) deps\<rparr>))"

subsection \<open>Lemmas\<close>

lemma probe_ok: "dep_status (probe t a) = ''ok'' \<longleftrightarrow> (\<exists>u. a = Inr u)"
  by (cases a) (auto simp: probe_def)

lemma kafka_probe_ok: "dep_status (kafka_probe r) = ''ok'' \<longleftrightarrow> fst r"
  by (simp add: kafka_probe_def probe_ok)

lemma readiness_iff:
  "fst (readiness brokers bootstrap brokers_after p) \<longleftrightarrow> kp_started p \<and>
     (\<exists>n. brokers = Inr n \<and>
        (n \<noteq> 0 \<or> (\<exists>b n'. bootstrap = Inr b \<and> brokers_after = Inr n' \<and> (b \<or> n' \<noteq> 0))))"
  by (cases brokers; cases bootstrap; cases brokers_after) (simp_all add: readiness_def)

text \<open>
  The readiness endpoint answers 200 with status \<open>ok\<close> exactly when the database and Redis answered and
  the Kafka publisher has been started and knows a broker or could bootstrap; otherwise it answers
  503 with status \<open>degraded\<close>, and every failed dependency carries the text of its own failure.
\<close>

theorem ready_iff_dependencies:
  "let (code, h) = ready select1 ping (readiness brokers bootstrap brokers_after p);
       healthy = ((\<exists>u. select1 = Inr u) \<and> (\<exists>u. ping = Inr u) \<and> kp_started p \<and>
         (\<exists>n. brokers = Inr n \<and>
            (n \<noteq> 0 \<or> (\<exists>b n'. bootstrap = Inr b \<and> brokers_after = Inr n' \<and> (b \<or> n' \<noteq> 0)))))
   in code = (if healthy then 200 else 503) \<and>
      hr_status h = (if healthy then ''ok'' else ''degraded'') \<and>
      map fst (hr_dependencies h) = [''database'', ''redis'', ''kafka''] \<and>
      (case select1 of
         Inl e \<Rightarrow> map_of (hr_dependencies h) ''database'' =
                    Some \<lparr>dep_status = ''error'', dep_detail = exc_str e\<rparr>
       | Inr _ \<Rightarrow> map_of (hr_details h) ''database'' = Some ''ok'') \<and>
      (case ping of
         Inl e \<Rightarrow> map_of (hr_dependencies h) ''redis'' =
                    Some \<lparr>dep_status = ''error'', dep_detail = exc_str e\<rparr>
       | Inr _ \<Rightarrow> map_of (hr_details h) ''redis'' = Some ''ok'')"
  unfolding readiness_iff [symmetric] ready_def Let_def
  by (cases select1; cases ping) (simp_all add: kafka_probe_ok probe_def)

subsection \<open>An accepted job can be read\<close>

lemma get_job_route_found:
  assumes "jobs d jid \<noteq> None" "jobs_ok d"
  obtains r st where "jobs d jid = Some r" "jm_status r = status_value st"
    "get_job_route text None jid d =
       (case JobDetailResponse text jid (status_value st) (jm_result r) (jm_error_message r) of
          Inl e \<Rightarrow> Unhandled e | Inr body \<Rightarrow> Response 200 body)"
proof -
  from assms obtain r where r: "jobs d jid = Some r" "row_ok jid r" by (auto simp: jobs_ok_def)
  then obtain st where "jm_status r = status_value st" "jm_id r = jid" by (auto simp: row_ok_def)
  with r show thesis
    by (intro that [of r st])
       (simp_all add: get_job_route_def get_job_def job_get_PStr job_of_row_ok [of r st])
qed

text \<open>
  C29: A job that was accepted stays readable. If \<open>POST /jobs\<close> was answered 202 with an identifier, then in
  every state the database reaches afterwards, whatever workers, relays and other clients do, \<open>GET
  /jobs/{id}\<close> of that identifier finds the job: it answers 200 with the identifier and a valid status
  whenever the stored result is absent or a dict, and it never answers 404.
\<close>

theorem accepted_job_readable:
  assumes "redis_laws api contents"
    and "create_job_route api s env request ikey w st = (Response 202 body, w', st')"
    and "jobs_ok (ce_db env (wdb w))" "tx_uuid (ce_tx env) 1 \<noteq> []"
    and "repo_step\<^sup>*\<^sup>* (wdb w') d"
  shows "\<exists>jid status r. py_getitem body ''job_id'' = Inr (PStr jid) \<and> jobs d jid = Some r \<and>
    jm_status r = status_value status \<and>
    (case jm_result r of
       None \<Rightarrow> True | Some v \<Rightarrow> is_dict v) =
    (\<exists>detail. get_job_route text None jid d = Response 200 detail \<and>
       py_getitem detail ''job_id'' = Inr (PStr jid) \<and>
       py_getitem detail ''status'' = Inr (PStr (status_value status))) \<and>
    (\<forall>b. get_job_route text None jid d \<noteq> Response 404 b)"
proof -
  from assms(2) obtain j where
    create: "create_job (container_store api s) (container_job_service s) env (model_dump request)
      ikey w st = (Inr j, w', st')"
    and body: "body = JobResponse (job_id j) (status_value (job_status j))"
    by (auto simp: create_job_route_def split: prod.splits sum.splits)
  note port = redis_store_port [OF assms(1)]
  have row: "jobs (wdb w') (job_id j) \<noteq> None" "jobs_ok (wdb w')"
    using idempotency_port.create_job_answered [OF port create [unfolded container_store_def] assms(3,4)]
    by (simp_all add: answered_def)
  from jobs_persist [OF assms(5) row(1)] jobs_inv.inv_steps [OF assms(5) row(2)]
  obtain r status where "jobs d (job_id j) = Some r" "jm_status r = status_value status"
    "get_job_route text None (job_id j) d =
       (case JobDetailResponse text (job_id j) (status_value status) (jm_result r) (jm_error_message r) of
          Inl e \<Rightarrow> Unhandled e | Inr body \<Rightarrow> Response 200 body)"
    by (rule get_job_route_found)
  then show ?thesis
    unfolding body
    by (intro exI [of _ "job_id j"] exI [of _ status] exI [of _ r])
       (auto simp: JobResponse_def JobDetailResponse_def split: option.splits)
qed

definition sample_request :: JobCreateRequest where
  "sample_request = job_create_request [(''content'', PStr ''hi'')] None"

lemma sample_route:
  "\<exists>body w' st'. create_job_route map_redis default_settings sample_create sample_request (Some ''k1'')
     (sample_world empty_db) Map.empty = (Response 202 body, w', st')"
proof -
  have store: "container_store map_redis default_settings = redis_store map_redis sample_rs"
    by (simp add: container_store_def sample_rs_def default_settings_def)
  have svc: "container_job_service default_settings = sample_js"
    by (simp add: container_job_service_def sample_js_def default_settings_def)
  obtain j w1 s1 where "create_job (redis_store map_redis sample_rs) sample_js sample_create
      (model_dump sample_request) (Some ''k1'') (sample_world empty_db) Map.empty = (Inr j, w1, s1)"
    using sample_first by blast
  then show ?thesis by (simp add: create_job_route_def store svc)
qed

theorem accepted_job_readable_witness:
  "\<exists>body w' st' jid. create_job_route map_redis default_settings sample_create sample_request
       (Some ''k1'') (sample_world empty_db) Map.empty = (Response 202 body, w', st') \<and>
     py_getitem body ''job_id'' = Inr (PStr jid) \<and>
     (\<forall>b. get_job_route ''invalid'' None jid (wdb w') \<noteq> Response 404 b)"
proof -
  obtain body w' st' where run: "create_job_route map_redis default_settings sample_create sample_request
      (Some ''k1'') (sample_world empty_db) Map.empty = (Response 202 body, w', st')"
    using sample_route by blast
  have "jobs_ok (ce_db sample_create (wdb (sample_world empty_db)))"
    "tx_uuid (ce_tx sample_create) 1 \<noteq> []"
    by (simp_all add: jobs_ok_def empty_db_def)
  from accepted_job_readable [OF map_redis_laws run this rtranclp.rtrancl_refl, of "''invalid''"] run
  show ?thesis by blast
qed

end
