(* ===== verification/Batching.thy ===== *)
theory Batching
  imports Processing
begin

section \<open>Micro-batching\<close>

text \<open>
  The queue and the flush task of \<open>GpuInferenceSimulator\<close> (\<open>_enqueue_and_wait\<close>, \<open>_batch_flush_loop\<close>)
  as a step relation. The lock is never held across an \<open>await\<close>, so queueing and taking a batch are
  single steps; a batch runs between two awaits of the flush task, and its futures are set after the
  only sleep, so it is a single step too. Requests are numbered by arrival; a waiting request is not
  cancelled.
\<close>

subsection \<open>State and steps\<close>

text \<open>
  The flush task is absent, waits for the event or its timeout, runs a batch (the numbers of its
  requests), or has died of an exception.
\<close>

datatype flush_task = TaskNone | TaskWaiting | TaskBusy "(nat \<times> pyval) list" | TaskDead

record batcher =
  bq_queue :: "(nat \<times> pyval) list"
  bq_task :: flush_task
  bq_event :: bool
  bq_next :: nat
  bq_results :: "nat \<rightharpoonup> pyval res"
  bq_world :: gpu_world

definition enqueue :: "gpu_sim \<Rightarrow> pyval \<Rightarrow> batcher \<Rightarrow> batcher" where
  "enqueue sim payload b =
     (let q = bq_queue b @ [(bq_next b, payload)]
      in b\<lparr>bq_queue := q, bq_next := Suc (bq_next b),
           bq_task := (case bq_task b of TaskNone \<Rightarrow> TaskWaiting | TaskDead \<Rightarrow> TaskWaiting | t \<Rightarrow> t),
           bq_event := (bq_event b \<or> sim_batch_size sim \<le> int (length q))\<rparr>)"

text \<open>The task wakes up, because the event is set or the timeout has passed.\<close>

definition flush_wake :: "gpu_sim \<Rightarrow> batcher \<Rightarrow> batcher" where
  "flush_wake sim b =
     (let n = nat (sim_batch_size sim)
      in if bq_queue b = [] then b\<lparr>bq_event := False, bq_task := TaskNone\<rparr>
         else b\<lparr>bq_queue := drop n (bq_queue b), bq_task := TaskBusy (take n (bq_queue b)),
                bq_event := (sim_batch_size sim \<le> int (length (drop n (bq_queue b))))\<rparr>)"

fun set_futures :: "(nat \<times> pyval) list \<Rightarrow> outcomes \<Rightarrow> (nat \<rightharpoonup> pyval res) \<Rightarrow> (nat \<rightharpoonup> pyval res)" where
  "set_futures ((i, _) # items) (Some r # os) m = set_futures items os (m(i \<mapsto> r))"
| "set_futures (_ # items) (None # os) m = set_futures items os m"
| "set_futures _ _ m = m"

definition flush_run :: "gpu_sim \<Rightarrow> (nat \<Rightarrow> rat) \<Rightarrow> (nat \<times> pyval) list \<Rightarrow> batcher \<Rightarrow> batcher" where
  "flush_run sim rnd items b =
     (case run_batch sim rnd (map snd items) (bq_world b) of
        (r, os, g) \<Rightarrow>
          b\<lparr>bq_results := set_futures items os (bq_results b), bq_world := g,
            bq_task := (case r of Inl _ \<Rightarrow> TaskDead | Inr _ \<Rightarrow> TaskWaiting)\<rparr>)"

inductive batch_step :: "gpu_sim \<Rightarrow> (nat \<Rightarrow> rat) \<Rightarrow> batcher \<Rightarrow> batcher \<Rightarrow> bool" for sim rnd where
  enqueue: "batch_step sim rnd b (enqueue sim payload b)"
| wake: "bq_task b = TaskWaiting \<Longrightarrow> batch_step sim rnd b (flush_wake sim b)"
| run: "bq_task b = TaskBusy items \<Longrightarrow> batch_step sim rnd b (flush_run sim rnd items b)"

definition batcher_init :: batcher where
  "batcher_init =
     \<lparr>bq_queue = [], bq_task = TaskNone, bq_event = False, bq_next = 0, bq_results = Map.empty,
      bq_world = gpu_idle\<rparr>"

subsection \<open>Invariant\<close>

text \<open>
  The numbers of the queued requests are the last ones given out, in order. A batch is at most of
  the configured size, of distinct earlier requests without an answer. Nobody is answered before
  leaving the queue. While something is queued there is a flush task, which may have died of its last
  batch (see \<open>died\<close> below), and a full queue has its event set.
\<close>

definition taken :: "batcher \<Rightarrow> nat" where
  "taken b = bq_next b - length (bq_queue b)"

definition batch_ok :: "gpu_sim \<Rightarrow> batcher \<Rightarrow> bool" where
  "batch_ok sim b \<longleftrightarrow>
     map fst (bq_queue b) = [taken b..<bq_next b] \<and>
     dom (bq_results b) \<subseteq> {..<taken b} \<and>
     (case bq_task b of
        TaskBusy items \<Rightarrow>
          items \<noteq> [] \<and> int (length items) \<le> sim_batch_size sim \<and> distinct (map fst items) \<and>
          (\<forall>i \<in> set (map fst items). i < taken b \<and> bq_results b i = None)
      | TaskNone \<Rightarrow> bq_queue b = []
      | _ \<Rightarrow> True) \<and>
     (sim_batch_size sim \<le> int (length (bq_queue b)) \<longrightarrow> bq_event b)"

lemma batch_ok_length:
  assumes "batch_ok sim b"
  shows "length (bq_queue b) \<le> bq_next b" "taken b + length (bq_queue b) = bq_next b"
proof -
  have "length (map fst (bq_queue b)) = length [taken b..<bq_next b]"
    using assms by (simp only: batch_ok_def)
  then show "length (bq_queue b) \<le> bq_next b" by (auto simp: taken_def)
  then show "taken b + length (bq_queue b) = bq_next b" by (simp add: taken_def)
qed

lemma taken_simps [simp]:
  "taken (enqueue sim p b) = taken b"
  "taken (flush_run sim rnd items b) = taken b"
  by (simp_all add: taken_def enqueue_def flush_run_def Let_def split: prod.splits)

lemma set_futures_other: "i \<notin> set (map fst items) \<Longrightarrow> set_futures items os m i = m i"
  by (induction items os m rule: set_futures.induct) auto

lemma set_futures_dom: "dom (set_futures items os m) \<subseteq> dom m \<union> set (map fst items)"
  using set_futures_other [of _ items os m] by (fastforce simp: dom_def)

lemma enqueue_ok: "batch_ok sim b \<Longrightarrow> batch_ok sim (enqueue sim p b)"
  using batch_ok_length [of sim b]
  by (auto simp: batch_ok_def enqueue_def taken_def Let_def split: flush_task.splits)

lemma taken_wake:
  assumes "batch_ok sim b"
  shows "taken (flush_wake sim b) = taken b + min (nat (sim_batch_size sim)) (length (bq_queue b))"
  using batch_ok_length [OF assms] by (auto simp: taken_def flush_wake_def Let_def min_def)

lemma flush_wake_ok:
  assumes "batch_ok sim b" "1 \<le> sim_batch_size sim"
  shows "batch_ok sim (flush_wake sim b)"
proof (cases "bq_queue b = []")
  case True
  with assms show ?thesis by (auto simp: batch_ok_def flush_wake_def taken_def Let_def)
next
  case False
  let ?n = "nat (sim_batch_size sim)"
  from assms(1) have q: "map fst (bq_queue b) = [taken b..<bq_next b]" by (simp add: batch_ok_def)
  have take: "map fst (take ?n (bq_queue b)) = take ?n [taken b..<bq_next b]"
    and drop: "map fst (drop ?n (bq_queue b)) = drop ?n [taken b..<bq_next b]"
    by (simp_all add: q flip: take_map drop_map)
  note len = batch_ok_length [OF assms(1)]
  have "map fst (drop ?n (bq_queue b)) = [taken (flush_wake sim b)..<bq_next b]"
    using len by (auto simp: drop taken_wake [OF assms(1)] min_def)
  moreover have "set (map fst (take ?n (bq_queue b))) \<subseteq> {taken b..<taken (flush_wake sim b)}"
    using len by (auto simp: take taken_wake [OF assms(1)] min_def take_upt)
  moreover have "distinct (map fst (take ?n (bq_queue b)))" by (simp add: take)
  moreover have "int (length (take ?n (bq_queue b))) \<le> sim_batch_size sim" using assms(2) by simp
  moreover have "taken b \<le> taken (flush_wake sim b)" by (simp add: taken_wake [OF assms(1)])
  moreover have "take ?n (bq_queue b) \<noteq> []" using False assms(2) by simp
  ultimately show ?thesis
    using assms(1) False unfolding batch_ok_def
    by (fastforce simp: flush_wake_def Let_def)
qed

lemma flush_run_ok:
  assumes "batch_ok sim b" "bq_task b = TaskBusy items"
  shows "batch_ok sim (flush_run sim rnd items b)"
proof -
  obtain r os g where run: "run_batch sim rnd (map snd items) (bq_world b) = (r, os, g)"
    by (metis prod_cases3)
  have "dom (set_futures items os (bq_results b)) \<subseteq> {..<taken b}"
    using set_futures_dom [of items os "bq_results b"] assms by (fastforce simp: batch_ok_def)
  moreover have "taken (flush_run sim rnd items b) = taken b" by simp
  ultimately show ?thesis
    using assms by (auto simp: batch_ok_def flush_run_def run split: sum.splits)
qed

lemma batch_step_ok:
  assumes "1 \<le> sim_batch_size sim" "batch_step sim rnd b b'" "batch_ok sim b"
  shows "batch_ok sim b'"
  using assms(2,3)
  by cases (auto intro: enqueue_ok flush_wake_ok flush_run_ok assms(1))

interpretation batching: invariant_system "batch_step sim rnd"
  "\<lambda>b. 1 \<le> sim_batch_size sim \<and> batch_ok sim b" for sim rnd
  by unfold_locales (auto intro: batch_step_ok)

lemma batcher_init_ok: "1 \<le> sim_batch_size sim \<Longrightarrow> batch_ok sim batcher_init"
  by (simp add: batch_ok_def batcher_init_def taken_def)

lemma gpu_init_batch_size: "1 \<le> sim_batch_size (gpu_init c)"
  by (simp add: gpu_init_def)

subsection \<open>Rounds of the flush loop\<close>

text \<open>Rounds of the loop with no arrival in between: wait, take a batch, run it; stop on an empty queue.\<close>

fun flush_rounds :: "gpu_sim \<Rightarrow> (nat \<Rightarrow> rat) \<Rightarrow> nat \<Rightarrow> batcher \<Rightarrow> batcher" where
  "flush_rounds sim rnd 0 b = b"
| "flush_rounds sim rnd (Suc n) b =
     (let b1 = flush_wake sim b
      in case bq_task b1 of
           TaskBusy items \<Rightarrow> flush_rounds sim rnd n (flush_run sim rnd items b1)
         | _ \<Rightarrow> b1)"

lemma set_futures_all:
  assumes "distinct (map fst items)" "length os = length items"
    and "i < length items" "os ! i = Some r"
  shows "set_futures items os m (fst (items ! i)) = Some r"
  using assms
proof (induction items os m arbitrary: i rule: set_futures.induct)
  case (1 j p items r' os m)
  then show ?case
  proof (cases i)
    case (Suc i')
    with 1 show ?thesis using "1.IH" [of i'] by (simp del: fun_upd_apply)
  qed (simp add: set_futures_other)
next
  case (2 x items os m)
  then show ?case by (cases i) auto
qed auto

text \<open>A batch of servable requests: every request is answered as on its own.\<close>

lemma flush_run_servable:
  assumes "distinct (map fst items)" "items \<noteq> []" "\<forall>(i, p) \<in> set items. servable sim p"
    and "0 \<le> sim_batch_overhead_ms sim"
  shows "bq_task (flush_run sim rnd items b) = TaskWaiting"
    and "gw_draws (bq_world (flush_run sim rnd items b)) = gw_draws (bq_world b) + length items"
    and "k < length items \<Longrightarrow>
      bq_results (flush_run sim rnd items b) (fst (items ! k)) =
        Some (rebatch (int (length items))
                (single_answer sim (rnd (gw_draws (bq_world b) + k)) (snd (items ! k))))"
proof -
  let ?g = "bq_world b" and ?ps = "map snd items"
  have s: "\<forall>p \<in> set ?ps. servable sim p" using assms(3) by auto
  have "\<exists>g'. run_batch sim rnd ?ps ?g =
      (Inr (), map (\<lambda>i. Some (rebatch (int (length ?ps)) (single_answer sim (rnd (gw_draws ?g + i)) (?ps ! i))))
         [0..<length ?ps], g') \<and> gw_draws g' = gw_draws ?g + length ?ps"
  proof (cases "2 \<le> length ?ps")
    case True
    from run_batch_servable [OF this s assms(4)] show ?thesis .
  next
    case False
    with assms(2) obtain p where p: "?ps = [p]" by (cases items) (auto simp: Suc_le_eq)
    with s run_single_answer [of sim rnd p ?g] run_single_draws [OF _ assms(4), of p rnd ?g]
    show ?thesis unfolding p by (auto simp: run_batch_def rebatch_one Let_def split: prod.splits)
  qed
  then obtain g' where g':
    "run_batch sim rnd ?ps ?g =
      (Inr (), map (\<lambda>i. Some (rebatch (int (length ?ps)) (single_answer sim (rnd (gw_draws ?g + i)) (?ps ! i))))
         [0..<length ?ps], g')" "gw_draws g' = gw_draws ?g + length ?ps"
    by blast
  then show "bq_task (flush_run sim rnd items b) = TaskWaiting"
    "gw_draws (bq_world (flush_run sim rnd items b)) = gw_draws (bq_world b) + length items"
    by (simp_all add: flush_run_def)
  show "bq_results (flush_run sim rnd items b) (fst (items ! k)) =
      Some (rebatch (int (length items))
        (single_answer sim (rnd (gw_draws (bq_world b) + k)) (snd (items ! k))))"
    if "k < length items"
    using that assms(1) by (simp add: flush_run_def g' set_futures_all)
qed

subsection \<open>A queued request has a task\<close>

definition task_alive :: "batcher \<Rightarrow> bool" where
  "task_alive b \<longleftrightarrow> (case bq_task b of TaskWaiting \<Rightarrow> True | TaskBusy _ \<Rightarrow> True | _ \<Rightarrow> False)"

text \<open>
  The flush task has just died: the last thing that happened is that a batch with a request that is not
  well-formed raised. No request has arrived since.
\<close>

definition died :: "gpu_sim \<Rightarrow> (nat \<Rightarrow> rat) \<Rightarrow> batcher \<Rightarrow> bool" where
  "died sim rnd b \<longleftrightarrow>
     (\<exists>b0 items e. (batch_step sim rnd)\<^sup>*\<^sup>* batcher_init b0 \<and> bq_task b0 = TaskBusy items \<and>
        fst (run_batch sim rnd (map snd items) (bq_world b0)) = Inl e \<and>
        (\<exists>(i, p) \<in> set items. \<not> servable sim p) \<and> b = flush_run sim rnd items b0)"

lemma enqueue_alive: "task_alive (enqueue sim p b)"
  by (cases "bq_task b") (simp_all add: task_alive_def enqueue_def Let_def)

lemma dead_died:
  assumes "(batch_step sim rnd)\<^sup>*\<^sup>* batcher_init b" "bq_task b = TaskDead"
    and "1 \<le> sim_batch_size sim" "0 \<le> sim_batch_overhead_ms sim"
  shows "died sim rnd b"
  using assms(1)
proof (cases rule: rtranclp.cases)
  case rtrancl_refl
  with assms(2) show ?thesis by (simp add: batcher_init_def)
next
  case (rtrancl_into_rtrancl b0)
  from rtrancl_into_rtrancl(2) show ?thesis
  proof cases
    case (enqueue p)
    with enqueue_alive [of sim p b0] assms(2) show ?thesis by (simp add: task_alive_def)
  next
    case wake
    with assms(2) show ?thesis by (simp add: flush_wake_def Let_def split: if_splits)
  next
    case (run items)
    have "batch_ok sim b0"
      using batching.inv_steps [OF rtrancl_into_rtrancl(1)] batcher_init_ok assms(3) by blast
    then have items: "distinct (map fst items)" "items \<noteq> []" using run(2) by (simp_all add: batch_ok_def)
    have "\<exists>(i, p) \<in> set items. \<not> servable sim p"
    proof (rule ccontr)
      assume "\<not> (\<exists>(i, p) \<in> set items. \<not> servable sim p)"
      then have "bq_task b = TaskWaiting"
        using flush_run_servable(1) [OF items _ assms(4)] run(1) by blast
      with assms(2) show False by simp
    qed
    moreover have "\<exists>e. fst (run_batch sim rnd (map snd items) (bq_world b0)) = Inl e"
      using assms(2) run(1) by (auto simp: flush_run_def split: prod.splits sum.splits)
    ultimately show ?thesis using run rtrancl_into_rtrancl(1) unfolding died_def by blast
  qed
qed

text \<open>
  C22: In every state the batching queue can reach, whatever arrives and whatever the payloads are: the
  queue holds the latest requests in arrival order, a running batch has between one request and the
  configured number, all distinct and unanswered, no request is answered while it is still queued,
  and a full batch in the queue has set the wake-up event. While something is queued a live flush task
  exists, except right after a batch with a request that is not well-formed has killed it; and whatever
  arrives next, in any state, has a live task again.
\<close>

theorem batcher_invariant:
  assumes "(batch_step (gpu_init c) rnd)\<^sup>*\<^sup>* batcher_init b"
  shows "batch_ok (gpu_init c) b
    \<and> (bq_queue b \<noteq> [] \<longrightarrow> task_alive b \<or> died (gpu_init c) rnd b)
    \<and> (\<forall>p. task_alive (enqueue (gpu_init c) p b))"
proof -
  have ok: "batch_ok (gpu_init c) b"
    using batching.inv_steps [OF assms] batcher_init_ok gpu_init_batch_size by blast
  moreover have "died (gpu_init c) rnd b" if "bq_task b = TaskDead"
    using dead_died [OF assms that gpu_init_batch_size] by (simp add: gpu_init_def)
  then have "task_alive b \<or> died (gpu_init c) rnd b" if "bq_queue b \<noteq> []"
    using that ok by (cases "bq_task b") (auto simp: batch_ok_def task_alive_def)
  ultimately show ?thesis by (simp add: enqueue_alive)
qed

theorem batcher_invariant_witness:
  "batch_ok (gpu_init sample_gpu) (enqueue (gpu_init sample_gpu) PNone batcher_init)
   \<and> task_alive (enqueue (gpu_init sample_gpu) PNone (enqueue (gpu_init sample_gpu) PNone batcher_init))"
  using batcher_invariant [where rnd = sample_draws,
      OF r_into_rtranclp [of "batch_step (gpu_init sample_gpu) sample_draws", OF batch_step.enqueue], of PNone]
  by blast

subsection \<open>The flush loop serves the queue\<close>

lemma flush_run_simps [simp]:
  "bq_queue (flush_run sim rnd items b) = bq_queue b"
  "bq_next (flush_run sim rnd items b) = bq_next b"
  by (simp_all add: flush_run_def split: prod.splits)

lemma flush_run_other:
  "i \<notin> set (map fst items) \<Longrightarrow> bq_results (flush_run sim rnd items b) i = bq_results b i"
  by (simp add: flush_run_def set_futures_other split: prod.splits)

text \<open>A result that is set is never set again.\<close>

lemma batch_step_keeps:
  assumes "batch_step sim rnd b b'" "batch_ok sim b" "bq_results b i = Some r"
  shows "bq_results b' i = Some r"
  using assms(1)
proof cases
  case (run items)
  with assms(2,3) have "i \<notin> set (map fst items)" by (auto simp: batch_ok_def)
  with run assms(3) show ?thesis by (simp add: flush_run_other)
qed (use assms(3) in \<open>auto simp: enqueue_def flush_wake_def Let_def\<close>)

definition served :: "gpu_sim \<Rightarrow> (nat \<Rightarrow> rat) \<Rightarrow> nat \<Rightarrow> (nat \<times> pyval) list \<Rightarrow> batcher \<Rightarrow> bool" where
  "served sim rnd d q b \<longleftrightarrow>
     (\<forall>k < length q. \<exists>m. 1 \<le> m \<and> m \<le> sim_batch_size sim \<and>
        bq_results b (fst (q ! k)) =
          Some (rebatch m (single_answer sim (rnd (d + k)) (snd (q ! k)))))"

lemma served_append:
  assumes "served sim rnd d xs b" "served sim rnd (d + length xs) ys b"
  shows "served sim rnd d (xs @ ys) b"
  unfolding served_def
proof (intro allI impI)
  fix k assume k: "k < length (xs @ ys)"
  show "\<exists>m. 1 \<le> m \<and> m \<le> sim_batch_size sim \<and>
      bq_results b (fst ((xs @ ys) ! k)) =
        Some (rebatch m (single_answer sim (rnd (d + k)) (snd ((xs @ ys) ! k))))"
  proof (cases "k < length xs")
    case True
    with assms(1) show ?thesis by (auto simp: served_def nth_append)
  next
    case False
    define j where "j = k - length xs"
    with False k have j: "k = length xs + j" "j < length ys" by auto
    with assms(2) show ?thesis by (auto simp: served_def add.assoc)
  qed
qed

lemma served_keep:
  "served sim rnd d q b \<Longrightarrow> (\<And>i r. bq_results b i = Some r \<Longrightarrow> bq_results b' i = Some r)
     \<Longrightarrow> served sim rnd d q b'"
  unfolding served_def by meson

lemma flush_rounds_keeps:
  assumes "batch_ok sim b" "1 \<le> sim_batch_size sim" "bq_results b i = Some r"
  shows "bq_results (flush_rounds sim rnd n b) i = Some r"
  using assms(1,3)
proof (induction n arbitrary: b)
  case (Suc n)
  have ok: "batch_ok sim (flush_wake sim b)" using Suc.prems(1) assms(2) by (rule flush_wake_ok)
  have kept: "bq_results (flush_wake sim b) i = Some r"
    using Suc.prems(2) by (simp add: flush_wake_def Let_def)
  show ?case
  proof (cases "bq_task (flush_wake sim b)")
    case (TaskBusy items)
    note step = batch_step.run [where sim = sim and rnd = rnd, OF TaskBusy]
    have "bq_results (flush_run sim rnd items (flush_wake sim b)) i = Some r"
      using batch_step_keeps [OF step ok kept] .
    with Suc.IH flush_run_ok [OF ok TaskBusy] TaskBusy show ?thesis by simp
  qed (simp_all add: kept)
qed simp

lemma flush_rounds_serve:
  assumes "batch_ok sim b" "1 \<le> sim_batch_size sim" "0 \<le> sim_batch_overhead_ms sim"
    and "bq_task b = TaskWaiting" "\<forall>(i, p) \<in> set (bq_queue b). servable sim p"
    and "length (bq_queue b) \<le> n"
  shows "bq_queue (flush_rounds sim rnd (Suc n) b) = []"
    and "bq_task (flush_rounds sim rnd (Suc n) b) = TaskNone"
    and "served sim rnd (gw_draws (bq_world b)) (bq_queue b) (flush_rounds sim rnd (Suc n) b)"
  using assms(1,4,5,6)
proof (atomize (full), induction n arbitrary: b)
  case 0
  then show ?case by (simp add: flush_wake_def Let_def served_def)
next
  case (Suc n)
  show ?case
  proof (cases "bq_queue b = []")
    case True
    then show ?thesis by (simp add: flush_wake_def Let_def served_def)
  next
    case False
    let ?N = "nat (sim_batch_size sim)" and ?q = "bq_queue b"
    let ?items = "take ?N ?q" and ?b1 = "flush_wake sim b"
    let ?b2 = "flush_run sim rnd ?items ?b1"
    let ?d = "gw_draws (bq_world b)"
    have b1: "bq_task ?b1 = TaskBusy ?items" "bq_queue ?b1 = drop ?N ?q" "bq_world ?b1 = bq_world b"
      using False by (simp_all add: flush_wake_def Let_def)
    have ok1: "batch_ok sim ?b1" using Suc.prems(1) assms(2) by (rule flush_wake_ok)
    have ok2: "batch_ok sim ?b2" using ok1 b1(1) by (rule flush_run_ok)
    have items: "distinct (map fst ?items)" "?items \<noteq> []" "\<forall>(i, p) \<in> set ?items. servable sim p"
      using ok1 b1(1) Suc.prems(3) by (auto simp: batch_ok_def dest: in_set_takeD)
    note run = flush_run_servable [OF items assms(3), where rnd = rnd and b = ?b1, unfolded b1(3)]
    have IH: "bq_queue (flush_rounds sim rnd (Suc n) ?b2) = [] \<and>
        bq_task (flush_rounds sim rnd (Suc n) ?b2) = TaskNone \<and>
        served sim rnd (gw_draws (bq_world ?b2)) (bq_queue ?b2) (flush_rounds sim rnd (Suc n) ?b2)"
    proof (rule Suc.IH [OF ok2 run(1)])
      show "\<forall>(i, p) \<in> set (bq_queue ?b2). servable sim p"
        using Suc.prems(3) by (auto simp: b1(2) dest: in_set_dropD)
      show "length (bq_queue ?b2) \<le> n" using Suc.prems(4) assms(2) by (simp add: b1(2))
    qed
    have "1 \<le> length ?items" "int (length ?items) \<le> sim_batch_size sim"
      using False assms(2) by (auto simp: Suc_le_eq)
    then have "served sim rnd ?d ?items ?b2"
      using run(3) unfolding served_def by (intro allI impI exI [of _ "int (length ?items)"]) auto
    then have first: "served sim rnd ?d ?items (flush_rounds sim rnd (Suc n) ?b2)"
      using flush_rounds_keeps [OF ok2 assms(2)] by (rule served_keep)
    have "served sim rnd ?d (?items @ drop ?N ?q) (flush_rounds sim rnd (Suc n) ?b2)"
      using first IH by (intro served_append) (simp_all add: run(2) b1(2))
    moreover have "flush_rounds sim rnd (Suc (Suc n)) b = flush_rounds sim rnd (Suc n) ?b2"
      using b1(1) by simp
    ultimately show ?thesis using IH by simp
  qed
qed

text \<open>
  C21: Whatever has happened before, a flush task that waits on a queue of well-formed requests answers
  all of them: one more round than queued requests suffices to empty the queue and end the task, and
  the request at position \<open>k\<close> has the answer a run on its own would give with the \<open>k\<close>-th next draw, in a
  batch of at least one and at most the configured number of requests.
\<close>

theorem flush_loop_serves:
  assumes "(batch_step (gpu_init c) rnd)\<^sup>*\<^sup>* batcher_init b" "bq_task b = TaskWaiting"
    and "\<forall>(i, p) \<in> set (bq_queue b). servable (gpu_init c) p"
    and "b' = flush_rounds (gpu_init c) rnd (Suc (length (bq_queue b))) b"
  shows "bq_queue b' = [] \<and> bq_task b' = TaskNone \<and>
         served (gpu_init c) rnd (gw_draws (bq_world b)) (bq_queue b) b'"
proof -
  have ok: "batch_ok (gpu_init c) b"
    using batching.inv_steps [OF assms(1)] batcher_init_ok gpu_init_batch_size by blast
  have "0 \<le> sim_batch_overhead_ms (gpu_init c)" by (simp add: gpu_init_def)
  from flush_rounds_serve [OF ok gpu_init_batch_size this assms(2,3) order_refl]
  show ?thesis unfolding assms(4) by blast
qed

definition sample_batcher :: batcher where
  "sample_batcher =
     enqueue (gpu_init sample_gpu) (sample_requests ! 1)
       (enqueue (gpu_init sample_gpu) (sample_requests ! 0) batcher_init)"

lemma sample_batcher_reachable:
  "(batch_step (gpu_init sample_gpu) sample_draws)\<^sup>*\<^sup>* batcher_init sample_batcher"
  unfolding sample_batcher_def
  by (rule rtranclp.rtrancl_into_rtrancl, rule r_into_rtranclp) (rule batch_step.enqueue)+

lemma sample_batcher_simps:
  "bq_queue sample_batcher = [(0, sample_requests ! 0), (1, sample_requests ! 1)]"
  "bq_task sample_batcher = TaskWaiting"
  "gw_draws (bq_world sample_batcher) = 0"
  by (simp_all add: sample_batcher_def enqueue_def batcher_init_def gpu_idle_def Let_def)

theorem flush_loop_serves_witness:
  "bq_task (flush_rounds (gpu_init sample_gpu) sample_draws 3 sample_batcher) = TaskNone \<and>
   served (gpu_init sample_gpu) sample_draws 0 [(0, sample_requests ! 0), (1, sample_requests ! 1)]
     (flush_rounds (gpu_init sample_gpu) sample_draws 3 sample_batcher)"
proof -
  have "\<forall>(i, p) \<in> set (bq_queue sample_batcher). servable (gpu_init sample_gpu) p"
    using sample_requests_servable by (simp add: sample_batcher_simps sample_requests_def)
  from flush_loop_serves [OF sample_batcher_reachable sample_batcher_simps(2) this refl]
  show ?thesis by (simp add: sample_batcher_simps numeral_3_eq_3 del: flush_rounds.simps)
qed

subsection \<open>A request that breaks its batch\<close>

text \<open>
  A payload whose options are no dict, or whose content has no length while nothing makes it fail
  before: served alone, it is answered with an exception.
\<close>

definition rejected :: "gpu_sim \<Rightarrow> pyval \<Rightarrow> bool" where
  "rejected sim p \<longleftrightarrow>
     (case failure_rate_of sim p of
        Inl _ \<Rightarrow> True
      | Inr rate \<Rightarrow> rate = 0 \<and> (case bind_res (content_of p) py_len of Inl _ \<Rightarrow> True | Inr _ \<Rightarrow> False))"

lemma build_result_rejected:
  assumes "rejected sim p" "failure_rate_of sim p = Inr rate"
  shows "rate = 0" "\<exists>e. build_result sim p l n = Inl e"
  using assms by (auto simp: rejected_def build_result_def split: sum.splits)

lemma single_answer_rejected:
  assumes "rejected sim p" "0 \<le> draw"
  shows "\<exists>e. single_answer sim draw p = Inl e"
  using build_result_rejected [OF assms(1)] assms(2)
  by (auto simp: single_answer_def run_single_def single_body_def should_fail_def Let_def
        split: sum.splits prod.splits bool.splits)

lemma finalize_items_rejected:
  assumes "\<forall>n. 0 \<le> rnd n" "k < length items" "rejected sim (fst (items ! k))"
  shows "\<exists>e os g'. finalize_items sim rnd bsz items g = (Inl e, os, g') \<and>
           length os = length items \<and> drop k os = replicate (length items - k) None"
  using assms(2,3)
proof (induction items arbitrary: k g)
  case (Cons a items)
  obtain p l where a: "a = (p, l)" by (cases a)
  obtain r g1 where fail: "should_fail sim rnd p g = (r, g1)" by (cases "should_fail sim rnd p g")
  show ?case
  proof (cases k)
    case 0
    with Cons.prems a have p: "rejected sim p" by simp
    have "\<exists>e. r = Inl e \<or> r = Inr False \<and> build_result sim p l bsz = Inl e"
      using fail build_result_rejected [OF p] assms(1) leD
      by (fastforce simp: should_fail_def split: sum.splits)
    then show ?thesis using 0 a fail by auto
  next
    case (Suc k')
    with Cons.prems have k': "k' < length items" "rejected sim (fst (items ! k'))" by auto
    note IH = Cons.IH [OF k']
    show ?thesis
      using fail a Suc IH [of g1] IH [of "gw_count INFERENCE_SIMULATED_FAILURE_TOTAL 1 g1"]
      by (auto split: sum.splits bool.splits)
  qed
qed simp

lemma resolve_all_length: "resolve_all sim ps = Inr ls \<Longrightarrow> length ls = length ps"
  by (induction ps arbitrary: ls) auto

lemma run_batch_rejected:
  assumes "\<forall>n. 0 \<le> rnd n" "2 \<le> length ps" "k < length ps" "rejected sim (ps ! k)"
  shows "\<exists>e os g'. run_batch sim rnd ps g = (Inl e, os, g') \<and>
           length os = length ps \<and> drop k os = replicate (length ps - k) None"
proof -
  have "\<exists>e os g'. batch_body sim rnd ps g1 = (Inl e, os, g') \<and>
      length os = length ps \<and> drop k os = replicate (length ps - k) None" for g1
  proof -
    have "k < length (zip ps ls) \<and> rejected sim (fst (zip ps ls ! k))" if "length ls = length ps" for ls
      using that assms by simp
    note items = finalize_items_rejected [OF assms(1) conjunct1 [OF this] conjunct2 [OF this]]
    have fin: "\<exists>e os g'. finalize_items sim rnd n (zip ps ls) g2 = (Inl e, os, g') \<and>
        length os = length ps \<and> drop k os = replicate (length ps - k) None"
      if "resolve_all sim ps = Inr ls" for ls n g2
      using items [OF resolve_all_length [OF that] resolve_all_length [OF that], of n g2]
        resolve_all_length [OF that] by simp
    then show ?thesis
      by (auto simp: batch_body_def split: sum.splits)
  qed
  then show ?thesis
    using run_batch_many [OF assms(2), of g sim rnd] by (metis (no_types, lifting) case_prod_conv)
qed

lemma set_futures_none:
  assumes "distinct (map fst items)" "length os = length items" "j < length items" "os ! j = None"
  shows "set_futures items os m (fst (items ! j)) = m (fst (items ! j))"
  using assms
proof (induction items os m arbitrary: j rule: set_futures.induct)
  case (1 i p items r os m)
  then obtain j' where j: "j = Suc j'" "j' < length items" "os ! j' = None" by (cases j) auto
  with 1 have "fst (items ! j') \<noteq> i" by (metis distinct.simps(2) fst_conv length_map list.simps(9) nth_map nth_mem)
  with 1 j "1.IH" [of j'] show ?case by (simp del: fun_upd_apply add: fun_upd_other)
next
  case (2 x items os m)
  then show ?case by (cases j) (auto simp: set_futures_other)
qed auto

text \<open>A request that has left the queue without an answer and is in no running batch stays so.\<close>

definition abandoned :: "nat \<Rightarrow> batcher \<Rightarrow> bool" where
  "abandoned i b \<longleftrightarrow>
     i < taken b \<and> bq_results b i = None \<and>
     (case bq_task b of TaskBusy items \<Rightarrow> i \<notin> set (map fst items) | _ \<Rightarrow> True)"

lemma abandoned_step:
  assumes "1 \<le> sim_batch_size sim" "batch_step sim rnd b b'" "batch_ok sim b" "abandoned i b"
  shows "abandoned i b'"
  using assms(2)
proof cases
  case (enqueue payload)
  with assms(4) show ?thesis
    by (auto simp: abandoned_def taken_def enqueue_def Let_def split: flush_task.splits)
next
  case wake
  have "set (map fst (bq_queue b)) = {taken b..<bq_next b}"
    using assms(3) by (metis batch_ok_def set_upt)
  with assms(4) have "i \<notin> set (map fst (bq_queue b))" by (simp add: abandoned_def)
  then have "i \<notin> set (map fst (take n (bq_queue b)))" for n by (auto dest: in_set_takeD)
  with wake assms(4) taken_wake [OF assms(3)] show ?thesis
    by (auto simp: abandoned_def flush_wake_def Let_def)
next
  case (run items)
  with assms(4) show ?thesis
    by (auto simp: abandoned_def flush_run_other flush_run_def set_futures_other taken_def
          split: prod.splits sum.splits)
qed

interpretation abandonment: invariant_system "batch_step sim rnd"
  "\<lambda>b. 1 \<le> sim_batch_size sim \<and> batch_ok sim b \<and> abandoned i b" for sim rnd i
  by unfold_locales (auto intro: batch_step_ok abandoned_step)

text \<open>
  C26: One request whose payload the simulator cannot read (options that are no dict, or a content without
  a length such as a number), batched with at least one other, kills the flush task in the middle
  of the batch: that request and every later one of the batch is never answered, in no state that can
  follow, although the same payload served alone is answered with an exception.
\<close>

theorem rejected_request_strands_batch:
  assumes "(batch_step (gpu_init c) rnd)\<^sup>*\<^sup>* batcher_init b" "bq_task b = TaskBusy items"
    and "2 \<le> length items" "\<forall>n. 0 \<le> rnd n"
    and "k \<le> j" "j < length items" "rejected (gpu_init c) (snd (items ! k))"
    and "b1 = flush_run (gpu_init c) rnd items b" "(batch_step (gpu_init c) rnd)\<^sup>*\<^sup>* b1 b2"
  shows "bq_task b1 = TaskDead \<and> bq_results b2 (fst (items ! j)) = None \<and>
         (\<exists>e. single_answer (gpu_init c) (rnd n) (snd (items ! k)) = Inl e)"
proof -
  let ?sim = "gpu_init c" and ?i = "fst (items ! j)"
  have ok: "batch_ok ?sim b"
    using batching.inv_steps [OF assms(1)] batcher_init_ok gpu_init_batch_size by blast
  then have d: "distinct (map fst items)" and i: "?i < taken b" "bq_results b ?i = None"
    using assms(2,6) by (auto simp: batch_ok_def)
  have "k < length (map snd items)" "rejected ?sim (map snd items ! k)" "2 \<le> length (map snd items)"
    using assms(3,5-7) by auto
  from run_batch_rejected [OF assms(4) this(3,1,2), of "bq_world b"]
  obtain e os g' where run: "run_batch ?sim rnd (map snd items) (bq_world b) = (Inl e, os, g')"
    and os: "length os = length items" "drop k os = replicate (length items - k) None" by auto
  have "os ! j = drop k os ! (j - k)" using assms(5,6) os(1) by simp
  also have "\<dots> = None" unfolding os(2) using assms(5,6) by simp
  finally have none: "os ! j = None" .
  have dead: "bq_task b1 = TaskDead" by (simp add: assms(8) flush_run_def run)
  have "abandoned ?i b1"
    using i dead set_futures_none [OF d os(1) assms(6) none, of "bq_results b"]
    by (simp add: abandoned_def assms(8) flush_run_def run taken_def)
  then have "abandoned ?i b2"
    using abandonment.inv_steps [OF assms(9)] flush_run_ok [OF ok assms(2)] gpu_init_batch_size
    by (auto simp: assms(8))
  then have "bq_results b2 ?i = None" by (simp add: abandoned_def)
  moreover have "\<exists>e. single_answer ?sim (rnd n) (snd (items ! k)) = Inl e"
    using assms(7) single_answer_rejected assms(4) by blast
  ultimately show ?thesis using dead by blast
qed

definition sample_number_request :: pyval where
  "sample_number_request =
     PDict [(''input'', PDict [(''content'', PInt 5)]),
            (''options'', PDict [(''simulate_inference_failure_rate'', PInt 0)])]"

definition sample_poisoned :: batcher where
  "sample_poisoned =
     flush_wake (gpu_init sample_gpu)
       (enqueue (gpu_init sample_gpu) (sample_requests ! 1)
         (enqueue (gpu_init sample_gpu) sample_number_request batcher_init))"

lemma sample_poisoned_simps:
  "bq_task sample_poisoned = TaskBusy [(0, sample_number_request), (1, sample_requests ! 1)]"
  by (simp add: sample_poisoned_def flush_wake_def enqueue_def batcher_init_def gpu_init_def
        sample_gpu_def Let_def)

lemma sample_poisoned_reachable:
  "(batch_step (gpu_init sample_gpu) sample_draws)\<^sup>*\<^sup>* batcher_init sample_poisoned"
  unfolding sample_poisoned_def
proof (rule rtranclp.rtrancl_into_rtrancl)
  show "(batch_step (gpu_init sample_gpu) sample_draws)\<^sup>*\<^sup>* batcher_init
      (enqueue (gpu_init sample_gpu) (sample_requests ! 1)
        (enqueue (gpu_init sample_gpu) sample_number_request batcher_init))"
    by (rule rtranclp.rtrancl_into_rtrancl, rule r_into_rtranclp) (rule batch_step.enqueue)+
qed (rule batch_step.wake, simp add: enqueue_def batcher_init_def Let_def)

theorem rejected_request_strands_batch_witness:
  "let b1 = flush_run (gpu_init sample_gpu) sample_draws
        [(0, sample_number_request), (1, sample_requests ! 1)] sample_poisoned
   in bq_task b1 = TaskDead \<and>
      bq_results (flush_wake (gpu_init sample_gpu) (enqueue (gpu_init sample_gpu) (sample_requests ! 0) b1)) 1
        = None"
proof -
  let ?sim = "gpu_init sample_gpu"
  define b1 where b1: "b1 = flush_run ?sim sample_draws
        [(0, sample_number_request), (1, sample_requests ! 1)] sample_poisoned"
  have rej: "rejected ?sim sample_number_request"
    by (simp add: rejected_def failure_rate_of_def content_of_def sample_number_request_def
          float_of_int_def float_limit_def clamp01_def)
  have draws: "\<forall>n. 0 \<le> sample_draws n" by (simp add: sample_draws_def)
  note strands = rejected_request_strands_batch
    [OF sample_poisoned_reachable sample_poisoned_simps _ draws _ _ _ b1, where k = 0 and j = 1]
  have dead: "bq_task b1 = TaskDead" using strands [OF _ _ _ _ rtranclp.rtrancl_refl] rej by simp
  then have "bq_task (enqueue ?sim (sample_requests ! 0) b1) = TaskWaiting"
    by (simp add: enqueue_def Let_def)
  then have "(batch_step ?sim sample_draws)\<^sup>*\<^sup>* b1
      (flush_wake ?sim (enqueue ?sim (sample_requests ! 0) b1))"
    by (meson batch_step.enqueue batch_step.wake converse_rtranclp_into_rtranclp r_into_rtranclp)
  from strands [OF _ _ _ _ this] rej dead show ?thesis unfolding b1 [symmetric] Let_def by simp
qed

end
