(* ===== verification/Runner.thy ===== *)
theory Runner
  imports Config
begin

section \<open>The consumer loop\<close>

text \<open>
  \<open>app/workers/runner.py\<close>: headers of a message, the back-off, the handling of one message with
  its retry and dead-letter branches, the walk through a partition's batch, pausing and resuming
  of partitions, and the loop. The aiokafka consumer is not part of the repository: what it
  delivers is a parameter, and the calls the loop makes on it are recorded in order. The role's
  handler is a parameter of these definitions; \<open>role_handle_event\<close> is what it is instantiated
  with. Spans and log lines are left out, except that the job id of a log line is read from the
  value with \<open>.get\<close>, which can raise.
\<close>

subsection \<open>Messages and headers\<close>

record ConsumerRecord =
  m_topic :: string
  m_partition :: int
  m_offset :: int
  m_value :: pyval
  m_headers :: "(string \<times> string option) list option"

definition RETRY_COUNT_HEADER :: string where "RETRY_COUNT_HEADER = ''retry-count''"
definition ERROR_REASON_HEADER :: string where "ERROR_REASON_HEADER = ''error-reason''"
definition ORIGINAL_TOPIC_HEADER :: string where "ORIGINAL_TOPIC_HEADER = ''original-topic''"
definition RETRY_AT_HEADER :: string where "RETRY_AT_HEADER = ''retry-at''"

fun decode_into :: "headers \<Rightarrow> (string \<times> string option) list \<Rightarrow> headers" where
  "decode_into decoded [] = decoded"
| "decode_into decoded ((key, value) # rest) =
     (case value of
        None \<Rightarrow> decode_into decoded rest
      | Some v \<Rightarrow> decode_into (dict_set key (utf8_decode v) decoded) rest)"

definition decode_headers :: "(string \<times> string option) list option \<Rightarrow> headers" where
  "decode_headers hs = (case hs of None \<Rightarrow> [] | Some l \<Rightarrow> decode_into [] l)"

definition header_or :: "headers \<Rightarrow> string \<Rightarrow> string \<Rightarrow> string" where
  "header_or hs k dflt = (case map_of hs k of None \<Rightarrow> dflt | Some v \<Rightarrow> v)"

definition parse_retry_count :: "headers \<Rightarrow> int" where
  "parse_retry_count hs =
     (case py_int (header_or hs RETRY_COUNT_HEADER ''0'') of None \<Rightarrow> 0 | Some n \<Rightarrow> max 0 n)"

definition retry_due_at :: "headers \<Rightarrow> int" where
  "retry_due_at hs =
     (case map_of hs RETRY_AT_HEADER of
        None \<Rightarrow> 0
      | Some raw \<Rightarrow> (case py_int raw of None \<Rightarrow> 0 | Some n \<Rightarrow> n))"

definition compute_retry_backoff_seconds :: "int \<Rightarrow> rat \<Rightarrow> rat \<Rightarrow> rat \<Rightarrow> rat res" where
  "compute_retry_backoff_seconds retry_count base multiplier max_seconds =
     bind_res (float_pow multiplier (nat (max 1 retry_count - 1))) (\<lambda>p.
       Inr (min (base * p) max_seconds))"

definition now_ms :: "externals \<Rightarrow> world \<Rightarrow> int \<times> world" where
  "now_ms ext w = (clock_ms ext (clock_reads w), w\<lparr>clock_reads := Suc (clock_reads w)\<rparr>)"

subsection \<open>One message\<close>

text \<open>The topics of a worker.\<close>

record topics =
  consume_topic :: string
  retry_topic :: string

definition error_reason :: "string option \<Rightarrow> string" where
  "error_reason err =
     py_strip (case err of None \<Rightarrow> ''unknown processing error''
               | Some e \<Rightarrow> if e = [] then ''unknown processing error'' else e)"

text \<open>The \<open>message.value.get("job_id")\<close> of the log line after a publication.\<close>

definition log_job_id :: "pyval \<Rightarrow> unit res" where
  "log_job_id v = bind_res (py_get v ''job_id'' PNone) (\<lambda>_. Inr ())"

definition publish_retry ::
  "externals \<Rightarrow> Settings \<Rightarrow> topics \<Rightarrow> ConsumerRecord \<Rightarrow> int \<Rightarrow> string \<Rightarrow> string \<Rightarrow> world
     \<Rightarrow> unit res \<times> world" where
  "publish_retry ext cfg tps m retry_count original_topic reason w =
     (case compute_retry_backoff_seconds (retry_count + 1) (retry_backoff_seconds cfg)
             (retry_backoff_multiplier cfg) (retry_backoff_max_seconds cfg) of
        Inl e \<Rightarrow> (Inl e, w)
      | Inr delay_seconds \<Rightarrow>
          (let (now, w1) = now_ms ext w;
               hs = [(RETRY_COUNT_HEADER, str_int (retry_count + 1)),
                     (ORIGINAL_TOPIC_HEADER, original_topic),
                     (ERROR_REASON_HEADER, reason),
                     (RETRY_AT_HEADER, str_int (now + float_int (delay_seconds * 1000)))]
           in case publish ext (retry_topic tps) (m_value m) (Some hs) w1 of
                (Inl e, w2) \<Rightarrow> (Inl e, w2)
              | (Inr _, w2) \<Rightarrow> (log_job_id (m_value m), count_metric RETRY_PUBLISHED_TOTAL 1 w2)))"

definition publish_dlq ::
  "externals \<Rightarrow> Settings \<Rightarrow> ConsumerRecord \<Rightarrow> int \<Rightarrow> string \<Rightarrow> string \<Rightarrow> world
     \<Rightarrow> unit res \<times> world" where
  "publish_dlq ext cfg m retry_count original_topic reason w =
     (let hs = [(RETRY_COUNT_HEADER, str_int retry_count),
                (ORIGINAL_TOPIC_HEADER, original_topic),
                (ERROR_REASON_HEADER, reason)]
      in case publish ext (kafka_dlq_topic cfg) (m_value m) (Some hs) w of
           (Inl e, w1) \<Rightarrow> (Inl e, w1)
         | (Inr _, w1) \<Rightarrow> (log_job_id (m_value m), count_metric DLQ_MESSAGES_TOTAL 1 w1))"

definition skipped :: "topics \<Rightarrow> ConsumerRecord \<Rightarrow> bool" where
  "skipped tps m \<longleftrightarrow>
     m_topic m = retry_topic tps
     \<and> header_or (decode_headers (m_headers m)) ORIGINAL_TOPIC_HEADER (consume_topic tps)
         \<noteq> consume_topic tps"

definition handle_message ::
  "externals \<Rightarrow> Settings \<Rightarrow> topics \<Rightarrow> (pyval \<Rightarrow> world \<Rightarrow> handled \<times> world) \<Rightarrow> ConsumerRecord \<Rightarrow> world
     \<Rightarrow> unit res \<times> world" where
  "handle_message ext cfg tps role m w =
     (let hs = decode_headers (m_headers m)
      in if skipped tps m then (Inr (), w)
         else
           (case role (m_value m) w of
              (Inl e, w1) \<Rightarrow> (Inl e, w1)
            | (Inr (True, _), w1) \<Rightarrow> (Inr (), w1)
            | (Inr (False, err), w1) \<Rightarrow>
                (let w2 = count_metric RETRY_FAILURE_TOTAL 1 w1;
                     retry_count = parse_retry_count hs;
                     original_topic = header_or hs ORIGINAL_TOPIC_HEADER (m_topic m);
                     reason = error_reason err
                 in if retry_count < retry_max_count cfg
                    then publish_retry ext cfg tps m retry_count original_topic reason w2
                    else publish_dlq ext cfg m retry_count original_topic reason w2)))"

subsection \<open>One partition\<close>

type_synonym topic_partition = "string \<times> int"

datatype consumer_call =
    Seek topic_partition int
  | Pause topic_partition
  | Resume topic_partition
  | CommitOffsets "(topic_partition \<times> int) list"

record run_state =
  rw :: world
  paused_until :: "(topic_partition \<times> int) list"
  calls :: "consumer_call list"

definition call :: "consumer_call \<Rightarrow> run_state \<Rightarrow> run_state" where
  "call c st = st\<lparr>calls := calls st @ [c]\<rparr>"

text \<open>
  The handler of a delivery: what surrounds it may differ from message to message, so it may
  depend on the record.
\<close>

type_synonym delivery = "ConsumerRecord \<Rightarrow> pyval \<Rightarrow> world \<Rightarrow> handled \<times> world"

text \<open>
  One turn of the loop over a partition's messages; the flag tells whether the loop goes on.
\<close>

definition handle_one ::
  "externals \<Rightarrow> Settings \<Rightarrow> topics \<Rightarrow> delivery \<Rightarrow> topic_partition \<Rightarrow> ConsumerRecord \<Rightarrow> run_state
     \<Rightarrow> bool \<times> run_state" where
  "handle_one ext cfg tps role tp m st =
     (case handle_message ext cfg tps (role m) m (rw st) of
        (Inl e, w) \<Rightarrow> (False, call (Seek tp (m_offset m)) (st\<lparr>rw := w\<rparr>))
      | (Inr _, w) \<Rightarrow> (True, st\<lparr>rw := w\<rparr>))"

definition consume_one ::
  "externals \<Rightarrow> Settings \<Rightarrow> topics \<Rightarrow> delivery \<Rightarrow> topic_partition \<Rightarrow> ConsumerRecord \<Rightarrow> run_state
     \<Rightarrow> bool \<times> run_state" where
  "consume_one ext cfg tps role tp m st =
     (if m_topic m = retry_topic tps then
        (let due_at = retry_due_at (decode_headers (m_headers m));
             (now, w) = now_ms ext (rw st)
         in if now < due_at then
              (False,
               (call (Pause tp) (call (Seek tp (m_offset m)) st))
                 \<lparr>paused_until := dict_set tp due_at (paused_until st),
                  rw := count_metric RETRY_DEFERRED_TOTAL 1 w\<rparr>)
            else handle_one ext cfg tps role tp m (st\<lparr>rw := w\<rparr>))
      else handle_one ext cfg tps role tp m st)"

fun consume_partition ::
  "externals \<Rightarrow> Settings \<Rightarrow> topics \<Rightarrow> delivery \<Rightarrow> topic_partition \<Rightarrow> ConsumerRecord list
     \<Rightarrow> int option \<Rightarrow> run_state \<Rightarrow> (topic_partition \<times> int option) \<times> run_state" where
  "consume_partition ext cfg tps role tp [] commit_offset st = ((tp, commit_offset), st)"
| "consume_partition ext cfg tps role tp (m # ms) commit_offset st =
     (case consume_one ext cfg tps role tp m st of
        (True, st') \<Rightarrow> consume_partition ext cfg tps role tp ms (Some (m_offset m + 1)) st'
      | (False, st') \<Rightarrow> ((tp, commit_offset), st'))"

subsection \<open>The loop\<close>

definition resume_due_partitions :: "externals \<Rightarrow> run_state \<Rightarrow> run_state" where
  "resume_due_partitions ext st =
     (if paused_until st = [] then st
      else
        (let (now, w) = now_ms ext (rw st);
             due = map fst (filter (\<lambda>(_, resume_at). resume_at \<le> now) (paused_until st))
         in foldl (\<lambda>s tp. call (Resume tp) (s\<lparr>paused_until := dict_pop tp (paused_until s)\<rparr>))
              (st\<lparr>rw := w\<rparr>) due))"

text \<open>
  The batch of a poll, partition by partition. Partitions run concurrently in the program; the
  loop's own text takes them in the order of the poll, and \<open>interleaved\<close> below is every order in
  which their turns may come.
\<close>

fun consume_all ::
  "externals \<Rightarrow> Settings \<Rightarrow> topics \<Rightarrow> delivery \<Rightarrow> (topic_partition \<times> ConsumerRecord list) list
     \<Rightarrow> run_state \<Rightarrow> (topic_partition \<times> int option) list \<times> run_state" where
  "consume_all ext cfg tps role [] st = ([], st)"
| "consume_all ext cfg tps role ((tp, ms) # rest) st =
     (let (r, st1) = consume_partition ext cfg tps role tp ms None st;
          (rs, st2) = consume_all ext cfg tps role rest st1
      in (r # rs, st2))"

fun commit_offsets :: "(topic_partition \<times> int option) list \<Rightarrow> (topic_partition \<times> int) list" where
  "commit_offsets [] = []"
| "commit_offsets ((tp, off) # rs) =
     (case off of None \<Rightarrow> commit_offsets rs | Some n \<Rightarrow> (tp, n) # commit_offsets rs)"

text \<open>
  One pass of \<open>run_worker\<close>'s loop over what \<open>getmany\<close> returned; \<open>commit_fault\<close> is the exception
  of the commit, which ends the loop.
\<close>

definition poll_pass ::
  "externals \<Rightarrow> Settings \<Rightarrow> topics \<Rightarrow> delivery \<Rightarrow> (topic_partition \<times> ConsumerRecord list) list
     \<Rightarrow> py_exc option \<Rightarrow> run_state \<Rightarrow> unit res \<times> run_state" where
  "poll_pass ext cfg tps role polled commit_fault st =
     (let st0 = resume_due_partitions ext st
      in if polled = [] then (Inr (), st0)
         else
           (let (results, st1) = consume_all ext cfg tps role polled st0;
                offsets = commit_offsets results
            in if offsets = [] then (Inr (), st1)
               else
                 (case commit_fault of
                    Some e \<Rightarrow> (Inl e, st1)
                  | None \<Rightarrow> (Inr (), call (CommitOffsets offsets) st1))))"

fun worker_loop ::
  "externals \<Rightarrow> Settings \<Rightarrow> topics
     \<Rightarrow> (delivery \<times> (topic_partition \<times> ConsumerRecord list) list \<times> py_exc option) list
     \<Rightarrow> run_state \<Rightarrow> unit res \<times> run_state" where
  "worker_loop ext cfg tps [] st = (Inr (), st)"
| "worker_loop ext cfg tps ((role, polled, fault) # rest) st =
     (case poll_pass ext cfg tps role polled fault st of
        (Inl e, st') \<Rightarrow> (Inl e, st')
      | (Inr _, st') \<Rightarrow> worker_loop ext cfg tps rest st')"

definition worker_topics :: "Settings \<Rightarrow> topics" where
  "worker_topics cfg =
     \<lparr>consume_topic = resolve_worker_topic cfg, retry_topic = resolve_worker_retry_topic cfg\<rparr>"

definition poll_limits :: "Settings \<Rightarrow> int \<times> int" where
  "poll_limits cfg =
     (if kafka_consumer_batch_enabled cfg
      then (max 1 (kafka_consumer_batch_max_records cfg), max 1 (kafka_consumer_batch_timeout_ms cfg))
      else (1, 1000))"

subsection \<open>Partitions: what is committed, where reading goes on\<close>

lemma call_sel [simp]:
  "rw (call c st) = rw st" "paused_until (call c st) = paused_until st"
  "calls (call c st) = calls st @ [c]"
  by (simp_all add: call_def)

lemma handle_one_True:
  "handle_one ext cfg tps role tp m st = (True, st') \<Longrightarrow>
     calls st' = calls st \<and> paused_until st' = paused_until st"
  by (auto simp: handle_one_def split: prod.splits sum.splits)

lemma handle_one_False:
  "handle_one ext cfg tps role tp m st = (False, st') \<Longrightarrow>
     calls st' = calls st @ [Seek tp (m_offset m)] \<and> paused_until st' = paused_until st"
  by (auto simp: handle_one_def split: prod.splits sum.splits)

text \<open>The message is on the retry topic and its time has not come.\<close>

definition not_due :: "externals \<Rightarrow> topics \<Rightarrow> ConsumerRecord \<Rightarrow> world \<Rightarrow> bool" where
  "not_due ext tps m w \<longleftrightarrow>
     m_topic m = retry_topic tps
     \<and> fst (now_ms ext w) < retry_due_at (decode_headers (m_headers m))"

lemma consume_one_True:
  assumes "consume_one ext cfg tps role tp m st = (True, st')"
  shows "calls st' = calls st \<and> paused_until st' = paused_until st"
  using assms
  by (auto simp: consume_one_def Let_def split: if_splits prod.splits dest: handle_one_True)

lemma consume_one_False:
  assumes "consume_one ext cfg tps role tp m st = (False, st')"
  shows "if not_due ext tps m (rw st)
         then calls st' = calls st @ [Seek tp (m_offset m), Pause tp]
              \<and> paused_until st' = dict_set tp (retry_due_at (decode_headers (m_headers m)))
                                     (paused_until st)
              \<and> wdb (rw st') = wdb (rw st) \<and> acked (rw st') = acked (rw st)
         else calls st' = calls st @ [Seek tp (m_offset m)] \<and> paused_until st' = paused_until st"
  using assms
  by (auto simp: consume_one_def Let_def not_due_def now_ms_def split: if_splits
           dest: handle_one_False)

text \<open>All messages are handled, in order; the result is the state after the last.\<close>

fun handle_all ::
  "externals \<Rightarrow> Settings \<Rightarrow> topics \<Rightarrow> delivery \<Rightarrow> topic_partition \<Rightarrow> ConsumerRecord list
     \<Rightarrow> run_state \<Rightarrow> run_state option" where
  "handle_all ext cfg tps role tp [] st = Some st"
| "handle_all ext cfg tps role tp (m # ms) st =
     (case consume_one ext cfg tps role tp m st of
        (True, st') \<Rightarrow> handle_all ext cfg tps role tp ms st'
      | (False, _) \<Rightarrow> None)"

definition offset_after :: "int option \<Rightarrow> ConsumerRecord list \<Rightarrow> int option" where
  "offset_after co ms = (if ms = [] then co else Some (m_offset (last ms) + 1))"

lemma offset_after_Cons: "offset_after (Some (m_offset m + 1)) ms = offset_after co (m # ms)"
  by (simp add: offset_after_def)

lemma consume_partition_split:
  obtains n stn where "n \<le> length ms"
    "handle_all ext cfg tps role tp (take n ms) st = Some stn"
    "calls stn = calls st" "paused_until stn = paused_until st"
    "n = length ms \<and> consume_partition ext cfg tps role tp ms co st
         = ((tp, offset_after co ms), stn)
     \<or> n < length ms \<and> (\<exists>st'. consume_one ext cfg tps role tp (ms ! n) stn = (False, st')
         \<and> consume_partition ext cfg tps role tp ms co st
             = ((tp, offset_after co (take n ms)), st'))"
proof (induction ms arbitrary: co st thesis)
  case Nil
  show ?case by (rule Nil [of 0 st]) (simp_all add: offset_after_def)
next
  case (Cons m ms)
  obtain b st1 where one: "consume_one ext cfg tps role tp m st = (b, st1)"
    by (cases "consume_one ext cfg tps role tp m st")
  show ?case
  proof (cases b)
    case False
    with one show ?thesis
      by (intro Cons.prems [of 0 st]) (simp_all add: offset_after_def)
  next
    case True
    with one have kept: "calls st1 = calls st" "paused_until st1 = paused_until st"
      by (auto dest: consume_one_True)
    show ?thesis
    proof (rule Cons.IH [of st1 "Some (m_offset m + 1)"])
      fix n stn
      assume "n \<le> length ms" "handle_all ext cfg tps role tp (take n ms) st1 = Some stn"
        "calls stn = calls st1" "paused_until stn = paused_until st1"
        "n = length ms \<and> consume_partition ext cfg tps role tp ms (Some (m_offset m + 1)) st1
           = ((tp, offset_after (Some (m_offset m + 1)) ms), stn)
         \<or> n < length ms \<and> (\<exists>st'. consume_one ext cfg tps role tp (ms ! n) stn = (False, st')
             \<and> consume_partition ext cfg tps role tp ms (Some (m_offset m + 1)) st1
                 = ((tp, offset_after (Some (m_offset m + 1)) (take n ms)), st'))"
      with one True kept show ?thesis
        by (intro Cons.prems [of "Suc n" stn]) (auto simp: offset_after_def)
    qed
  qed
qed

text \<open>
  A partition commits exactly its handled prefix. The messages before some position were all
  handled, in order, and the offset to commit is the one after them (none if there are none);
  either that is the whole batch and the consumer is left alone, or the next message was not
  handled and the consumer is set back to it, with the partition paused until the message's time
  if it is a retry that is not due.
\<close>

theorem partition_commits_prefix:
  "\<exists>n stn. let (r, st') = consume_partition ext cfg tps role tp ms None st in
     n \<le> length ms \<and> handle_all ext cfg tps role tp (take n ms) st = Some stn
     \<and> r = (tp, offset_after None (take n ms))
     \<and> (if n = length ms then st' = stn \<and> calls st' = calls st
        else if not_due ext tps (ms ! n) (rw stn)
        then calls st' = calls st @ [Seek tp (m_offset (ms ! n)), Pause tp]
             \<and> map_of (paused_until st') tp
                 = Some (retry_due_at (decode_headers (m_headers (ms ! n))))
        else calls st' = calls st @ [Seek tp (m_offset (ms ! n))])"
proof (rule consume_partition_split [of ms ext cfg tps role tp st None])
  fix n stn
  assume n: "n \<le> length ms" "handle_all ext cfg tps role tp (take n ms) st = Some stn"
    "calls stn = calls st" "paused_until stn = paused_until st"
    "n = length ms \<and> consume_partition ext cfg tps role tp ms None st
       = ((tp, offset_after None ms), stn)
     \<or> n < length ms \<and> (\<exists>st'. consume_one ext cfg tps role tp (ms ! n) stn = (False, st')
         \<and> consume_partition ext cfg tps role tp ms None st
             = ((tp, offset_after None (take n ms)), st'))"
  show ?thesis
    by (intro exI [of _ n] exI [of _ stn])
       (use n in \<open>auto simp: dest!: consume_one_False split: if_splits\<close>)
qed

subsection \<open>Resuming\<close>

lemma dict_pops:
  "foldl (\<lambda>d k. dict_pop k d) d ks = filter (\<lambda>(k, _). k \<notin> set ks) d"
  by (induction ks arbitrary: d) (auto simp: dict_pop_def intro!: filter_cong)

lemma resume_fold:
  "foldl (\<lambda>s tp. call (Resume tp) (s\<lparr>paused_until := dict_pop tp (paused_until s)\<rparr>)) st tps
     = st\<lparr>paused_until := foldl (\<lambda>d k. dict_pop k d) (paused_until st) tps,
          calls := calls st @ map Resume tps\<rparr>"
  by (induction tps arbitrary: st) (simp_all add: call_def)

lemma filter_not_due:
  assumes "distinct (map fst d)"
  shows "filter (\<lambda>(k, _). k \<notin> set (map fst (filter (\<lambda>(_, t). P t) d))) d
         = filter (\<lambda>(_, t). \<not> P t) d"
  using assms
  by (intro filter_cong refl) (force dest: eq_key_imp_eq_value)

text \<open>
  Exactly the due partitions are resumed. With \<open>now\<close> the clock's answer, every paused partition
  whose time has come is resumed once and forgotten, every other one stays paused with its time,
  and nothing else happens.
\<close>

theorem resume_due_exactly:
  assumes "distinct (map fst (paused_until st))" and "now = fst (now_ms ext (rw st))"
  shows "let st' = resume_due_partitions ext st in
     paused_until st' = filter (\<lambda>(_, t). now < t) (paused_until st)
     \<and> calls st' = calls st @ map (Resume \<circ> fst) (filter (\<lambda>(_, t). t \<le> now) (paused_until st))
     \<and> wdb (rw st') = wdb (rw st) \<and> acked (rw st') = acked (rw st)"
  using filter_not_due [OF assms(1), of "\<lambda>t. t \<le> now"] assms(2)
  by (simp add: resume_due_partitions_def resume_fold dict_pops Let_def now_ms_def not_le)

definition sample_run :: "db \<Rightarrow> run_state" where
  "sample_run d = \<lparr>rw = sample_world d, paused_until = [], calls = []\<rparr>"

lemma sample_run_fields [simp]:
  "rw (sample_run d) = sample_world d" "paused_until (sample_run d) = []" "calls (sample_run d) = []"
  by (simp_all add: sample_run_def)

text \<open>At time 1000, of two paused partitions one is due.\<close>

theorem resume_due_exactly_witness:
  "let st = (sample_run empty_db)\<lparr>paused_until := [((''retry-topic'', 0), 900), ((''retry-topic'', 1), 5000)]\<rparr>
   in paused_until (resume_due_partitions sample_externals st) = [((''retry-topic'', 1), 5000)]
      \<and> calls (resume_due_partitions sample_externals st) = [Resume (''retry-topic'', 0)]"
proof -
  let ?st = "(sample_run empty_db)\<lparr>paused_until := [((''retry-topic'', 0), 900), ((''retry-topic'', 1), 5000)]\<rparr>"
  have "(1000 :: int) = fst (now_ms sample_externals (rw ?st))" by (simp add: now_ms_def)
  from resume_due_exactly [OF _ this] show ?thesis by (simp add: Let_def)
qed

text \<open>The paused partitions stay a dictionary.\<close>

lemma resume_distinct:
  assumes "distinct (map fst (paused_until st))"
  shows "distinct (map fst (paused_until (resume_due_partitions ext st)))"
  using assms
  by (auto simp: resume_due_partitions_def resume_fold dict_pops Let_def now_ms_def
           distinct_map_filter)

subsection \<open>Headers on the wire\<close>

lemma decode_wire:
  "map_of (decode_into acc (map (\<lambda>(k, v). (k, Some v)) hs)) k =
     (case map_of (rev hs) k of None \<Rightarrow> map_of acc k | Some v \<Rightarrow> Some (utf8_decode v))"
  by (induction hs arbitrary: acc) (auto simp: map_add_def split: option.splits)

text \<open>A record as a consumer of its topic sees it.\<close>

definition redelivered :: "int \<Rightarrow> int \<Rightarrow> kafka_record \<Rightarrow> ConsumerRecord" where
  "redelivered part off rec =
     \<lparr>m_topic = kr_topic rec, m_partition = part, m_offset = off, m_value = kr_value rec,
      m_headers = map_option (map (\<lambda>(k, v). (k, Some v))) (kr_headers rec)\<rparr>"

definition retry_record :: "topics \<Rightarrow> pyval \<Rightarrow> int \<Rightarrow> string \<Rightarrow> string \<Rightarrow> int \<Rightarrow> kafka_record" where
  "retry_record tps v n origin reason due =
     \<lparr>kr_topic = retry_topic tps, kr_value = v,
      kr_headers = Some [(RETRY_COUNT_HEADER, str_int n), (ORIGINAL_TOPIC_HEADER, origin),
                         (ERROR_REASON_HEADER, reason), (RETRY_AT_HEADER, str_int due)]\<rparr>"

definition dlq_record :: "Settings \<Rightarrow> pyval \<Rightarrow> int \<Rightarrow> string \<Rightarrow> string \<Rightarrow> kafka_record" where
  "dlq_record cfg v n origin reason =
     \<lparr>kr_topic = kafka_dlq_topic cfg, kr_value = v,
      kr_headers = Some [(RETRY_COUNT_HEADER, str_int n), (ORIGINAL_TOPIC_HEADER, origin),
                         (ERROR_REASON_HEADER, reason)]\<rparr>"

lemmas header_names =
  RETRY_COUNT_HEADER_def ERROR_REASON_HEADER_def ORIGINAL_TOPIC_HEADER_def RETRY_AT_HEADER_def

text \<open>An integer that \<open>int\<close> reads back: at most 4300 digits.\<close>

definition short_int :: "int \<Rightarrow> bool" where
  "short_int n \<longleftrightarrow> length (nat_str (nat \<bar>n\<bar>)) \<le> 4300"

lemma short_intI: "\<bar>n\<bar> < 10 ^ 18 \<Longrightarrow> short_int n"
  using nat_str_length [of 18 "nat \<bar>n\<bar>"] by (simp add: short_int_def nat_less_iff)

lemma str_int_wire: "utf8_decode (str_int n) = str_int n"
  by (intro utf8_decode_wf utf8_wf_ascii str_int_ascii)

lemma py_int_wire: "short_int n \<Longrightarrow> py_int (str_int n) = Some n"
  by (simp add: py_int_str_int short_int_def)

lemma retry_record_headers:
  assumes "hs = decode_headers (m_headers (redelivered part off (retry_record tps v n origin reason due)))"
  shows "map_of hs RETRY_COUNT_HEADER = Some (str_int n)"
    and "map_of hs ORIGINAL_TOPIC_HEADER = Some (utf8_decode origin)"
    and "map_of hs ERROR_REASON_HEADER = Some (utf8_decode reason)"
    and "map_of hs RETRY_AT_HEADER = Some (str_int due)"
  using assms
  by (simp_all add: redelivered_def retry_record_def decode_headers_def decode_wire str_int_wire
        header_names del: list.map)

text \<open>
  C34: The retry headers survive the trip. The consumer of the retry topic reads back the retry
  count, the due time, the original topic and the reason that the failing worker wrote.
\<close>

theorem retry_headers_roundtrip:
  assumes "short_int n" and "0 \<le> n" and "short_int due" and "utf8_wf origin" and "utf8_wf reason"
    and "hs = decode_headers (m_headers (redelivered part off
                (retry_record tps v n origin reason due)))"
  shows "parse_retry_count hs = n \<and> retry_due_at hs = due
    \<and> header_or hs ORIGINAL_TOPIC_HEADER dflt = origin
    \<and> map_of hs ERROR_REASON_HEADER = Some reason"
  using retry_record_headers [OF assms(6)] assms(1-5)
  by (simp add: parse_retry_count_def retry_due_at_def header_or_def py_int_wire utf8_decode_wf)

theorem retry_headers_roundtrip_witness:
  "let tps = \<lparr>consume_topic = ''request-topic'', retry_topic = ''retry-topic''\<rparr>;
       hs = decode_headers (m_headers (redelivered 0 7
              (retry_record tps (PDict []) 2 ''request-topic'' ''boom'' 123456)))
   in parse_retry_count hs = 2 \<and> retry_due_at hs = 123456
      \<and> header_or hs ORIGINAL_TOPIC_HEADER ''x'' = ''request-topic''"
proof -
  let ?tps = "\<lparr>consume_topic = ''request-topic'', retry_topic = ''retry-topic''\<rparr>"
  have "short_int 2" "short_int 123456" by (simp_all add: short_intI)
  moreover have "utf8_wf ''request-topic''" "utf8_wf ''boom''"
    by (auto intro!: utf8_wf_ascii simp: is_ascii_def byte_in_def)
  ultimately show ?thesis
    using retry_headers_roundtrip [of 2 123456 "''request-topic''" "''boom''" _ 0 7 ?tps "PDict []"
        "''x''"]
    by (simp add: Let_def)
qed

subsection \<open>Failures: retry, then dead letter\<close>

text \<open>The origin a failing message is given.\<close>

definition origin_of :: "ConsumerRecord \<Rightarrow> string" where
  "origin_of m = header_or (decode_headers (m_headers m)) ORIGINAL_TOPIC_HEADER (m_topic m)"

definition retry_count_of :: "ConsumerRecord \<Rightarrow> int" where
  "retry_count_of m = parse_retry_count (decode_headers (m_headers m))"

definition backoff :: "Settings \<Rightarrow> int \<Rightarrow> rat res" where
  "backoff cfg n =
     compute_retry_backoff_seconds n (retry_backoff_seconds cfg) (retry_backoff_multiplier cfg)
       (retry_backoff_max_seconds cfg)"

lemma publish_sends:
  assumes "\<forall>n rec. send_result ext n rec = None" and "hs \<noteq> []"
  shows "\<exists>w'. publish ext t v (Some hs) w = (Inr (), w')
    \<and> acked w' = acked w @ [\<lparr>kr_topic = t, kr_value = v, kr_headers = Some hs\<rparr>]
    \<and> wdb w' = wdb w"
  using assms by (cases hs) (simp_all add: publish_def wire_headers_def Let_def)

lemma publish_retry_sends:
  assumes "\<forall>n rec. send_result ext n rec = None" and "m_value m = PDict vs"
    and "backoff cfg (c + 1) = Inr delay"
  shows "\<exists>w'. publish_retry ext cfg tps m c origin reason w = (Inr (), w')
    \<and> acked w' = acked w @ [retry_record tps (m_value m) (c + 1) origin reason
        (clock_ms ext (clock_reads w) + float_int (delay * 1000))]
    \<and> wdb w' = wdb w"
proof -
  let ?w = "snd (now_ms ext w)"
  let ?hs = "[(RETRY_COUNT_HEADER, str_int (c + 1)), (ORIGINAL_TOPIC_HEADER, origin),
    (ERROR_REASON_HEADER, reason),
    (RETRY_AT_HEADER, str_int (clock_ms ext (clock_reads w) + float_int (delay * 1000)))]"
  obtain w1 where "publish ext (retry_topic tps) (m_value m) (Some ?hs) ?w = (Inr (), w1)"
    "acked w1 = acked ?w @ [\<lparr>kr_topic = retry_topic tps, kr_value = m_value m,
        kr_headers = Some ?hs\<rparr>]" "wdb w1 = wdb ?w"
    using publish_sends [OF assms(1), of ?hs "retry_topic tps" "m_value m" ?w] by auto
  with assms(2,3) show ?thesis
    by (simp add: publish_retry_def backoff_def now_ms_def retry_record_def log_job_id_def)
qed

lemma publish_dlq_sends:
  assumes "\<forall>n rec. send_result ext n rec = None" and "m_value m = PDict vs"
  shows "\<exists>w'. publish_dlq ext cfg m c origin reason w = (Inr (), w')
    \<and> acked w' = acked w @ [dlq_record cfg (m_value m) c origin reason]
    \<and> wdb w' = wdb w"
proof -
  let ?hs = "[(RETRY_COUNT_HEADER, str_int c), (ORIGINAL_TOPIC_HEADER, origin),
    (ERROR_REASON_HEADER, reason)]"
  obtain w1 where "publish ext (kafka_dlq_topic cfg) (m_value m) (Some ?hs) w = (Inr (), w1)"
    "acked w1 = acked w @ [\<lparr>kr_topic = kafka_dlq_topic cfg, kr_value = m_value m,
        kr_headers = Some ?hs\<rparr>]" "wdb w1 = wdb w"
    using publish_sends [OF assms(1), of ?hs "kafka_dlq_topic cfg" "m_value m" w] by auto
  with assms(2) show ?thesis
    by (simp add: publish_dlq_def dlq_record_def log_job_id_def)
qed

lemma handle_message_failure:
  assumes "\<forall>n rec. send_result ext n rec = None" and "m_value m = PDict vs"
    and "\<not> skipped tps m" and "role (m_value m) w = (Inr (False, err), w1)"
    and "retry_count_of m < retry_max_count cfg \<Longrightarrow> backoff cfg (retry_count_of m + 1) = Inr delay"
  shows "\<exists>w'. handle_message ext cfg tps role m w = (Inr (), w')
    \<and> acked w' = acked w1 @
        [if retry_count_of m < retry_max_count cfg
         then retry_record tps (m_value m) (retry_count_of m + 1) (origin_of m) (error_reason err)
                (clock_ms ext (clock_reads w1) + float_int (delay * 1000))
         else dlq_record cfg (m_value m) (retry_count_of m) (origin_of m) (error_reason err)]
    \<and> wdb w' = wdb w1"
proof (cases "retry_count_of m < retry_max_count cfg")
  case True
  with publish_retry_sends [OF assms(1,2) assms(5), of tps "origin_of m" "error_reason err"
      "count_metric RETRY_FAILURE_TOTAL 1 w1"] assms(3,4)
  show ?thesis
    by (simp add: handle_message_def Let_def origin_of_def retry_count_of_def)
next
  case False
  with publish_dlq_sends [OF assms(1,2), of cfg "retry_count_of m" "origin_of m"
      "error_reason err" "count_metric RETRY_FAILURE_TOTAL 1 w1"] assms(3,4)
  show ?thesis
    by (simp add: handle_message_def Let_def origin_of_def retry_count_of_def)
qed

text \<open>
  Every failure is passed on exactly once. When the role reports a failure and Kafka accepts
  the record, one record with the unchanged value is published: to the retry topic with the count
  raised by one and the due time after the back-off while the count is below the limit, to the
  dead-letter topic otherwise; the database stays as the role left it.
\<close>

theorem failure_published_once:
  assumes "\<forall>n rec. send_result ext n rec = None" and "m_value m = PDict vs"
    and "\<not> skipped tps m" and "role (m_value m) w = (Inr (False, err), w1)"
    and "retry_count_of m < retry_max_count cfg \<Longrightarrow> backoff cfg (retry_count_of m + 1) = Inr delay"
  shows "\<exists>w'. handle_message ext cfg tps role m w = (Inr (), w')
    \<and> acked w' = acked w1 @
        [if retry_count_of m < retry_max_count cfg
         then retry_record tps (m_value m) (retry_count_of m + 1) (origin_of m) (error_reason err)
                (clock_ms ext (clock_reads w1) + float_int (delay * 1000))
         else dlq_record cfg (m_value m) (retry_count_of m) (origin_of m) (error_reason err)]
    \<and> wdb w' = wdb w1"
  using assms by (rule handle_message_failure)

lemma float_limit_large: "2 ^ 64 \<le> float_limit"
proof -
  have "(2::rat) ^ 1024 = 2 ^ 970 * 2 ^ 54" by (simp flip: power_add)
  moreover have "(2::rat) ^ 970 * 2 ^ 54 - 2 ^ 970 = 2 ^ 970 * (2 ^ 54 - 1)"
    by (simp only: right_diff_distrib mult_1_right)
  moreover have "(2::rat) ^ 64 * 1 \<le> 2 ^ 970 * (2 ^ 54 - 1)"
    by (intro mult_mono power_increasing) simp_all
  ultimately show ?thesis unfolding float_limit_def by linarith
qed

lemma float_pow_small: "\<bar>x ^ n\<bar> < 2 ^ 64 \<Longrightarrow> float_pow x n = Inr (x ^ n)"
  using float_limit_large by (simp add: float_pow_def)

definition sample_tps :: topics where
  "sample_tps = \<lparr>consume_topic = ''request-topic'', retry_topic = ''retry-topic''\<rparr>"

definition sample_msg :: ConsumerRecord where
  "sample_msg = \<lparr>m_topic = ''request-topic'', m_partition = 0, m_offset = 4, m_value = sample_event,
                 m_headers = None\<rparr>"

definition sample_failing :: "pyval \<Rightarrow> world \<Rightarrow> handled \<times> world" where
  "sample_failing v w = (Inr (False, Some ''boom''), w)"

lemma sample_msg_fields [simp]:
  "m_topic sample_msg = ''request-topic''" "m_headers sample_msg = None"
  "m_value sample_msg = sample_event" "m_offset sample_msg = 4"
  by (simp_all add: sample_msg_def)

lemma sample_tps_fields [simp]:
  "consume_topic sample_tps = ''request-topic''" "retry_topic sample_tps = ''retry-topic''"
  by (simp_all add: sample_tps_def)

lemma sample_event_dict:
  "sample_event = PDict [(''job_id'', PStr ''j1''), (''trace_id'', PStr ''t1''),
                         (''payload'', PDict [(''request'', PInt 1)])]"
  by (simp add: sample_event_def)

lemma sample_msg_own:
  "\<not> skipped sample_tps sample_msg" "origin_of sample_msg = ''request-topic''"
  "retry_count_of sample_msg = 0"
proof -
  have "str_int 0 = ''0''" by code_simp
  moreover have "py_int (str_int 0) = Some 0" by (intro py_int_wire short_intI) simp
  ultimately show "retry_count_of sample_msg = 0"
    by (simp add: retry_count_of_def parse_retry_count_def decode_headers_def header_or_def)
qed (simp_all add: skipped_def origin_of_def decode_headers_def header_or_def)

lemma sample_backoffs:
  "backoff default_settings 0 = Inr 1" "backoff default_settings 1 = Inr 1"
  "backoff default_settings 2 = Inr 2" "backoff default_settings 3 = Inr 4"
  by (simp_all add: backoff_def compute_retry_backoff_seconds_def float_pow_small)

theorem failure_published_once_witness:
  "\<exists>w'. handle_message sample_externals default_settings sample_tps sample_failing sample_msg
      (sample_world empty_db) = (Inr (), w')
    \<and> acked w' = [retry_record sample_tps sample_event 1 ''request-topic'' (error_reason (Some ''boom'')) 2000]"
  using failure_published_once [of sample_externals sample_msg _ sample_tps sample_failing
      "sample_world empty_db" "Some ''boom''" "sample_world empty_db" default_settings 1,
      OF _ sample_msg_fields(3) [unfolded sample_event_dict]]
    sample_backoffs sample_msg_own
  by (auto simp: sample_failing_def float_int_def)

subsection \<open>The life of a failing message\<close>

text \<open>
  The first \<open>n\<close> deliveries of a message: as long as the worker answers with a record on its retry
  topic, that record is the next delivery.
\<close>

fun deliveries ::
  "externals \<Rightarrow> Settings \<Rightarrow> topics \<Rightarrow> (pyval \<Rightarrow> world \<Rightarrow> handled \<times> world) \<Rightarrow> nat \<Rightarrow> ConsumerRecord
     \<Rightarrow> world \<Rightarrow> world" where
  "deliveries ext cfg tps role 0 m w = w"
| "deliveries ext cfg tps role (Suc n) m w =
     (let w1 = snd (handle_message ext cfg tps role m w)
      in if acked w1 \<noteq> acked w \<and> kr_topic (last (acked w1)) = retry_topic tps
         then deliveries ext cfg tps role n (redelivered 0 0 (last (acked w1))) w1
         else w1)"

definition always_fails :: "(pyval \<Rightarrow> world \<Rightarrow> handled \<times> world) \<Rightarrow> bool" where
  "always_fails role \<longleftrightarrow>
     (\<forall>v w. \<exists>err w'. role v w = (Inr (False, err), w') \<and> acked w' = acked w)"

text \<open>
  A message of this worker with retry count \<open>c\<close>.
\<close>

definition belongs :: "topics \<Rightarrow> ConsumerRecord \<Rightarrow> int \<Rightarrow> bool" where
  "belongs tps m c \<longleftrightarrow> \<not> skipped tps m \<and> origin_of m = consume_topic tps \<and> retry_count_of m = c"

lemma redelivered_belongs:
  assumes "utf8_wf (consume_topic tps)" and "0 \<le> c" and "short_int c"
  shows "belongs tps (redelivered part off
           (retry_record tps v c (consume_topic tps) reason due)) c"
proof -
  let ?m = "redelivered part off (retry_record tps v c (consume_topic tps) reason due)"
  note hs = retry_record_headers [OF refl, of part off tps v c "consume_topic tps" reason due]
  have "header_or (decode_headers (m_headers ?m)) ORIGINAL_TOPIC_HEADER dflt = consume_topic tps"
    for dflt using hs assms(1) by (simp add: header_or_def utf8_decode_wf)
  moreover have "retry_count_of ?m = c"
    using hs assms(2,3)
    by (simp add: retry_count_of_def parse_retry_count_def header_or_def py_int_wire)
  ultimately show ?thesis by (simp add: belongs_def skipped_def origin_of_def)
qed

lemma redelivered_fields [simp]:
  "m_value (redelivered part off rec) = kr_value rec"
  "kr_value (retry_record tps v n origin reason due) = v"
  "kr_topic (retry_record tps v n origin reason due) = retry_topic tps"
  "kr_value (dlq_record cfg v n origin reason) = v"
  "kr_topic (dlq_record cfg v n origin reason) = kafka_dlq_topic cfg"
  by (simp_all add: redelivered_def retry_record_def dlq_record_def)

definition retries_ok :: "externals \<Rightarrow> Settings \<Rightarrow> topics \<Rightarrow> bool" where
  "retries_ok ext cfg tps \<longleftrightarrow>
     (\<forall>n rec. send_result ext n rec = None) \<and> utf8_wf (consume_topic tps)
     \<and> kafka_dlq_topic cfg \<noteq> retry_topic tps
     \<and> (\<forall>c. 0 \<le> c \<and> c \<le> retry_max_count cfg \<longrightarrow> short_int c \<and> (\<exists>x. backoff cfg c = Inr x))"

lemma failing_deliveries:
  assumes "retries_ok ext cfg tps" and "always_fails role" and "m_value m = PDict vs"
    and "belongs tps m (retry_max_count cfg - int k)" and "int k \<le> retry_max_count cfg"
    and "k < n"
  shows "\<exists>rs d. acked (deliveries ext cfg tps role n m w) = acked w @ rs @ [d]
    \<and> length rs = k \<and> list_all (\<lambda>r. kr_topic r = retry_topic tps \<and> kr_value r = PDict vs) rs
    \<and> kr_topic d = kafka_dlq_topic cfg \<and> kr_value d = PDict vs"
  using assms(3-6)
proof (induction k arbitrary: m w n)
  case 0
  then obtain n' where n: "n = Suc n'" by (cases n) simp_all
  from assms(2) obtain err w1 where role: "role (m_value m) w = (Inr (False, err), w1)"
      "acked w1 = acked w" unfolding always_fails_def by blast
  have "\<exists>w'. handle_message ext cfg tps role m w = (Inr (), w')
      \<and> acked w' = acked w @ [dlq_record cfg (m_value m) (retry_count_of m) (origin_of m)
                                (error_reason err)]"
    using handle_message_failure [where role = role, OF _ 0(1) _ role(1), of ext tps cfg] assms(1) 0(2) role(2)
    by (auto simp: belongs_def retries_ok_def)
  with n 0 assms(1) show ?case
    by (auto simp: retries_ok_def)
next
  case (Suc k)
  then obtain n' where n: "n = Suc n'" "k < n'" by (cases n) simp_all
  let ?c = "retry_max_count cfg - int (Suc k)"
  from assms(2) obtain err w1 where role: "role (m_value m) w = (Inr (False, err), w1)"
      "acked w1 = acked w" unfolding always_fails_def by blast
  have c: "0 \<le> ?c" "?c < retry_max_count cfg" "retry_count_of m = ?c"
      "origin_of m = consume_topic tps" "\<not> skipped tps m"
    using Suc.prems by (simp_all add: belongs_def)
  have c1: "?c + 1 = retry_max_count cfg - int k" by simp
  obtain delay where delay: "backoff cfg (?c + 1) = Inr delay"
    using assms(1) c(1) unfolding retries_ok_def c1 by fastforce
  let ?r = "retry_record tps (m_value m) (?c + 1) (consume_topic tps) (error_reason err)
    (clock_ms ext (clock_reads w1) + float_int (delay * 1000))"
  obtain w2 where w2: "handle_message ext cfg tps role m w = (Inr (), w2)"
      "acked w2 = acked w @ [?r]"
    using handle_message_failure [where role = role, OF _ Suc.prems(1) c(5) role(1), of ext cfg delay] assms(1) c delay
      role(2) by (auto simp: retries_ok_def)
  have "belongs tps (redelivered 0 0 ?r) (retry_max_count cfg - int k)"
    using assms(1) c(1) unfolding c1 [symmetric]
    by (intro redelivered_belongs) (auto simp: retries_ok_def)
  with Suc.IH [of "redelivered 0 0 ?r" n' w2] Suc.prems(1,3) n(2)
  obtain rs d where "acked (deliveries ext cfg tps role n' (redelivered 0 0 ?r) w2)
      = acked w2 @ rs @ [d]" "length rs = k"
    "list_all (\<lambda>r. kr_topic r = retry_topic tps \<and> kr_value r = PDict vs) rs"
    "kr_topic d = kafka_dlq_topic cfg" "kr_value d = PDict vs" by auto
  then show ?case
    using n(1) w2 Suc.prems(1)
    by (intro exI [of _ "?r # rs"] exI [of _ d]) simp
qed

text \<open>
  C28: A message that keeps failing is retried as often as configured and then dead-lettered. Its
  first delivery and the redeliveries publish exactly \<open>retry_max_count\<close> records to the retry topic
  and then one to the dead-letter topic, all with the original value; further deliveries do not
  happen.
\<close>

theorem failing_message_dead_lettered:
  assumes "retries_ok ext cfg tps" and "always_fails role" and "m_value m = PDict vs"
    and "belongs tps m 0" and "0 \<le> retry_max_count cfg" and "nat (retry_max_count cfg) < n"
  shows "\<exists>rs d. acked (deliveries ext cfg tps role n m w) = acked w @ rs @ [d]
    \<and> length rs = nat (retry_max_count cfg)
    \<and> list_all (\<lambda>r. kr_topic r = retry_topic tps \<and> kr_value r = PDict vs) rs
    \<and> kr_topic d = kafka_dlq_topic cfg \<and> kr_value d = PDict vs"
  using failing_deliveries [OF assms(1-3), of "nat (retry_max_count cfg)" n w] assms(4-6) by simp

lemma sample_retries_ok: "retries_ok sample_externals default_settings sample_tps"
proof -
  have "c = 0 \<or> c = 1 \<or> c = 2 \<or> c = 3" if "0 \<le> c" "c \<le> 3" for c :: int
    using that by arith
  then have "short_int c \<and> (\<exists>x. backoff default_settings c = Inr x)" if "0 \<le> c" "c \<le> 3" for c
    using that sample_backoffs by (fastforce intro!: short_intI)
  moreover have "utf8_wf ''request-topic''"
    by (auto intro!: utf8_wf_ascii simp: is_ascii_def byte_in_def)
  ultimately show ?thesis by (simp add: retries_ok_def)
qed

theorem failing_message_dead_lettered_witness:
  "\<exists>rs d. acked (deliveries sample_externals default_settings sample_tps sample_failing 10 sample_msg
      (sample_world empty_db)) = rs @ [d]
    \<and> length rs = 3 \<and> kr_topic d = ''dlq-topic'' \<and> kr_value d = sample_event"
proof -
  have "always_fails sample_failing" by (simp add: always_fails_def sample_failing_def)
  moreover have "belongs sample_tps sample_msg 0" using sample_msg_own by (simp add: belongs_def)
  ultimately have "\<exists>rs d. acked (deliveries sample_externals default_settings sample_tps
      sample_failing 10 sample_msg (sample_world empty_db)) = acked (sample_world empty_db) @ rs @ [d]
    \<and> length rs = nat (retry_max_count default_settings)
    \<and> list_all (\<lambda>r. kr_topic r = retry_topic sample_tps \<and> kr_value r = sample_event) rs
    \<and> kr_topic d = kafka_dlq_topic default_settings \<and> kr_value d = sample_event"
    unfolding sample_event_dict
    by (intro failing_message_dead_lettered [OF sample_retries_ok]) (simp_all add: sample_event_dict)
  then show ?thesis by auto
qed

subsection \<open>Back-off\<close>

lemma float_pow_Inr: "float_pow x n = Inr p \<Longrightarrow> p = x ^ n"
  by (auto simp: float_pow_def split: if_splits)

lemma backoff_value:
  "compute_retry_backoff_seconds i base multiplier max_seconds = Inr x \<Longrightarrow>
     x = min (base * multiplier ^ nat (max 1 i - 1)) max_seconds"
  by (auto simp: compute_retry_backoff_seconds_def dest!: float_pow_Inr)

lemma backoff_next:
  assumes "1 \<le> i" "1 \<le> multiplier" "0 \<le> max_seconds"
    and "compute_retry_backoff_seconds i base multiplier max_seconds = Inr x"
    and "compute_retry_backoff_seconds (i + 1) base multiplier max_seconds = Inr y"
  shows "y = min (x * multiplier) max_seconds"
proof -
  have "nat (max 1 (i + 1) - 1) = Suc (nat (max 1 i - 1))" using assms(1) by auto
  from backoff_value [OF assms(5), unfolded this]
  have y: "y = min (base * multiplier ^ nat (max 1 i - 1) * multiplier) max_seconds"
    by (simp only: power_Suc mult.assoc mult.commute [of multiplier])
  define z where "z = base * multiplier ^ nat (max 1 i - 1)"
  have x: "x = min z max_seconds" and y: "y = min (z * multiplier) max_seconds"
    using backoff_value [OF assms(4)] y by (simp_all add: z_def)
  have top: "max_seconds \<le> max_seconds * multiplier" using mult_left_mono [OF assms(2,3)] by simp
  show ?thesis
  proof (cases "z \<le> max_seconds")
    case False
    then have "max_seconds * multiplier \<le> z * multiplier" using assms(2) by (intro mult_right_mono) auto
    with False top x y show ?thesis by simp
  qed (simp add: x y)
qed

text \<open>
  C35: The back-off: with a non-negative base and maximum and a multiplier of at least 1, the first retry waits
  the base and each further one the multiplier times as long as the one before, both cut off at the
  maximum. So the wait never falls from one retry to a later one, stays between 0 and the maximum, and the
  due time in milliseconds keeps that order; if base and multiplier exceed 0 and 1 it strictly grows until
  the maximum is reached. (The settings do not enforce these bounds: a multiplier below 1 makes it shrink.)
\<close>

theorem backoff_monotone_bounded:
  assumes "0 \<le> base" and "1 \<le> multiplier" and "0 \<le> max_seconds" and "i \<le> j"
    and "compute_retry_backoff_seconds i base multiplier max_seconds = Inr x"
    and "compute_retry_backoff_seconds j base multiplier max_seconds = Inr y"
  shows "(i \<le> 1 \<longrightarrow> x = min base max_seconds)
    \<and> (1 \<le> i \<longrightarrow> j = i + 1 \<longrightarrow> y = min (x * multiplier) max_seconds)
    \<and> (0 < base \<longrightarrow> 1 < multiplier \<longrightarrow> 1 \<le> i \<longrightarrow> i < j \<longrightarrow> x < max_seconds \<longrightarrow> x < y)
    \<and> 0 \<le> x \<and> x \<le> y \<and> y \<le> max_seconds \<and> 0 \<le> float_int (x * 1000)
    \<and> float_int (x * 1000) \<le> float_int (y * 1000)"
proof -
  let ?e = "\<lambda>n. nat (max 1 n - 1)"
  note x = backoff_value [OF assms(5)] and y = backoff_value [OF assms(6)]
  have "multiplier ^ ?e i \<le> multiplier ^ ?e j"
    using assms(2,4) by (intro power_increasing) auto
  then have "base * multiplier ^ ?e i \<le> base * multiplier ^ ?e j"
    using assms(1) by (rule mult_left_mono)
  then have "x \<le> y" unfolding x y by (simp add: min.coboundedI1 min_le_iff_disj)
  moreover have "0 \<le> x" unfolding x using assms(1-3) by simp
  moreover have "y \<le> max_seconds" unfolding y by simp
  moreover have "x = min base max_seconds" if "i \<le> 1" using that x by (simp add: max_def)
  moreover have "y = min (x * multiplier) max_seconds" if "1 \<le> i" "j = i + 1"
    using backoff_next [OF that(1) assms(2,3,5)] assms(6) that(2) by simp
  moreover have "x < y" if "0 < base" "1 < multiplier" "1 \<le> i" "i < j" "x < max_seconds"
  proof -
    have "multiplier ^ ?e i < multiplier ^ ?e j"
      using that by (intro power_strict_increasing) auto
    with that(1) have "base * multiplier ^ ?e i < base * multiplier ^ ?e j" by simp
    with that(5) show ?thesis unfolding x y by (auto simp: min_def)
  qed
  ultimately show ?thesis by (simp add: float_int_nonneg float_int_mono)
qed

theorem backoff_monotone_bounded_witness:
  "\<exists>x y. compute_retry_backoff_seconds 1 3 2 30 = Inr x \<and> compute_retry_backoff_seconds 2 3 2 30 = Inr y
     \<and> x = 3 \<and> y = 6 \<and> x < y"
proof -
  obtain x y where run: "compute_retry_backoff_seconds 1 3 2 30 = Inr x" "compute_retry_backoff_seconds 2 3 2 30 = Inr y"
    by (simp add: compute_retry_backoff_seconds_def float_pow_small)
  from backoff_monotone_bounded [OF _ _ _ _ run] have "x = 3" "y = 6" by simp_all
  with run show ?thesis by simp
qed

text \<open>
  With the default settings, a delivery that finds the lease held is dead-lettered long before
  the lease can expire: the three retries are due 1, 2 and 4 seconds after the failures before
  them, 7 seconds in all, against a lease of 1800 seconds.
\<close>

theorem default_backoff_shorter_than_lease:
  "retry_max_count default_settings = 3
   \<and> backoff default_settings 1 = Inr 1 \<and> backoff default_settings 2 = Inr 2
   \<and> backoff default_settings 3 = Inr 4
   \<and> 1 + 2 + 4 < worker_processing_ttl_seconds default_settings"
  by (simp add: backoff_def compute_retry_backoff_seconds_def float_pow_small)

subsection \<open>Messages the retry machinery loses\<close>

lemma skipped_done: "skipped tps m \<Longrightarrow> handle_message ext cfg tps role m w = (Inr (), w)"
  by (simp add: handle_message_def)

text \<open>
  C37: A retry without an origin is lost at its next failure. A message on the retry topic that
  carries no original-topic header is taken for the worker's own and handled, but when it fails its
  record names the retry topic as the origin; that record's redelivery is skipped without calling
  the role, so the message is neither retried nor dead-lettered.
\<close>

theorem retry_without_origin_lost:
  assumes "\<forall>n rec. send_result ext n rec = None" and "m_value m = PDict vs"
    and "m_topic m = retry_topic tps" and "retry_topic tps \<noteq> consume_topic tps"
    and "utf8_wf (retry_topic tps)"
    and "map_of (decode_headers (m_headers m)) ORIGINAL_TOPIC_HEADER = None"
    and "role (m_value m) w = (Inr (False, err), w1)"
    and "retry_count_of m < retry_max_count cfg" and "backoff cfg (retry_count_of m + 1) = Inr delay"
  shows "\<exists>w' rec. handle_message ext cfg tps role m w = (Inr (), w')
    \<and> acked w' = acked w1 @ [rec] \<and> kr_topic rec = retry_topic tps
    \<and> (\<forall>role' w2. handle_message ext cfg tps role' (redelivered part off rec) w2 = (Inr (), w2))"
proof -
  let ?r = "retry_record tps (m_value m) (retry_count_of m + 1) (retry_topic tps)
    (error_reason err) (clock_ms ext (clock_reads w1) + float_int (delay * 1000))"
  have "\<not> skipped tps m" "origin_of m = retry_topic tps"
    using assms(3,6) by (simp_all add: skipped_def origin_of_def header_or_def)
  with handle_message_failure [where role = role, OF assms(1,2) _ assms(7), of tps cfg delay] assms(8,9)
  obtain w' where "handle_message ext cfg tps role m w = (Inr (), w')" "acked w' = acked w1 @ [?r]"
    by auto
  moreover have "skipped tps (redelivered part off ?r)"
    using retry_record_headers(2) [OF refl, of part off tps "m_value m" "retry_count_of m + 1"
        "retry_topic tps" "error_reason err"] assms(4,5)
    by (simp add: skipped_def header_or_def utf8_decode_wf) (simp add: redelivered_def)
  ultimately show ?thesis by (auto simp: skipped_done)
qed

theorem retry_without_origin_lost_witness:
  "\<exists>w' rec. handle_message sample_externals default_settings sample_tps sample_failing
      (sample_msg\<lparr>m_topic := ''retry-topic''\<rparr>) (sample_world empty_db) = (Inr (), w')
    \<and> acked w' = [rec] \<and> kr_topic rec = ''retry-topic''
    \<and> handle_message sample_externals default_settings sample_tps sample_failing
        (redelivered 0 1 rec) w' = (Inr (), w')"
proof -
  let ?m = "sample_msg\<lparr>m_topic := ''retry-topic''\<rparr>"
  have "utf8_wf ''retry-topic''"
    by (auto intro!: utf8_wf_ascii simp: is_ascii_def byte_in_def)
  moreover have "retry_count_of ?m = 0" using sample_msg_own(3) by (simp add: retry_count_of_def)
  moreover have "m_value ?m = PDict [(''job_id'', PStr ''j1''), (''trace_id'', PStr ''t1''),
                         (''payload'', PDict [(''request'', PInt 1)])]"
    by (simp add: sample_event_dict)
  ultimately have "\<exists>w' rec. handle_message sample_externals default_settings sample_tps sample_failing
      ?m (sample_world empty_db) = (Inr (), w')
    \<and> acked w' = acked (sample_world empty_db) @ [rec] \<and> kr_topic rec = retry_topic sample_tps
    \<and> (\<forall>role' w2. handle_message sample_externals default_settings sample_tps role'
         (redelivered 0 1 rec) w2 = (Inr (), w2))"
    using sample_backoffs(2)
    by (intro retry_without_origin_lost [of _ _ _ _ _ _ "Some ''boom''" _ _ 1])
       (simp_all add: sample_failing_def decode_headers_def)
  then show ?thesis by auto
qed

text \<open>An event without a job id makes every role raise before it does anything.\<close>

lemma role_raises:
  assumes "py_getitem v ''job_id'' = Inl e"
  shows "role_handle_event wid runs role env v w = (Inl e, w)"
proof -
  have "service_handle wid runs s env v w = (Inl e, w)" for s
    using assms
    by (cases s) (simp_all add: worker_handle_event_def inference_handle_event_def
                    downstream_handle_event_def)
  then show ?thesis by (cases role) simp_all
qed

lemma poison_pass:
  assumes "py_getitem (m_value m) ''job_id'' = Inl e" and "m_topic m \<noteq> retry_topic tps"
    and "paused_until st = []"
  shows "poll_pass ext cfg tps (\<lambda>_. role_handle_event wid runs role env) [(tp, m # ms)] fault st
    = (Inr (), call (Seek tp (m_offset m)) st)"
  using assms
  by (simp add: poll_pass_def resume_due_partitions_def consume_one_def handle_one_def
        handle_message_def skipped_def role_raises)

text \<open>
  C38: A message without a job id blocks its partition. Every role raises on it, so the consumer is
  set back to it and nothing is committed; however many polls deliver it again, it is never
  retried, never dead-lettered, and the messages behind it are never handled.
\<close>

theorem poison_message_blocks_partition:
  assumes "py_getitem (m_value m) ''job_id'' = Inl e" and "m_topic m \<noteq> retry_topic tps"
    and "paused_until st = []"
  shows "worker_loop ext cfg tps
      (replicate n (\<lambda>_. role_handle_event wid runs role env, [(tp, m # ms)], fault)) st
    = (Inr (), st\<lparr>calls := calls st @ replicate n (Seek tp (m_offset m))\<rparr>)"
  using assms(3)
proof (induction n arbitrary: st)
  case 0
  then show ?case by simp
next
  case (Suc n)
  note pass = poison_pass [OF assms(1,2) Suc.prems]
  from Suc.IH [of "call (Seek tp (m_offset m)) st"] Suc.prems show ?case
    by (simp add: pass call_def)
qed

theorem poison_message_blocks_partition_witness:
  "let m = sample_msg\<lparr>m_value := PDict []\<rparr>; tp = (''request-topic'', 0);
       role = (\<lambda>_. role_handle_event ''a'' (\<lambda>_. sample_process) (build_worker_role default_settings)
                     sample_env)
   in worker_loop sample_externals default_settings sample_tps
        (replicate 3 (role, [(tp, [m, sample_msg])], None)) (sample_run empty_db)
      = (Inr (), (sample_run empty_db)\<lparr>calls := [Seek tp 4, Seek tp 4, Seek tp 4]\<rparr>)"
  using poison_message_blocks_partition [of "sample_msg\<lparr>m_value := PDict []\<rparr>" _ sample_tps
      "sample_run empty_db" sample_externals default_settings 3 "''a''" "\<lambda>_. sample_process"
      "build_worker_role default_settings" sample_env "(''request-topic'', 0)" "[sample_msg]" None]
  by (simp add: Let_def numeral_3_eq_3)

end
