(* ===== verification/Delivery.thy ===== *)
theory Delivery
  imports Runner
begin

section \<open>At-least-once delivery\<close>

text \<open>
  \<open>run_worker\<close> gathers the partitions of a poll concurrently. Here every order in which their
  turns may come is allowed, and the loop is put beside what the consumer documents of itself: a
  poll returns records from the position of a partition on and moves the position past them,
  \<open>seek\<close> sets the position, \<open>commit\<close> stores offsets, and a restarted consumer begins at the
  committed offsets.
\<close>

subsection \<open>Partitions of a poll, interleaved\<close>

record task =
  tk_tp :: topic_partition
  tk_handled :: "ConsumerRecord list"
  tk_rest :: "ConsumerRecord list"
  tk_commit :: "int option"
  tk_live :: bool

definition task_init :: "topic_partition \<times> ConsumerRecord list \<Rightarrow> task" where
  "task_init p =
     \<lparr>tk_tp = fst p, tk_handled = [], tk_rest = snd p, tk_commit = None, tk_live = True\<rparr>"

definition running :: "task \<Rightarrow> bool" where
  "running t \<longleftrightarrow> tk_live t \<and> tk_rest t \<noteq> []"

definition turn ::
  "externals \<Rightarrow> Settings \<Rightarrow> topics \<Rightarrow> delivery \<Rightarrow> task \<Rightarrow> run_state \<Rightarrow> task \<times> run_state" where
  "turn ext cfg tps role t st =
     (case tk_rest t of
        [] \<Rightarrow> (t, st)
      | m # ms \<Rightarrow>
          (case consume_one ext cfg tps role (tk_tp t) m st of
             (True, st') \<Rightarrow>
               (t\<lparr>tk_handled := tk_handled t @ [m], tk_rest := ms,
                  tk_commit := Some (m_offset m + 1)\<rparr>, st')
           | (False, st') \<Rightarrow> (t\<lparr>tk_live := False\<rparr>, st')))"

inductive gather_step ::
  "externals \<Rightarrow> Settings \<Rightarrow> topics \<Rightarrow> delivery \<Rightarrow> task list \<times> run_state \<Rightarrow> task list \<times> run_state
     \<Rightarrow> bool"
  for ext cfg tps role where
  turn: "i < length ts \<Longrightarrow> running (ts ! i) \<Longrightarrow> turn ext cfg tps role (ts ! i) st = (t, st') \<Longrightarrow>
     gather_step ext cfg tps role (ts, st) (ts[i := t], st')"

inductive_cases gather_stepE: "gather_step ext cfg tps role (ts, st) (ts', st')"

definition gathered ::
  "externals \<Rightarrow> Settings \<Rightarrow> topics \<Rightarrow> delivery \<Rightarrow> (topic_partition \<times> ConsumerRecord list) list
     \<Rightarrow> run_state \<Rightarrow> task list \<Rightarrow> run_state \<Rightarrow> bool" where
  "gathered ext cfg tps role polled st ts st' \<longleftrightarrow>
     (gather_step ext cfg tps role)\<^sup>*\<^sup>* (map task_init polled, st) (ts, st')
     \<and> list_all (\<lambda>t. \<not> running t) ts"

definition task_result :: "task \<Rightarrow> topic_partition \<times> int option" where
  "task_result t = (tk_tp t, tk_commit t)"

text \<open>The offsets a partition was set to by some calls.\<close>

fun seeks_of :: "topic_partition \<Rightarrow> consumer_call list \<Rightarrow> int list" where
  "seeks_of tp [] = []"
| "seeks_of tp (Seek tp' off # cs) = (if tp' = tp then off # seeks_of tp cs else seeks_of tp cs)"
| "seeks_of tp (_ # cs) = seeks_of tp cs"

lemma seeks_of_append [simp]: "seeks_of tp (xs @ ys) = seeks_of tp xs @ seeks_of tp ys"
  by (induction tp xs rule: seeks_of.induct) simp_all

text \<open>
  A task between its turns: what it handled and what it has left is its batch, its offset is
  after what it handled, and it moved its partition only when it stopped, to the message it
  stopped at.
\<close>

definition task_ok :: "(topic_partition \<times> ConsumerRecord list) \<Rightarrow> consumer_call list \<Rightarrow> task \<Rightarrow> bool" where
  "task_ok p cs t \<longleftrightarrow>
     tk_tp t = fst p \<and> tk_handled t @ tk_rest t = snd p
     \<and> tk_commit t = offset_after None (tk_handled t)
     \<and> (if tk_live t then seeks_of (fst p) cs = []
        else tk_rest t \<noteq> [] \<and> seeks_of (fst p) cs = [m_offset (hd (tk_rest t))])"

lemma consume_one_calls:
  assumes "consume_one ext cfg tps role tp m st = (b, st')"
  obtains cs where "calls st' = calls st @ cs" "\<forall>tp'. tp' \<noteq> tp \<longrightarrow> seeks_of tp' cs = []"
    "seeks_of tp cs = (if b then [] else [m_offset m])"
proof (cases b)
  case True
  with assms show thesis by (intro that [of "[]"]) (auto dest: consume_one_True)
next
  case False
  with assms consume_one_False [of ext cfg tps role tp m st st'] show thesis
    by (intro that [of "drop (length (calls st)) (calls st')"]) (auto split: if_splits)
qed

definition tasks_ok ::
  "(topic_partition \<times> ConsumerRecord list) list \<Rightarrow> consumer_call list \<Rightarrow> task list \<times> run_state
     \<Rightarrow> bool" where
  "tasks_ok polled cs0 s \<longleftrightarrow>
     (\<exists>cs. calls (snd s) = cs0 @ cs \<and> list_all2 (\<lambda>p t. task_ok p cs t) polled (fst s)
           \<and> (\<forall>tp. tp \<notin> fst ` set polled \<longrightarrow> seeks_of tp cs = []))"

lemma turn_ok:
  assumes "turn ext cfg tps role t st = (t', st')" and "task_ok p cs t" and "running t"
  obtains cs' where "calls st' = calls st @ cs'" "task_ok p (cs @ cs') t'"
    "\<forall>tp. tp \<noteq> fst p \<longrightarrow> seeks_of tp cs' = []"
proof -
  from assms(3) obtain m ms where rest: "tk_rest t = m # ms"
    by (auto simp: running_def neq_Nil_conv)
  obtain b st1 where one: "consume_one ext cfg tps role (tk_tp t) m st = (b, st1)"
    by (cases "consume_one ext cfg tps role (tk_tp t) m st")
  then obtain cs' where cs': "calls st1 = calls st @ cs'"
    "\<forall>tp'. tp' \<noteq> tk_tp t \<longrightarrow> seeks_of tp' cs' = []"
    "seeks_of (tk_tp t) cs' = (if b then [] else [m_offset m])"
    by (rule consume_one_calls)
  show thesis
    using assms rest one cs'
    by (cases p, intro that [of cs'])
       (auto simp: turn_def task_ok_def running_def offset_after_def split: bool.splits)
qed

lemma gather_ok:
  assumes "gather_step ext cfg tps role s s'" and "tasks_ok polled cs0 s"
    and "distinct (map fst polled)"
  shows "tasks_ok polled cs0 s'"
proof -
  obtain ts st ts' st' where s: "s = (ts, st)" "s' = (ts', st')" by (cases s; cases s')
  from assms(1) s obtain i t where i: "i < length ts" "running (ts ! i)"
    "turn ext cfg tps role (ts ! i) st = (t, st')" "ts' = ts[i := t]"
    by (auto elim: gather_stepE)
  from assms(2) s obtain cs where cs: "calls st = cs0 @ cs"
    "list_all2 (\<lambda>p t. task_ok p cs t) polled ts"
    "\<forall>tp. tp \<notin> fst ` set polled \<longrightarrow> seeks_of tp cs = []"
    by (auto simp: tasks_ok_def)
  have len: "length polled = length ts" using cs(2) by (rule list_all2_lengthD)
  have "task_ok (polled ! i) cs (ts ! i)" using cs(2) i(1) by (simp add: list_all2_conv_all_nth)
  with i(3) obtain cs' where cs': "calls st' = calls st @ cs'"
    "task_ok (polled ! i) (cs @ cs') t"
    "\<forall>tp. tp \<noteq> fst (polled ! i) \<longrightarrow> seeks_of tp cs' = []"
    using i(2) by (rule turn_ok)
  have "task_ok (polled ! j) (cs @ cs') (ts' ! j)" if j: "j < length ts" for j
  proof (cases "j = i")
    case True
    with cs'(2) i show ?thesis by simp
  next
    case False
    with assms(3) i(1) j len have "fst (polled ! j) \<noteq> fst (polled ! i)"
      by (simp add: distinct_conv_nth)
    then have "seeks_of (fst (polled ! j)) cs' = []" using cs'(3) by blast
    with cs(2) False i(4) j show ?thesis
      by (auto simp: task_ok_def list_all2_conv_all_nth)
  qed
  then have "list_all2 (\<lambda>p t. task_ok p (cs @ cs') t) polled ts'"
    using len i(4) by (simp add: list_all2_conv_all_nth)
  moreover have "\<forall>tp. tp \<notin> fst ` set polled \<longrightarrow> seeks_of tp (cs @ cs') = []"
    using cs(3) cs'(3) i(1) len by (metis append_Nil2 image_eqI nth_mem seeks_of_append)
  ultimately show ?thesis
    unfolding tasks_ok_def using s cs(1) cs'(1) by auto
qed

lemma gather_init: "tasks_ok polled (calls st) (map task_init polled, st)"
  unfolding tasks_ok_def
  by (intro exI [of _ "[]"])
     (simp add: list_all2_map2 list_all2_same task_ok_def task_init_def offset_after_def)

lemma gathered_ok:
  assumes "gathered ext cfg tps role polled st ts st'" and "distinct (map fst polled)"
  shows "tasks_ok polled (calls st) (ts, st')"
proof -
  have "(gather_step ext cfg tps role)\<^sup>*\<^sup>* (map task_init polled, st) (ts, st')"
    using assms(1) by (simp add: gathered_def)
  then show ?thesis
    by (induction rule: rtranclp_induct) (auto intro: gather_init gather_ok assms(2))
qed

text \<open>
  Whatever the order of turns, each partition keeps its contract. When all partitions of a
  poll have come to their end, each has handled a prefix of its own batch in order and reports the
  offset after it; a partition that handled everything was not moved, any other was set back, once,
  to the first message it did not handle.
\<close>

theorem gathered_partitions:
  assumes "gathered ext cfg tps role polled st ts st'" and "distinct (map fst polled)"
  shows "\<exists>cs. calls st' = calls st @ cs
    \<and> list_all2 (\<lambda>(tp, ms) t. \<exists>rest. tk_handled t @ rest = ms
         \<and> task_result t = (tp, offset_after None (tk_handled t))
         \<and> seeks_of tp cs = (if rest = [] then [] else [m_offset (hd rest)])) polled ts"
proof -
  from gathered_ok [OF assms] obtain cs where cs: "calls st' = calls st @ cs"
    "list_all2 (\<lambda>p t. task_ok p cs t) polled ts"
    by (auto simp: tasks_ok_def)
  have fin: "list_all (\<lambda>t. \<not> running t) ts" using assms(1) by (simp add: gathered_def)
  have "list_all2 (\<lambda>(tp, ms) t. \<exists>rest. tk_handled t @ rest = ms
         \<and> task_result t = (tp, offset_after None (tk_handled t))
         \<and> seeks_of tp cs = (if rest = [] then [] else [m_offset (hd rest)])) polled ts"
    using cs(2) fin
    by (auto simp: list_all2_conv_all_nth list_all_length task_ok_def running_def task_result_def
             split_beta split: if_splits)
  with cs(1) show ?thesis by blast
qed

text \<open>One partition whose only message succeeds.\<close>

definition sample_ok_role :: delivery where
  "sample_ok_role m v w = (Inr (True, None), w)"

definition sample_polled :: "(topic_partition \<times> ConsumerRecord list) list" where
  "sample_polled = [((''request-topic'', 0), [sample_msg])]"

lemma sample_gathered:
  "gathered sample_externals default_settings sample_tps sample_ok_role sample_polled
     (sample_run empty_db)
     [\<lparr>tk_tp = (''request-topic'', 0), tk_handled = [sample_msg], tk_rest = [], tk_commit = Some 5,
       tk_live = True\<rparr>] (sample_run empty_db)"
proof -
  let ?t = "\<lparr>tk_tp = (''request-topic'', 0), tk_handled = [sample_msg], tk_rest = [],
    tk_commit = Some 5, tk_live = True\<rparr>"
  have "turn sample_externals default_settings sample_tps sample_ok_role
      (map task_init sample_polled ! 0) (sample_run empty_db) = (?t, sample_run empty_db)"
    using sample_msg_own(1)
    by (simp add: turn_def sample_polled_def task_init_def consume_one_def handle_one_def
          handle_message_def sample_ok_role_def)
  from gather_step.turn [OF _ _ this] show ?thesis
    by (simp add: gathered_def sample_polled_def task_init_def running_def r_into_rtranclp)
qed

theorem gathered_partitions_witness:
  "\<exists>cs. calls (sample_run empty_db) = calls (sample_run empty_db) @ cs
    \<and> seeks_of (''request-topic'', 0) cs = []"
  using gathered_partitions [OF sample_gathered]
  by (auto simp: sample_polled_def task_result_def)

subsection \<open>The order the loop's text gives is one of them\<close>

lemma gather_append:
  assumes "(gather_step ext cfg tps role)\<^sup>*\<^sup>* (ts, st) (ts', st')"
  shows "(gather_step ext cfg tps role)\<^sup>*\<^sup>* (us @ ts @ vs, st) (us @ ts' @ vs, st')"
proof -
  have one: "gather_step ext cfg tps role (us @ ts @ vs, st) (us @ ts' @ vs, st')"
    if "gather_step ext cfg tps role (ts, st) (ts', st')" for ts st ts' st'
  proof -
    from that obtain i t where "i < length ts" "running (ts ! i)"
      "turn ext cfg tps role (ts ! i) st = (t, st')" "ts' = ts[i := t]"
      by (auto elim: gather_stepE)
    with gather_step.turn [of "length us + i" "us @ ts @ vs" ext cfg tps role st t st']
    show ?thesis by (simp add: nth_append list_update_append)
  qed
  from assms show ?thesis
  proof (induction "(ts', st')" arbitrary: ts' st' rule: rtranclp_induct)
    case base
    then show ?case by simp
  next
    case (step y)
    obtain ts1 st1 where "y = (ts1, st1)" by (cases y)
    with step one show ?case by (metis rtranclp.rtrancl_into_rtrancl)
  qed
qed

lemma gather_single:
  assumes "tk_live t" and "tk_rest t = ms"
  obtains t' st' where
    "(gather_step ext cfg tps role)\<^sup>*\<^sup>* ([t], st) ([t'], st')" "\<not> running t'"
    "consume_partition ext cfg tps role (tk_tp t) ms (tk_commit t) st = (task_result t', st')"
  using assms
proof (induction ms arbitrary: t st thesis)
  case Nil
  then show ?case by (intro Nil.prems(1) [of t st]) (simp_all add: running_def task_result_def)
next
  case (Cons m ms)
  obtain b st1 where one: "consume_one ext cfg tps role (tk_tp t) m st = (b, st1)"
    by (cases "consume_one ext cfg tps role (tk_tp t) m st")
  let ?t = "t\<lparr>tk_handled := tk_handled t @ [m], tk_rest := ms, tk_commit := Some (m_offset m + 1)\<rparr>"
  let ?u = "if b then ?t else t\<lparr>tk_live := False\<rparr>"
  have "turn ext cfg tps role t st = (?u, st1)"
    using one Cons.prems(3) by (simp add: turn_def)
  then have step: "gather_step ext cfg tps role ([t], st) ([?u], st1)"
    using gather_step.turn [of 0 "[t]" ext cfg tps role st ?u st1] Cons.prems(2,3)
    by (simp add: running_def)
  show ?case
  proof (cases b)
    case False
    with step one Cons.prems(3) show ?thesis
      by (intro Cons.prems(1) [of ?u st1]) (auto simp: running_def task_result_def)
  next
    case True
    from Cons.IH [of ?t st1] Cons.prems(2)
    obtain t' st' where "(gather_step ext cfg tps role)\<^sup>*\<^sup>* ([?t], st1) ([t'], st')" "\<not> running t'"
      "consume_partition ext cfg tps role (tk_tp t) ms (Some (m_offset m + 1)) st1
         = (task_result t', st')" by auto
    with step one True show ?thesis
      by (intro Cons.prems(1) [of t' st']) (auto intro: converse_rtranclp_into_rtranclp)
  qed
qed

text \<open>
  Taking the partitions one after the other, as \<open>consume_all\<close> does, is one of the
  interleavings, with the same results and the same final state.
\<close>

theorem consume_all_is_gathered:
  "\<exists>ts. gathered ext cfg tps role polled st ts (snd (consume_all ext cfg tps role polled st))
        \<and> map task_result ts = fst (consume_all ext cfg tps role polled st)"
proof (induction polled arbitrary: st)
  case Nil
  then show ?case by (simp add: gathered_def)
next
  case (Cons p polled)
  obtain tp ms where p: "p = (tp, ms)" by (cases p)
  obtain t st1 where t: "(gather_step ext cfg tps role)\<^sup>*\<^sup>* ([task_init p], st) ([t], st1)"
      "\<not> running t" "consume_partition ext cfg tps role tp ms None st = (task_result t, st1)"
    using gather_single [of "task_init p" ms ext cfg tps role st] p
    by (auto simp: task_init_def)
  obtain ts where ts: "gathered ext cfg tps role polled st1 ts
        (snd (consume_all ext cfg tps role polled st1))"
      "map task_result ts = fst (consume_all ext cfg tps role polled st1)"
    using Cons.IH by blast
  have "(gather_step ext cfg tps role)\<^sup>*\<^sup>* (map task_init (p # polled), st)
      (t # ts, snd (consume_all ext cfg tps role polled st1))"
    using gather_append [OF t(1), of "[]" "map task_init polled"] ts(1)
      gather_append [of ext cfg tps role "map task_init polled" st1 ts _ "[t]" "[]"]
    by (auto simp: gathered_def intro: rtranclp_trans)
  with t(2,3) ts p show ?case
    by (intro exI [of _ "t # ts"]) (simp add: gathered_def split_beta)
qed

subsection \<open>The consumer's position and the committed offsets\<close>

text \<open>
  \<open>gs_handled\<close> is the history of the messages the loop has handled to the end. A log is the list of
  the records of a partition in the order of their offsets, gaps allowed.
\<close>

record group_state =
  gs_run :: run_state
  gs_position :: "topic_partition \<Rightarrow> int"
  gs_committed :: "topic_partition \<Rightarrow> int"
  gs_handled :: "(topic_partition \<times> ConsumerRecord) set"

type_synonym partition_logs = "topic_partition \<Rightarrow> ConsumerRecord list"

definition log_ok :: "partition_logs \<Rightarrow> bool" where
  "log_ok lg \<longleftrightarrow> (\<forall>tp. sorted_wrt (<) (map m_offset (lg tp)))"

definition fetched ::
  "partition_logs \<Rightarrow> (topic_partition \<Rightarrow> int) \<Rightarrow> (topic_partition \<times> ConsumerRecord list) list \<Rightarrow> bool" where
  "fetched lg pos polled \<longleftrightarrow>
     distinct (map fst polled)
     \<and> (\<forall>(tp, ms) \<in> set polled. ms \<noteq> [] \<and> prefix ms (filter (\<lambda>m. pos tp \<le> m_offset m) (lg tp)))"

definition after_fetch ::
  "(topic_partition \<Rightarrow> int) \<Rightarrow> (topic_partition \<times> ConsumerRecord list) list \<Rightarrow> topic_partition \<Rightarrow> int" where
  "after_fetch pos polled tp =
     (case map_of polled tp of None \<Rightarrow> pos tp | Some ms \<Rightarrow> m_offset (last ms) + 1)"

definition after_seeks ::
  "consumer_call list \<Rightarrow> (topic_partition \<Rightarrow> int) \<Rightarrow> topic_partition \<Rightarrow> int" where
  "after_seeks cs pos tp = (if seeks_of tp cs = [] then pos tp else last (seeks_of tp cs))"

definition after_commit ::
  "(topic_partition \<times> int) list \<Rightarrow> (topic_partition \<Rightarrow> int) \<Rightarrow> topic_partition \<Rightarrow> int" where
  "after_commit offs com tp = (case map_of offs tp of None \<Rightarrow> com tp | Some n \<Rightarrow> n)"

definition handled_in :: "task list \<Rightarrow> (topic_partition \<times> ConsumerRecord) set" where
  "handled_in ts = (\<Union>t \<in> set ts. {tk_tp t} \<times> set (tk_handled t))"

text \<open>
  A pass, whose commit may be lost; or a pass that is cut short anywhere (possibly before its first
  turn), after which a consumer starts again from the committed offsets.
\<close>

inductive group_step ::
  "externals \<Rightarrow> Settings \<Rightarrow> topics \<Rightarrow> delivery set \<Rightarrow> partition_logs \<Rightarrow> group_state \<Rightarrow> group_state \<Rightarrow> bool"
  for ext cfg tps roles lg where
  pass: "role \<in> roles \<Longrightarrow> fetched lg (gs_position g) polled \<Longrightarrow>
     st0 = resume_due_partitions ext (gs_run g) \<Longrightarrow>
     gathered ext cfg tps role polled st0 ts st1 \<Longrightarrow> calls st1 = calls st0 @ cs \<Longrightarrow>
     com = gs_committed g
       \<or> com = after_commit (commit_offsets (map task_result ts)) (gs_committed g) \<Longrightarrow>
     group_step ext cfg tps roles lg g
       \<lparr>gs_run = call (CommitOffsets (commit_offsets (map task_result ts))) st1,
        gs_position = after_seeks cs (after_fetch (gs_position g) polled),
        gs_committed = com, gs_handled = gs_handled g \<union> handled_in ts\<rparr>"
| restart: "role \<in> roles \<Longrightarrow> fetched lg (gs_position g) polled \<Longrightarrow>
     (gather_step ext cfg tps role)\<^sup>*\<^sup>* (map task_init polled, gs_run g) (ts, st1) \<Longrightarrow>
     group_step ext cfg tps roles lg g
       \<lparr>gs_run = st1\<lparr>paused_until := [], calls := []\<rparr>, gs_position = gs_committed g,
        gs_committed = gs_committed g, gs_handled = gs_handled g \<union> handled_in ts\<rparr>"

text \<open>Below an offset, everything in the log is in the history.\<close>

definition complete_below ::
  "partition_logs \<Rightarrow> (topic_partition \<Rightarrow> int) \<Rightarrow> (topic_partition \<times> ConsumerRecord) set \<Rightarrow> bool" where
  "complete_below lg off H \<longleftrightarrow>
     (\<forall>tp m. m \<in> set (lg tp) \<longrightarrow> m_offset m < off tp \<longrightarrow> (tp, m) \<in> H)"

lemma complete_belowD:
  "complete_below lg off H \<Longrightarrow> m \<in> set (lg tp) \<Longrightarrow> m_offset m < off tp \<Longrightarrow> (tp, m) \<in> H"
  unfolding complete_below_def by blast

lemma log_okD: "log_ok lg \<Longrightarrow> sorted_wrt (<) (map m_offset (lg tp))"
  unfolding log_ok_def by blast

lemma complete_below_mono:
  "complete_below lg off H \<Longrightarrow> H \<subseteq> H' \<Longrightarrow> complete_below lg off H'"
  by (auto simp: complete_below_def)

lemma batch_below:
  assumes "sorted_wrt (<) (map m_offset l)"
    and "prefix (dn @ rest) (filter (\<lambda>m. p \<le> m_offset m) l)"
    and "m \<in> set l" and "m \<notin> set dn" and "p \<le> m_offset m"
  shows "(\<forall>x \<in> set dn. m_offset x < m_offset m)
    \<and> (rest \<noteq> [] \<longrightarrow> m_offset (hd rest) \<le> m_offset m)"
proof -
  from assms(2) obtain zs where zs: "filter (\<lambda>m. p \<le> m_offset m) l = dn @ rest @ zs"
    by (auto simp: prefix_def)
  have sorted: "sorted_wrt (\<lambda>x y. m_offset x < m_offset y) (dn @ rest @ zs)"
    using assms(1) by (simp only: zs [symmetric]) (simp add: sorted_wrt_map sorted_wrt_filter)
  have "m \<in> set (dn @ rest @ zs)" using assms(3,5) by (simp only: zs [symmetric]) simp
  with assms(4) have "m \<in> set (rest @ zs)" by auto
  with sorted show ?thesis
    by (cases rest) (auto simp: sorted_wrt_append intro: order_less_imp_le)
qed

text \<open>What one partition's task makes safe: the offset it reports and the position it leaves.\<close>

lemma task_complete:
  assumes "log_ok lg" and "complete_below lg pos H"
    and "prefix (dn @ rest) (filter (\<lambda>m. pos tp \<le> m_offset m) (lg tp))"
    and "{tp} \<times> set dn \<subseteq> H" and "m \<in> set (lg tp)"
    and "m_offset m < off" and "dn \<noteq> [] \<and> off = m_offset (last dn) + 1
           \<or> rest \<noteq> [] \<and> off = m_offset (hd rest)"
  shows "(tp, m) \<in> H"
proof (cases "m_offset m < pos tp")
  case True
  with assms(2,5) show ?thesis unfolding complete_below_def by blast
next
  case False
  have "m \<in> set dn"
  proof (rule ccontr)
    assume "m \<notin> set dn"
    with batch_below [OF log_okD [OF assms(1)] assms(3,5)] False
    have "(\<forall>x \<in> set dn. m_offset x < m_offset m)
        \<and> (rest \<noteq> [] \<longrightarrow> m_offset (hd rest) \<le> m_offset m)"
      by simp
    with assms(6,7) show False by (cases "dn = []") (auto dest!: bspec [OF _ last_in_set])
  qed
  with assms(4) show ?thesis by auto
qed

lemma commit_offsets_member: "map_of (commit_offsets rs) tp = Some n \<Longrightarrow> (tp, Some n) \<in> set rs"
  by (induction rs rule: commit_offsets.induct) (auto split: option.splits if_splits)

lemma tasks_member:
  assumes "list_all2 (\<lambda>p t. task_ok p cs t) polled ts" and "t \<in> set ts"
  shows "\<exists>ms. (tk_tp t, ms) \<in> set polled \<and> task_ok (tk_tp t, ms) cs t"
proof -
  from assms(2) obtain i where "i < length ts" "t = ts ! i" by (auto simp: in_set_conv_nth)
  with assms(1) have "polled ! i \<in> set polled" "task_ok (polled ! i) cs t"
    by (simp_all add: list_all2_conv_all_nth)
  then obtain p where "p \<in> set polled" "task_ok p cs t" by blast
  then show ?thesis by (cases p) (auto simp: task_ok_def)
qed

lemma polled_member:
  assumes "list_all2 (\<lambda>p t. task_ok p cs t) polled ts" and "(tp, ms) \<in> set polled"
  obtains t where "t \<in> set ts" "task_ok (tp, ms) cs t"
  using assms by (auto simp: list_all2_conv_all_nth in_set_conv_nth) (metis nth_mem)

lemma handled_in_task: "t \<in> set ts \<Longrightarrow> {tk_tp t} \<times> set (tk_handled t) \<subseteq> handled_in ts"
  by (auto simp: handled_in_def)

lemma commit_complete:
  assumes "log_ok lg" and "complete_below lg pos H" and "complete_below lg com H"
    and "fetched lg pos polled" and "list_all2 (\<lambda>p t. task_ok p cs t) polled ts"
    and "handled_in ts \<subseteq> H"
  shows "complete_below lg (after_commit (commit_offsets (map task_result ts)) com) H"
  unfolding complete_below_def
proof (intro allI impI)
  fix tp m
  assume m: "m \<in> set (lg tp)"
    and less: "m_offset m < after_commit (commit_offsets (map task_result ts)) com tp"
  show "(tp, m) \<in> H"
  proof (cases "map_of (commit_offsets (map task_result ts)) tp")
    case None
    with less have "m_offset m < com tp" by (simp add: after_commit_def)
    with m assms(3) show ?thesis by (blast intro: complete_belowD)
  next
    case (Some n)
    then have "(tp, Some n) \<in> task_result ` set ts" by (auto dest: commit_offsets_member)
    then obtain t where t: "t \<in> set ts" "tk_tp t = tp" "tk_commit t = Some n"
      by (auto simp: task_result_def)
    with tasks_member [OF assms(5)] obtain ms where ms: "(tp, ms) \<in> set polled"
      "tk_handled t @ tk_rest t = ms" "offset_after None (tk_handled t) = Some n"
      by (force simp: task_ok_def)
    have "{tp} \<times> set (tk_handled t) \<subseteq> H" using t handled_in_task [OF t(1)] assms(6) by blast
    moreover have "prefix (tk_handled t @ tk_rest t) (filter (\<lambda>m. pos tp \<le> m_offset m) (lg tp))"
      using assms(4) ms(1,2) unfolding fetched_def by blast
    moreover have "tk_handled t \<noteq> [] \<and> n = m_offset (last (tk_handled t)) + 1"
      using ms(3) by (auto simp: offset_after_def split: if_splits)
    moreover have "m_offset m < n" using less Some by (simp add: after_commit_def)
    ultimately show ?thesis using assms(1,2) m by (blast intro: task_complete)
  qed
qed

lemma position_complete:
  assumes "log_ok lg" and "complete_below lg pos H"
    and "fetched lg pos polled" and "list_all2 (\<lambda>p t. task_ok p cs t) polled ts"
    and "list_all (\<lambda>t. \<not> running t) ts"
    and "\<forall>tp. tp \<notin> fst ` set polled \<longrightarrow> seeks_of tp cs = []" and "handled_in ts \<subseteq> H"
  shows "complete_below lg (after_seeks cs (after_fetch pos polled)) H"
  unfolding complete_below_def
proof (intro allI impI)
  fix tp m
  assume m: "m \<in> set (lg tp)" and less: "m_offset m < after_seeks cs (after_fetch pos polled) tp"
  show "(tp, m) \<in> H"
  proof (cases "map_of polled tp")
    case None
    then have "seeks_of tp cs = []" using assms(6) by (metis map_of_eq_None_iff)
    with None less have "m_offset m < pos tp" by (simp add: after_seeks_def after_fetch_def)
    with m assms(2) show ?thesis by (blast intro: complete_belowD)
  next
    case (Some ms)
    then have mem: "(tp, ms) \<in> set polled" by (rule map_of_SomeD)
    with assms(4) obtain t where t: "t \<in> set ts" "task_ok (tp, ms) cs t" by (rule polled_member)
    then have "\<not> running t" "tk_tp t = tp" "tk_handled t @ tk_rest t = ms"
      using assms(5) by (auto simp: list_all_iff task_ok_def)
    moreover from this have "{tp} \<times> set (tk_handled t) \<subseteq> H"
      using handled_in_task [OF t(1)] assms(7) by blast
    moreover have fetch: "ms \<noteq> []" "prefix ms (filter (\<lambda>m. pos tp \<le> m_offset m) (lg tp))"
      using assms(3) mem unfolding fetched_def by blast+
    moreover have "tk_handled t \<noteq> []
        \<and> after_seeks cs (after_fetch pos polled) tp = m_offset (last (tk_handled t)) + 1
      \<or> tk_rest t \<noteq> [] \<and> after_seeks cs (after_fetch pos polled) tp = m_offset (hd (tk_rest t))"
      using t(2) Some fetch(1) \<open>\<not> running t\<close>
      by (auto simp: task_ok_def running_def after_seeks_def after_fetch_def split: if_splits)
    ultimately show ?thesis using assms(1,2) m less by (blast intro: task_complete)
  qed
qed

definition group_ok :: "partition_logs \<Rightarrow> group_state \<Rightarrow> bool" where
  "group_ok lg g \<longleftrightarrow>
     complete_below lg (gs_position g) (gs_handled g)
     \<and> complete_below lg (gs_committed g) (gs_handled g)"

lemma group_step_ok:
  assumes "log_ok lg" and "group_step ext cfg tps roles lg g g'" and "group_ok lg g"
  shows "group_ok lg g'"
  using assms(2)
proof (cases rule: group_step.cases)
  case (pass role polled st0 ts st1 cs com)
  let ?H = "gs_handled g \<union> handled_in ts"
  have old: "complete_below lg (gs_position g) ?H" "complete_below lg (gs_committed g) ?H"
    using assms(3) by (auto simp: group_ok_def intro: complete_below_mono)
  have "distinct (map fst polled)" using pass(3) by (simp add: fetched_def)
  from gathered_ok [OF pass(5) this] pass(6)
  have tasks: "list_all2 (\<lambda>p t. task_ok p cs t) polled ts"
      "\<forall>tp. tp \<notin> fst ` set polled \<longrightarrow> seeks_of tp cs = []"
    by (auto simp: tasks_ok_def)
  have "list_all (\<lambda>t. \<not> running t) ts" using pass(5) by (simp add: gathered_def)
  then have "complete_below lg (after_seeks cs (after_fetch (gs_position g) polled)) ?H"
    using assms(1) old(1) pass(3) tasks by (blast intro: position_complete)
  moreover have "complete_below lg com ?H"
    using pass(7) commit_complete [OF assms(1) old pass(3) tasks(1)] old(2) by blast
  ultimately show ?thesis using pass(1) by (simp add: group_ok_def)
next
  case (restart role polled ts st1)
  then show ?thesis
    using assms(3) by (auto simp: group_ok_def intro: complete_below_mono)
qed

subsection \<open>What it means that a message was handled\<close>

text \<open>
  It belongs to another role, or the role answered that it succeeded, or the role answered that it
  failed and Kafka has acknowledged a record with its value on the retry or dead-letter topic.
\<close>

definition accounted :: "externals \<Rightarrow> Settings \<Rightarrow> topics \<Rightarrow> delivery set \<Rightarrow> ConsumerRecord \<Rightarrow> bool" where
  "accounted ext cfg tps roles m \<longleftrightarrow>
     skipped tps m
     \<or> (\<exists>role \<in> roles. \<exists>w ok err w1. role m (m_value m) w = (Inr (ok, err), w1)
          \<and> (ok \<or> (\<exists>w' rec. handle_message ext cfg tps (role m) m w = (Inr (), w')
                 \<and> acked w' = acked w1 @ [rec] \<and> kr_value rec = m_value m
                 \<and> kr_topic rec \<in> {retry_topic tps, kafka_dlq_topic cfg})))"

lemma publish_retry_Inr:
  assumes "publish_retry ext cfg tps m c origin reason w = (Inr (), w')"
  shows "\<exists>rec. acked w' = acked w @ [rec] \<and> kr_value rec = m_value m
    \<and> kr_topic rec = retry_topic tps"
  using assms
  by (auto simp: publish_retry_def Let_def now_ms_def split: sum.splits prod.splits
           dest: publish_Inr(1))

lemma publish_dlq_Inr:
  assumes "publish_dlq ext cfg m c origin reason w = (Inr (), w')"
  shows "\<exists>rec. acked w' = acked w @ [rec] \<and> kr_value rec = m_value m
    \<and> kr_topic rec = kafka_dlq_topic cfg"
  using assms
  by (auto simp: publish_dlq_def Let_def split: sum.splits prod.splits dest: publish_Inr(1))

lemma handle_message_accounted:
  assumes "handle_message ext cfg tps (role m) m w = (Inr (), w')" and "role \<in> roles"
  shows "accounted ext cfg tps roles m"
proof (cases "skipped tps m")
  case True
  then show ?thesis by (simp add: accounted_def)
next
  case False
  with assms(1) obtain ok err w1 where r: "role m (m_value m) w = (Inr (ok, err), w1)"
    by (auto simp: handle_message_def Let_def split: prod.splits sum.splits)
  show ?thesis
  proof (cases ok)
    case True
    with r assms(2) show ?thesis unfolding accounted_def by blast
  next
    case no: False
    have "\<exists>rec. acked w' = acked w1 @ [rec] \<and> kr_value rec = m_value m
        \<and> kr_topic rec \<in> {retry_topic tps, kafka_dlq_topic cfg}"
      using assms(1) r no False
      by (auto simp: handle_message_def Let_def split: if_splits
               dest!: publish_retry_Inr publish_dlq_Inr)
    with r assms show ?thesis unfolding accounted_def by blast
  qed
qed

lemma consume_one_accounted:
  assumes "consume_one ext cfg tps role tp m st = (True, st')" and "role \<in> roles"
  shows "accounted ext cfg tps roles m"
proof -
  from assms(1) obtain w w' where "handle_message ext cfg tps (role m) m w = (Inr (), w')"
    by (auto simp: consume_one_def handle_one_def Let_def split: if_splits prod.splits sum.splits)
  then show ?thesis using assms(2) by (rule handle_message_accounted)
qed

definition tasks_accounted ::
  "externals \<Rightarrow> Settings \<Rightarrow> topics \<Rightarrow> delivery set \<Rightarrow> task list \<times> run_state \<Rightarrow> bool" where
  "tasks_accounted ext cfg tps roles s \<longleftrightarrow>
     (\<forall>t \<in> set (fst s). \<forall>m \<in> set (tk_handled t). accounted ext cfg tps roles m)"

lemma gather_accounted:
  assumes "gather_step ext cfg tps role s s'" and "role \<in> roles"
    and "tasks_accounted ext cfg tps roles s"
  shows "tasks_accounted ext cfg tps roles s'"
proof -
  obtain ts st ts' st' where s: "s = (ts, st)" "s' = (ts', st')" by (cases s; cases s')
  from assms(1) s obtain i t where i: "i < length ts"
    "turn ext cfg tps role (ts ! i) st = (t, st')" "ts' = ts[i := t]"
    by (auto elim: gather_stepE)
  have "\<forall>m \<in> set (tk_handled (ts ! i)). accounted ext cfg tps roles m"
    using assms(3) s nth_mem [OF i(1)] by (simp add: tasks_accounted_def)
  then have "\<forall>m \<in> set (tk_handled t). accounted ext cfg tps roles m"
    using i(2) assms(2)
    by (auto simp: turn_def split: list.splits prod.splits bool.splits
             dest: consume_one_accounted [where roles = roles])
  with assms(3) s i(3) show ?thesis
    by (auto simp: tasks_accounted_def dest!: set_update_subset_insert [THEN subsetD])
qed

lemma gather_steps_accounted:
  assumes "(gather_step ext cfg tps role)\<^sup>*\<^sup>* (map task_init polled, st) s" and "role \<in> roles"
  shows "tasks_accounted ext cfg tps roles s"
proof -
  have "invariant_system (gather_step ext cfg tps role) (tasks_accounted ext cfg tps roles)"
    by unfold_locales (rule gather_accounted [OF _ assms(2)])
  then show ?thesis
    using assms(1)
    by (rule invariant_system.inv_steps) (simp add: tasks_accounted_def task_init_def)
qed

definition history_ok ::
  "externals \<Rightarrow> Settings \<Rightarrow> topics \<Rightarrow> delivery set \<Rightarrow> group_state \<Rightarrow> bool" where
  "history_ok ext cfg tps roles g \<longleftrightarrow>
     (\<forall>(tp, m) \<in> gs_handled g. accounted ext cfg tps roles m)"

lemma group_step_history:
  assumes "group_step ext cfg tps roles lg g g'" and "history_ok ext cfg tps roles g"
  shows "history_ok ext cfg tps roles g'"
  using assms
  by (cases rule: group_step.cases)
     (auto simp: history_ok_def gathered_def handled_in_def tasks_accounted_def
           dest!: gather_steps_accounted [where roles = roles])

text \<open>
  C1: No message is skipped. Start anywhere in the logs; through any number of passes, with any
  interleaving of their partitions, failures, pauses, lost commits and restarts, every message
  from the start up to the committed offset of its partition, and up to the consumer's position,
  has been handled to the end: it is another role's, or the role succeeded on it, or its failure
  is on the retry or dead-letter topic.
\<close>

theorem no_message_skipped:
  assumes "log_ok lg" and "(group_step ext cfg tps roles lg)\<^sup>*\<^sup>* g0 g"
    and "\<forall>tp. list_all (\<lambda>m. gs_committed g0 tp \<le> m_offset m) (lg tp)"
    and "gs_position g0 = gs_committed g0" and "gs_handled g0 = {}"
    and "m \<in> set (lg tp)" and "m_offset m < max (gs_committed g tp) (gs_position g tp)"
  shows "(tp, m) \<in> gs_handled g \<and> accounted ext cfg tps roles m"
proof -
  have "invariant_system (group_step ext cfg tps roles lg) (group_ok lg)"
    and hist: "invariant_system (group_step ext cfg tps roles lg) (history_ok ext cfg tps roles)"
    by unfold_locales (auto intro: group_step_ok [OF assms(1)] group_step_history)
  moreover have "group_ok lg g0"
    using assms(3,4) unfolding group_ok_def complete_below_def list_all_iff by fastforce
  ultimately have "group_ok lg g"
    using assms(2) by (blast intro: invariant_system.inv_steps)
  with assms(6,7) have "(tp, m) \<in> gs_handled g"
    unfolding group_ok_def less_max_iff_disj by (blast intro: complete_belowD)
  moreover have "history_ok ext cfg tps roles g"
    using assms(5) by (intro invariant_system.inv_steps [OF hist assms(2)]) (simp add: history_ok_def)
  ultimately show ?thesis by (auto simp: history_ok_def)
qed

text \<open>One pass over a log of one message, from offset 4 on.\<close>

definition sample_group :: group_state where
  "sample_group = \<lparr>gs_run = sample_run empty_db, gs_position = (\<lambda>_. 4), gs_committed = (\<lambda>_. 4),
                   gs_handled = {}\<rparr>"

definition sample_log :: partition_logs where
  "sample_log tp = (if tp = (''request-topic'', 0) then [sample_msg] else [])"

lemma sample_group_step:
  "\<exists>g. group_step sample_externals default_settings sample_tps {sample_ok_role} sample_log
     sample_group g \<and> gs_committed g (''request-topic'', 0) = 5"
proof -
  have f: "fetched sample_log (gs_position sample_group) sample_polled"
    by (simp add: fetched_def sample_polled_def sample_log_def sample_group_def)
  have r: "sample_run empty_db = resume_due_partitions sample_externals (gs_run sample_group)"
    by (simp add: sample_group_def resume_due_partitions_def)
  show ?thesis
    by (rule exI, rule conjI,
        rule group_step.pass [OF singletonI f r sample_gathered _ disjI2 [OF refl], of "[]"])
       (simp_all add: after_commit_def task_result_def)
qed

theorem no_message_skipped_witness:
  "\<exists>g. (group_step sample_externals default_settings sample_tps {sample_ok_role} sample_log)\<^sup>*\<^sup>*
          sample_group g
     \<and> 4 < gs_committed g (''request-topic'', 0)
     \<and> ((''request-topic'', 0), sample_msg) \<in> gs_handled g"
proof -
  obtain g where g: "group_step sample_externals default_settings sample_tps {sample_ok_role}
      sample_log sample_group g" "gs_committed g (''request-topic'', 0) = 5"
    using sample_group_step by blast
  have "log_ok sample_log" by (simp add: log_ok_def sample_log_def)
  from no_message_skipped [OF this r_into_rtranclp [of "group_step _ _ _ _ _", OF g(1)],
      of sample_msg "(''request-topic'', 0)"] g
  show ?thesis by (auto simp: sample_group_def sample_log_def intro!: exI [of _ g])
qed

end
