(* ===== verification/Lease_Protocol.thy ===== *)
theory Lease_Protocol
  imports Delivery
begin

section \<open>The unified deployment as a transition system\<close>

text \<open>
  Any number of API processes, unified workers and relays on one database. A step is one
  transaction of one of them, with any arguments; since a handler is a sequence of such
  transactions (\<open>worker_handle_event_system\<close>), the runs of this system contain every
  interleaving of any number of handlers, duplicate deliveries, expired leases and lost
  acknowledgements included.
\<close>

inductive system_step :: "db \<Rightarrow> db \<Rightarrow> bool" where
  create: "create_block svc env payload d = Inr (Commit u d') \<Longrightarrow> system_step d d'"
| claim: "claim_block ''worker'' svc env jid tid d = Inr (Commit c d') \<Longrightarrow> system_step d d'"
| success: "success_block svc env jid tid l result d = Inr (Commit b d') \<Longrightarrow> system_step d d'"
| failure: "failure_block ''worker'' svc env jid tid l exc d = Inr (Commit b d') \<Longrightarrow> system_step d d'"
| relay: "jobs d' = jobs d \<Longrightarrow> job_events d' = job_events d \<Longrightarrow> system_step d d'"

subsection \<open>Handlers are runs of the system\<close>

definition env_system :: "svc_env \<Rightarrow> bool" where
  "env_system env \<longleftrightarrow>
     (\<forall>d. system_step\<^sup>*\<^sup>* d (ev_during env d)) \<and> (\<forall>d. system_step\<^sup>*\<^sup>* d (ev_before_fail env d))"

lemma session_system:
  assumes "run_session f block d = (r, d')"
    and "\<And>a d''. block d = Inr (Commit a d'') \<Longrightarrow> system_step d d''"
  shows "system_step\<^sup>*\<^sup>* d d'"
  using assms(1) by (rule run_session_keeps) (auto intro: assms(2))

lemma claim_phase_system:
  "claim_phase ''worker'' svc env jid tid w = (r, w') \<Longrightarrow> system_step\<^sup>*\<^sup>* (wdb w) (wdb w')"
  by (drule claim_phase_wdb) (auto intro: session_system system_step.claim)

lemma success_phase_system:
  "success_phase svc env jid tid l result w = (r, w') \<Longrightarrow> system_step\<^sup>*\<^sup>* (wdb w) (wdb w')"
  by (drule success_phase_wdb) (auto intro: session_system system_step.success)

lemma failure_phase_system:
  "failure_phase ''worker'' svc env jid tid l exc w = (r, w') \<Longrightarrow> system_step\<^sup>*\<^sup>* (wdb w) (wdb w')"
  by (drule failure_phase_wdb) (auto intro: session_system system_step.failure)

lemma worker_try_system:
  assumes "worker_try svc env process event jid tid l w = (r, w')" and "env_system env"
  shows "system_step\<^sup>*\<^sup>* (wdb w) (wdb w')"
proof -
  have during: "system_step\<^sup>*\<^sup>* (wdb w) (ev_during env (wdb w))"
    using assms(2) by (simp add: env_system_def)
  show ?thesis
  proof (cases "process_request process event")
    case (Inl e)
    with assms(1) during show ?thesis by (auto simp: worker_try_def Let_def)
  next
    case (Inr x)
    with assms(1) have "success_phase svc (ev_finish env) jid tid l (snd x)
        (world_env (ev_during env) w) = (r, w')"
      by (simp add: worker_try_def Let_def split_beta)
    with success_phase_system [OF this] during show ?thesis by (auto intro: rtranclp_trans)
  qed
qed

lemma worker_handle_event_system:
  assumes "worker_handle_event svc env process event w = (r, w')" and "env_system env"
  shows "system_step\<^sup>*\<^sup>* (wdb w) (wdb w')"
proof (cases "\<exists>jid tid l w1. py_getitem event ''job_id'' = Inr jid
    \<and> py_getitem event ''trace_id'' = Inr tid
    \<and> claim_phase ''worker'' svc (ev_claim env) jid tid w = (Inr (Claimed l), w1)")
  case False
  with assms(1) show ?thesis
    by (auto simp: worker_handle_event_def split: sum.splits prod.splits claim_result.splits
             intro: claim_phase_system)
next
  case True
  then obtain jid tid l w1 where ids: "py_getitem event ''job_id'' = Inr jid"
      "py_getitem event ''trace_id'' = Inr tid"
    and c: "claim_phase ''worker'' svc (ev_claim env) jid tid w = (Inr (Claimed l), w1)"
    by blast
  obtain r2 w2 where t: "worker_try svc env process event jid tid l w1 = (r2, w2)"
    by (cases "worker_try svc env process event jid tid l w1")
  have w2: "system_step\<^sup>*\<^sup>* (wdb w) (wdb w2)"
    using claim_phase_system [OF c] worker_try_system [OF t assms(2)] by (rule rtranclp_trans)
  show ?thesis
  proof (cases r2)
    case (Inr x)
    with assms(1) ids c t w2 show ?thesis by (auto simp: worker_handle_event_def)
  next
    case (Inl exc)
    obtain r3 w3 where f: "failure_phase ''worker'' svc (ev_fail env) jid tid l exc
        (world_env (ev_before_fail env) w2) = (r3, w3)"
      by (cases "failure_phase ''worker'' svc (ev_fail env) jid tid l exc
        (world_env (ev_before_fail env) w2)")
    have "system_step\<^sup>*\<^sup>* (wdb w2) (ev_before_fail env (wdb w2))"
      using assms(2) by (simp add: env_system_def)
    with failure_phase_system [OF f] w2 have "system_step\<^sup>*\<^sup>* (wdb w) (wdb w3)"
      by (auto intro: rtranclp_trans)
    with assms(1) ids c t Inl f show ?thesis by (auto simp: worker_handle_event_def)
  qed
qed

subsection \<open>One completion per job\<close>

definition completions :: "db \<Rightarrow> string \<Rightarrow> nat" where
  "completions d k =
     length (filter (\<lambda>e. je_job_id e = k \<and> je_event_type e = event_value PROCESSING_COMPLETED)
               (job_events d))"

definition succeeded :: "db \<Rightarrow> string \<Rightarrow> bool" where
  "succeeded d k \<longleftrightarrow> map_option jm_status (jobs d k) = Some (status_value SUCCESS)"

definition completed_once :: "db \<Rightarrow> bool" where
  "completed_once d \<longleftrightarrow> (\<forall>k. completions d k = (if succeeded d k then 1 else 0))"

lemma completed_once_row:
  assumes "completed_once d" and "jobs d' = (jobs d)(k \<mapsto> r')"
    and "job_events d' = job_events d @ [ev]" and "je_job_id ev = k" and "\<not> succeeded d k"
    and "jm_status r' = status_value SUCCESS
           \<longleftrightarrow> je_event_type ev = event_value PROCESSING_COMPLETED"
  shows "completed_once d'"
  unfolding completed_once_def
proof
  fix k'
  have "completions d k' = (if succeeded d k' then 1 else 0)"
    using assms(1) by (simp add: completed_once_def)
  with assms(2-6) show "completions d' k' = (if succeeded d' k' then 1 else 0)"
    by (auto simp: completions_def succeeded_def split: if_splits)
qed

lemma system_step_once: "system_step d d' \<Longrightarrow> completed_once d \<Longrightarrow> completed_once d'"
proof (induction rule: system_step.induct)
  case (create svc env payload d u d')
  then show ?case
    by (elim create_block_Commit completed_once_row) (auto simp: succeeded_def)
next
  case (claim svc env jid tid d c d')
  then show ?case
    by (elim claim_block_Commit completed_once_row)
       (auto simp: succeeded_def claimable_def)
next
  case (success svc env jid tid l result d b d')
  then show ?case
    by (elim success_block_Commit completed_once_row) (auto simp: succeeded_def)
next
  case (failure svc env jid tid l exc d b d')
  then show ?case
    by (elim failure_block_Commit completed_once_row) (auto simp: succeeded_def)
next
  case (relay d' d)
  then show ?case by (simp add: completed_once_def completions_def succeeded_def)
qed

interpretation once: invariant_system system_step completed_once
  by unfold_locales (rule system_step_once)

text \<open>
  C3: A job is completed at most once. In every database that API processes, unified workers and
  relays can produce from an empty one, in whatever interleaving, a job has exactly one
  PROCESSING_COMPLETED event if it is SUCCESS and none otherwise.
\<close>

theorem job_completed_once:
  assumes "system_step\<^sup>*\<^sup>* empty_db d"
  shows "completions d k = (if succeeded d k then 1 else 0)"
proof -
  have "completed_once empty_db"
    by (simp add: completed_once_def completions_def succeeded_def empty_db_def)
  with assms have "completed_once d" by (rule once.inv_steps)
  then show ?thesis by (simp add: completed_once_def)
qed

text \<open>A job that is created and waits.\<close>

theorem job_completed_once_witness:
  "\<exists>d. system_step\<^sup>*\<^sup>* empty_db d \<and> jobs d ''rx'' \<noteq> None \<and> completions d ''rx'' = 0"
proof -
  obtain d where d: "create_block sample_js (sample_tx (CHR ''r'')) (PDict []) empty_db
      = Inr (Commit () d)" using sample_block by blast
  then have step: "system_step\<^sup>*\<^sup>* empty_db d" by (blast intro: system_step.create)
  from d have "jobs d ''rx'' \<noteq> None \<and> \<not> succeeded d ''rx''"
    by (rule create_block_Commit) (simp add: succeeded_def)
  with step job_completed_once [OF step, of "''rx''"] show ?thesis by auto
qed

text \<open>
  The handlers are runs of that system. Whatever a unified worker does with an event, beside
  other processes that keep to the system's transactions, keeps the property: if every job had one
  completion per success before, every job has it afterwards.
\<close>

theorem worker_keeps_completed_once:
  assumes "env_system env" and "completed_once (wdb w)"
  shows "completed_once (wdb (snd (worker_handle_event svc env process event w)))"
  using worker_handle_event_system [OF _ assms(1)] assms(2)
  by (metis once.inv_steps prod.collapse)

theorem worker_keeps_completed_once_witness:
  "completed_once (wdb (snd (worker_handle_event sample_svc sample_env sample_process sample_event
     sample_pending)))"
proof -
  have "env_system sample_env" by (simp add: env_system_def)
  moreover have "completed_once (wdb sample_pending)"
    by (simp add: completed_once_def completions_def succeeded_def sample_pending_def)
  ultimately show ?thesis by (rule worker_keeps_completed_once)
qed

end
