(* ===== verification/End_To_End.thy ===== *)
theory End_To_End
  imports Api Batching Lease_Protocol
begin

section \<open>From the request to the result\<close>

text \<open>
  The components put together: a request creates a job, the relay publishes its message, the
  unified worker consumes the message, and the job can be read with its result.
\<close>

subsection \<open>What a relay pass leaves alone\<close>

lemma mark_jobs [simp]:
  "jobs (mark_failed i e d) = jobs d" "jobs (mark_published now ids d) = jobs d"
  "job_events (mark_failed i e d) = job_events d"
  "job_events (mark_published now ids d) = job_events d"
  "map ob_message_id (outbox_messages (mark_failed i e d)) = map ob_message_id (outbox_messages d)"
  "map ob_message_id (outbox_messages (mark_published now ids d)) = map ob_message_id (outbox_messages d)"
  by (simp_all add: mark_failed_def mark_published_def fail_row_def publish_row_def)

lemma drain_loop_jobs:
  "drain_loop ext ms sent d w = (sent', d', w') \<Longrightarrow> jobs d' = jobs d \<and> job_events d' = job_events d
     \<and> map ob_message_id (outbox_messages d') = map ob_message_id (outbox_messages d)"
  by (induction ext ms sent d w rule: drain_loop.induct) (auto split: prod.splits sum.splits)

lemma drain_once_jobs:
  assumes "drain_once rl ext re w = (r, w')"
  shows "jobs (wdb w') = jobs (re_during re (wdb w))"
    and "job_events (wdb w') = job_events (re_during re (wdb w))"
    and "map ob_message_id (outbox_messages (wdb w')) = map ob_message_id (outbox_messages (re_during re (wdb w)))"
  using assms
  by (auto simp: drain_once_def Let_def dest: drain_loop_jobs
        split: option.splits if_splits prod.splits tx_fault.splits)

text \<open>An undisturbed pass with room for all sends everything that is pending, in order.\<close>

lemma drain_once_all:
  assumes "outbox_ok (wdb w)" "quiet re" "drain_once rl ext re w = (r, w')"
    and "\<forall>n rec. send_result ext n rec = None"
    and "length (pending_items (wdb w)) \<le> nat (rl_batch_size rl)"
  shows "acked w' = acked w @ map wire_record (pending_items (wdb w))" "pending_items (wdb w') = []"
proof -
  from drain_once_queue [OF assms(1) quiet_calm [OF assms(2,1)] assms(3)]
  obtain n where n: "n \<le> length (pending_items (wdb w))"
    "acked w' = acked w @ map wire_record (take n (pending_items (wdb w)))"
    "map wire_record (pending_items (wdb w')) = drop n (map wire_record (pending_items (re_during re (wdb w))))"
    "n < nat (rl_batch_size rl) \<longrightarrow> n < length (pending_items (wdb w)) \<longrightarrow>
       send_result ext (send_calls w + n) (wire_record (pending_items (wdb w) ! n)) \<noteq> None"
    by blast
  with assms(4,5) have "n = length (pending_items (wdb w))"
    by (metis le_antisym le_less_trans linorder_not_less)
  with n(2,3) assms(2) show "acked w' = acked w @ map wire_record (pending_items (wdb w))"
    "pending_items (wdb w') = []"
    by (simp_all add: quiet_def)
qed

subsection \<open>What a first request leaves\<close>

lemma create_block_outbox_ok:
  "create_block svc env payload d = Inr (Commit u d') \<Longrightarrow> outbox_ok d \<Longrightarrow> outbox_ok d'"
proof -
  assume "create_block svc env payload d = Inr (Commit u d')" "outbox_ok d"
  then obtain d1 d2 m where
    "job_add (tx_dbnow env) (new_job env payload) d = Inr d1"
    "event_add (tx_dbnow env) (request_event env payload) d1 = Inr d2"
    and o: "outbox_add (tx_dbnow env) (tx_uuid env 4) (js_topic svc) (request_event env payload) None d2
      = Inr (m, d')"
    by (auto simp: create_block_def)
  then have "outbox_messages d2 = outbox_messages d" "outbox_seq d2 = outbox_seq d"
    by (auto simp: job_add_def event_add_def split: if_splits)
  with \<open>outbox_ok d\<close> have "outbox_ok d2" by (simp add: outbox_ok_def)
  with o show "outbox_ok d'" by (rule outbox_add_ok)
qed

lemma create_block_message_ids:
  assumes "create_block svc env payload d = Inr (Commit u d')"
  shows "map ob_message_id (outbox_messages d') = map ob_message_id (outbox_messages d) @ [tx_uuid env 4]"
  using assms
  by (auto simp: create_block_def job_add_def outbox_add_def varchar_Inr split: if_splits
        dest!: event_add_frame(2))

lemma create_job_written:
  assumes "create_job st svc env payload ikey w s = (Inr j, w', s')"
    and "wdb w' \<noteq> ce_db env (wdb w)"
  shows "j = new_job (ce_tx env) payload"
    and "\<exists>u. create_block svc (ce_tx env) payload (ce_db env (wdb w)) = Inr (Commit u (wdb w'))"
    and "acked w' = acked w"
proof -
  from assms obtain key s2 where wr: "write_job st svc env payload key (world_env (ce_db env) w) s2
      = (Inr j, w', s')"
    by (auto simp: create_job_def Let_def return_existing_def
             split: sum.splits option.splits prod.splits bool.splits)
  then obtain u d' where run: "run_session (tx_fault (ce_tx env))
      (create_block svc (ce_tx env) payload) (ce_db env (wdb w)) = (Inr u, d')"
    and w': "w' = count_metric JOB_CREATED_TOTAL 1 ((world_env (ce_db env) w)\<lparr>wdb := d'\<rparr>)"
    and j: "j = new_job (ce_tx env) payload"
    by (auto simp: write_job_def split: prod.splits sum.splits)
  from run have "create_block svc (ce_tx env) payload (ce_db env (wdb w)) = Inr (Commit u d')"
    by (rule run_session_Inr) (auto simp: create_block_def)
  with w' j show "j = new_job (ce_tx env) payload"
    "\<exists>u. create_block svc (ce_tx env) payload (ce_db env (wdb w)) = Inr (Commit u (wdb w'))"
    "acked w' = acked w"
    by (auto simp: world_env_def)
qed

subsection \<open>The way of a job\<close>

text \<open>A delivery in which both transactions commit with new identifiers and nobody interferes.\<close>

definition smooth_delivery :: "svc_env \<Rightarrow> db \<Rightarrow> bool" where
  "smooth_delivery env d \<longleftrightarrow>
     tx_fault (ev_claim env) = TxOk \<and> tx_fault (ev_finish env) = TxOk \<and>
     ev_during env = (\<lambda>d. d) \<and> env_ok env \<and>
     uuid_fresh (tx_uuid (ev_claim env) 0) d \<and> uuid_fresh (tx_uuid (ev_finish env) 0) d \<and>
     tx_uuid (ev_finish env) 0 \<noteq> tx_uuid (ev_claim env) 0"

lemma claim_undisturbed:
  assumes "tx_fault (ev_claim env) = TxOk" "ev_during env = (\<lambda>d. d)"
    and "uuid_fresh (tx_uuid (ev_claim env) 0) (wdb w)"
    and "jobs (wdb w) k = Some r" "claimable (tx_now (ev_claim env)) r" "short_names k t" "str_len source \<le> 64"
  shows "undisturbed source svc env k t r w"
    and "je_event_id ` set (job_events (db_processed source svc env k t w)) =
      insert (tx_uuid (ev_claim env) 0) (je_event_id ` set (job_events (wdb w)))"
    and "outbox_messages (db_processed source svc env k t w) = outbox_messages (wdb w)"
proof -
  let ?e = "ev_claim env"
  obtain w1 where c: "claim_phase source svc ?e (PStr k) (PStr t) w
        = (Inr (Claimed (claimed_lease svc ?e r)), w1)"
    "jobs (wdb w1) = (jobs (wdb w))(k \<mapsto>
       claim_row (tx_now ?e) (tx_dbnow ?e) (svc_worker_id svc) (svc_lease_seconds svc) r)"
    "job_events (wdb w1) = job_events (wdb w) @
       [new_event (tx_dbnow ?e) (tx_uuid ?e 0) k PROCESSING_STARTED source t
          (PDict [(''lease_epoch'', PInt (jm_lease_epoch r + 1))]) (wdb w)]"
    "outbox_messages (wdb w1) = outbox_messages (wdb w)"
    by (rule claim_phase_claims [OF assms(4,5,1,3,6,7), where svc = svc])
  have d: "db_processed source svc env k t w = wdb w1" by (simp add: db_processed_def c(1) assms(2))
  show "undisturbed source svc env k t r w"
    using assms by (simp add: undisturbed_def d c(2))
  show "je_event_id ` set (job_events (db_processed source svc env k t w)) =
      insert (tx_uuid (ev_claim env) 0) (je_event_id ` set (job_events (wdb w)))"
    by (simp add: d c(3) new_event_def)
  show "outbox_messages (db_processed source svc env k t w) = outbox_messages (wdb w)"
    by (simp add: d c(4))
qed

lemma smooth_undisturbed:
  assumes "smooth_delivery env (wdb w)" "jobs (wdb w) k = Some r" "claimable (tx_now (ev_claim env)) r"
    and "short_names k t" "str_len source \<le> 64"
  shows "undisturbed source svc env k t r w"
    and "uuid_fresh (tx_uuid (ev_finish env) 0) (db_processed source svc env k t w)"
proof -
  have u: "tx_fault (ev_claim env) = TxOk" "ev_during env = (\<lambda>d. d)"
      "uuid_fresh (tx_uuid (ev_claim env) 0) (wdb w)"
    using assms(1) by (simp_all add: smooth_delivery_def)
  note c = claim_undisturbed [OF u assms(2-5), of svc]
  show "undisturbed source svc env k t r w" by (rule c(1))
  show "uuid_fresh (tx_uuid (ev_finish env) 0) (db_processed source svc env k t w)"
    using assms(1) by (simp add: uuid_fresh_def c(2) smooth_delivery_def)
qed

lemma request_event_names: "names_job (request_event env payload) (tx_uuid env 1) (tx_uuid env 2)"
  by (simp add: names_job_def request_event_def)

lemma request_event_request:
  "process payload = Inr result \<Longrightarrow>
     process_request process (request_event env payload) = Inr (payload, result)"
  by (simp add: process_request_def request_event_def)

lemma finished_row_answer:
  assumes "jobs d k = Some r" "jm_id r = k" "outcome r = (status_value SUCCESS, Some result, None)" "is_dict result"
  shows "get_job_route text None k d =
    Response 200 (PDict [(''job_id'', PStr k), (''status'', PStr (status_value SUCCESS)),
                         (''result'', result), (''error'', PNone)])"
  using assms
  by (simp add: get_job_route_def get_job_def job_get_PStr job_of_row_ok [of r SUCCESS] outcome_def
        JobDetailResponse_def)

text \<open>The unified worker finishes a job that can be claimed.\<close>

lemma claimable_completed:
  assumes "names_job event k t" "short_names k t"
    and "jobs (wdb w) k = Some r" "claimable (tx_now (ev_claim env)) r" "jobs_ok (wdb w)"
    and "smooth_delivery env (wdb w)" "process_request process event = Inr (request, result)" "is_dict result"
  obtains w' where "worker_handle_event svc env process event w = (Inr (True, None), w')"
    "get_job_route text None k (wdb w') =
       Response 200 (PDict [(''job_id'', PStr k), (''status'', PStr (status_value SUCCESS)),
                            (''result'', result), (''error'', PNone)])"
proof -
  note u = smooth_undisturbed [OF assms(6,3,4,2) short_source(1), of svc]
  have fin: "tx_fault (ev_finish env) = TxOk" "env_ok env" "result \<noteq> PNone"
    using assms(6,8) by (auto simp: smooth_delivery_def is_dict_def)
  from worker_succeeds [OF assms(1) u(1) assms(7) fin(3,1) refl u(2)]
  obtain w' r' where w': "worker_handle_event svc env process event w = (Inr (True, None), w')"
    "jobs (wdb w') k = Some r'" "outcome r' = (status_value SUCCESS, Some result, None)" by auto
  have "domain_step\<^sup>*\<^sup>* (wdb w) (wdb w')"
    using worker_handle_event_steps [OF fin(2), of w svc process event] w'(1) by simp
  from jobs_inv.inv_steps [OF this assms(5)] w'(2) have "jm_id r' = k"
    by (auto simp: jobs_ok_def row_ok_def)
  from that [OF w'(1) finished_row_answer [OF w'(2) this w'(3) assms(8)]] show thesis .
qed

lemma request_event_processed:
  assumes "jobs (wdb w) (tx_uuid env 1) = Some r" "jm_status r = status_value PENDING"
    and "jobs_ok (wdb w)" "short_names (tx_uuid env 1) (tx_uuid env 2)"
    and "smooth_delivery env2 (wdb w)" "process payload = Inr result" "is_dict result"
  obtains w' where
    "worker_handle_event svc env2 process (request_event env payload) w = (Inr (True, None), w')"
    "get_job_route text None (tx_uuid env 1) (wdb w') =
       Response 200 (PDict [(''job_id'', PStr (tx_uuid env 1)), (''status'', PStr (status_value SUCCESS)),
                            (''result'', result), (''error'', PNone)])"
proof -
  have c: "claimable (tx_now (ev_claim env2)) r" using assms(2) by (simp add: claimable_def)
  show thesis
    by (rule claimable_completed [where process = process, OF request_event_names assms(4,1) c assms(3,5)
          request_event_request [where process = process, OF assms(6)] assms(7)]) (rule that)
qed

definition role_topics :: "Settings \<Rightarrow> topics" where
  "role_topics s =
     \<lparr>consume_topic = resolve_worker_topic s, retry_topic = resolve_worker_retry_topic s\<rparr>"

lemma request_record_handled:
  assumes "worker_role s = ''unified''"
    and "rec = wire_record (request_item svc env payload d)"
    and "worker_handle_event \<lparr>svc_worker_id = wid, svc_lease_seconds = worker_processing_ttl_seconds s\<rparr>
           env2 (runs (build_primary_processor s False)) (request_event env payload) w
         = (Inr (True, None), w')"
  shows "handle_message ext s (role_topics s)
           (role_handle_event wid runs (build_worker_role s) env2) (redelivered part off rec) w
         = (Inr (), w')"
  using assms
  by (simp add: handle_message_def skipped_def redelivered_def wire_record_def request_item_def
        wire_headers_def decode_headers_def header_or_def build_worker_role_def Let_def)

text \<open>A first request that is accepted, and the relay pass after it.\<close>

lemma request_sent:
  assumes post: "create_job_route api s env request ikey w st = (Response 202 body, w1, st1)"
    and first: "wdb w1 \<noteq> ce_db env (wdb w)"
    and d: "d = ce_db env (wdb w)" "outbox_ok d"
    and pass: "quiet re" "drain_once (relay_init (outbox_relay_batch_size s) poll) ext re w1 = (r, w2)"
    and sends: "\<forall>n rec. send_result ext n rec = None"
    and room: "length (pending_items d) < nat (outbox_relay_batch_size s)"
  obtains u row where
    "create_block (container_job_service s) (ce_tx env) (model_dump request) d = Inr (Commit u (wdb w1))"
    "jobs (wdb w2) = jobs (wdb w1)" "jobs (wdb w2) (tx_uuid (ce_tx env) 1) = Some row"
    "jm_status row = status_value PENDING" "pending_items (wdb w2) = []"
    "py_getitem body ''job_id'' = Inr (PStr (tx_uuid (ce_tx env) 1))"
    "acked w2 = acked w @ map wire_record (pending_items d) @
       [wire_record (request_item (container_job_service s) (ce_tx env) (model_dump request) d)]"
proof -
  let ?env = "ce_tx env" and ?p = "model_dump request" and ?svc = "container_job_service s"
  from post obtain j where create: "create_job (container_store api s) ?svc env ?p ikey w st = (Inr j, w1, st1)"
    and body: "body = JobResponse (job_id j) (status_value (job_status j))"
    by (auto simp: create_job_route_def split: prod.splits sum.splits)
  note written = create_job_written [OF create first]
  from written(2) obtain u where block: "create_block ?svc ?env ?p d = Inr (Commit u (wdb w1))"
    by (auto simp: d(1))
  from block obtain row where row: "jobs (wdb w1) (tx_uuid ?env 1) = Some row"
      "jm_status row = status_value PENDING"
    and pend: "pending_items (wdb w1) = pending_items d @ [request_item ?svc ?env ?p d]"
    by (rule create_block_Commit) auto
  have "length (pending_items (wdb w1)) \<le> nat (rl_batch_size (relay_init (outbox_relay_batch_size s) poll))"
    using room pend by (simp add: relay_init_def)
  note sent = drain_once_all [OF create_block_outbox_ok [OF block d(2)] pass sends this]
  have jobs2: "jobs (wdb w2) = jobs (wdb w1)"
    using drain_once_jobs(1) [OF pass(2)] pass(1) by (simp add: quiet_def)
  have id: "py_getitem body ''job_id'' = Inr (PStr (tx_uuid ?env 1))"
    by (simp add: body JobResponse_def written(1) new_job_def)
  show thesis
    using sent pend written(3) by (intro that [OF block jobs2 row(1) [folded jobs2] row(2) sent(2) id]) simp
qed

text \<open>
  C4: From the request to the result. A first \<open>POST /jobs\<close> that is answered 202 puts one message behind the
  ones already waiting in the outbox; a relay pass with room for the backlog sends them all in order,
  this one last, to the request topic; the unified worker that receives it acknowledges it; and from
  then on \<open>GET /jobs/{id}\<close> answers 200 with status SUCCESS, the processor's result for the posted
  input and no error.
\<close>

theorem request_to_result:
  assumes post: "create_job_route api s env request ikey w st = (Response 202 body, w1, st1)"
    and first: "wdb w1 \<noteq> ce_db env (wdb w)"
    and d: "d = ce_db env (wdb w)" "jobs_ok d" "outbox_ok d"
    and ids: "short_names (tx_uuid (ce_tx env) 1) (tx_uuid (ce_tx env) 2)"
    and pass: "quiet re" "drain_once (relay_init (outbox_relay_batch_size s) poll) ext re w1 = (r, w2)"
    and sends: "\<forall>n rec. send_result ext n rec = None"
    and room: "length (pending_items d) < nat (outbox_relay_batch_size s)"
    and role: "worker_role s = ''unified''" "smooth_delivery env2 (wdb w2)" "wdb wv = wdb w2"
    and process: "runs (build_primary_processor s False) (model_dump request) = Inr result" "is_dict result"
  shows "\<exists>jid rec w3.
    py_getitem body ''job_id'' = Inr (PStr jid) \<and> kr_topic rec = kafka_request_topic s \<and>
    acked w2 = acked w @ map wire_record (pending_items d) @ [rec] \<and>
    handle_message ext s (role_topics s) (role_handle_event wid runs (build_worker_role s) env2)
      (redelivered part off rec) wv = (Inr (), w3) \<and>
    get_job_route text None jid (wdb w3) =
      Response 200 (PDict [(''job_id'', PStr jid), (''status'', PStr (status_value SUCCESS)),
                           (''result'', result), (''error'', PNone)])"
proof -
  let ?env = "ce_tx env" and ?p = "model_dump request" and ?svc = "container_job_service s"
  let ?rec = "wire_record (request_item ?svc ?env ?p d)"
  obtain u row where block: "create_block ?svc ?env ?p d = Inr (Commit u (wdb w1))"
    and jobs2: "jobs (wdb w2) = jobs (wdb w1)"
    and row: "jobs (wdb w2) (tx_uuid ?env 1) = Some row" "jm_status row = status_value PENDING"
    and id: "py_getitem body ''job_id'' = Inr (PStr (tx_uuid ?env 1))"
    and sent: "acked w2 = acked w @ map wire_record (pending_items d) @ [?rec]"
    by (rule request_sent [OF post first d(1,3) pass sends room])
  have ok: "jobs_ok (wdb wv)"
    using create_block_ok(1) [OF block d(2)] by (simp add: jobs_ok_def jobs2 role(3))
  from request_event_processed [where process = "runs (build_primary_processor s False)",
      OF row(1) [folded role(3)] row(2) ok ids role(2) [folded role(3)] process]
  obtain w3 where w3: "worker_handle_event
      \<lparr>svc_worker_id = wid, svc_lease_seconds = worker_processing_ttl_seconds s\<rparr>
      env2 (runs (build_primary_processor s False)) (request_event ?env ?p) wv = (Inr (True, None), w3)"
    "get_job_route text None (tx_uuid ?env 1) (wdb w3) =
       Response 200 (PDict [(''job_id'', PStr (tx_uuid ?env 1)), (''status'', PStr (status_value SUCCESS)),
                            (''result'', result), (''error'', PNone)])" .
  have topic: "kr_topic ?rec = kafka_request_topic s"
    by (simp add: wire_record_def request_item_def container_job_service_def)
  show ?thesis
    by (intro exI conjI, rule id, rule topic, rule sent,
        rule request_record_handled [where runs = runs, OF role(1) refl w3(1)], rule w3(2))
qed

text \<open>The dummy processor on a first request to an empty system.\<close>

definition dummy_settings :: Settings where
  "dummy_settings = default_settings\<lparr>worker_processor_backend := ''dummy''\<rparr>"

lemma dummy_settings_fields:
  "worker_role dummy_settings = ''unified''" "outbox_relay_batch_size dummy_settings = 100"
  "build_primary_processor dummy_settings b = DummyTaskProcessor"
  "container_store map_redis dummy_settings = redis_store map_redis sample_rs"
  "container_job_service dummy_settings = sample_js"
  by (simp_all add: dummy_settings_def default_settings_def build_primary_processor_def
        container_store_def sample_rs_def container_job_service_def sample_js_def)

definition dummy_answer :: pyval where
  "dummy_answer = PDict [(''message'', PStr ''dummy processing completed''), (''echo'', PStr ''hi''),
                         (''length'', PInt 2)]"

lemma dummy_answers: "run_processor 0 DummyTaskProcessor (model_dump sample_request) = Inr dummy_answer"
  by (simp add: dummy_process_def content_of_def model_dump_def sample_request_def job_create_request_def
        dummy_answer_def str_len_def is_cont_def byte_in_def)

text \<open>A first request to an empty system, and the relay pass after it.\<close>

lemma sample_request_sent:
  assumes "container_store map_redis s = redis_store map_redis sample_rs" "container_job_service s = sample_js"
  obtains body w1 s1 r w2 where
    "create_job_route map_redis s sample_create sample_request (Some ''k1'')
       (sample_world empty_db) Map.empty = (Response 202 body, w1, s1)"
    "wdb w1 \<noteq> ce_db sample_create (wdb (sample_world empty_db))"
    "drain_once (relay_init 100 1) sample_externals sample_pass w1 = (r, w2)"
    "je_event_id ` set (job_events (wdb w2)) = {tx_uuid (ce_tx sample_create) 3}"
    "ob_message_id ` set (outbox_messages (wdb w2)) = {tx_uuid (ce_tx sample_create) 4}"
proof -
  obtain j w1 s1 where create: "create_job (redis_store map_redis sample_rs) sample_js sample_create
      (model_dump sample_request) (Some ''k1'') (sample_world empty_db) Map.empty = (Inr j, w1, s1)"
    using sample_first by blast
  then obtain body where post: "create_job_route map_redis s sample_create sample_request
      (Some ''k1'') (sample_world empty_db) Map.empty = (Response 202 body, w1, s1)"
    by (simp add: create_job_route_def assms)
  have "answered (redis_lookup (\<lambda>m. m) s1 (effective_key (ce_tx sample_create) (Some ''k1''))) j (wdb w1)"
    by (rule idempotency_port.create_job_answered [OF redis_store_port [OF map_redis_laws] create])
       (simp_all add: jobs_ok_def empty_db_def)
  then have new: "wdb w1 \<noteq> ce_db sample_create (wdb (sample_world empty_db))"
    by (auto simp: answered_def empty_db_def)
  obtain r w2 where pass: "drain_once (relay_init 100 1) sample_externals sample_pass w1 = (r, w2)"
    by fastforce
  obtain u where block: "create_block sample_js (ce_tx sample_create) (model_dump sample_request) empty_db
      = Inr (Commit u (wdb w1))"
    using create_job_written(2) [OF create new] by auto
  have "je_event_id ` set (job_events (wdb w2)) = {tx_uuid (ce_tx sample_create) 3}"
    using drain_once_jobs(2) [OF pass]
    by (rule_tac create_block_Commit [OF block]) (simp add: sample_pass_def empty_db_def)
  moreover have "ob_message_id ` set (outbox_messages (wdb w2)) = {tx_uuid (ce_tx sample_create) 4}"
    using arg_cong [where f = set, OF drain_once_jobs(3) [OF pass]] create_block_message_ids [OF block]
    by (simp add: sample_pass_def empty_db_def)
  ultimately show thesis by (rule that [OF post new pass])
qed

theorem request_to_result_witness:
  "\<exists>body w1 st1 r w2 jid rec w3.
     create_job_route map_redis dummy_settings sample_create sample_request (Some ''k1'')
       (sample_world empty_db) Map.empty = (Response 202 body, w1, st1) \<and>
     drain_once (relay_init 100 1) sample_externals sample_pass w1 = (r, w2) \<and>
     acked w2 = [rec] \<and>
     handle_message sample_externals dummy_settings (role_topics dummy_settings)
       (role_handle_event ''a'' (run_processor 0) (build_worker_role dummy_settings) sample_env)
       (redelivered 0 0 rec) w2 = (Inr (), w3) \<and>
     get_job_route ''invalid'' None jid (wdb w3) =
       Response 200 (PDict [(''job_id'', PStr jid), (''status'', PStr (status_value SUCCESS)),
                            (''result'', dummy_answer), (''error'', PNone)])"
proof -
  note fields = dummy_settings_fields
  obtain body w1 s1 r w2 where post: "create_job_route map_redis dummy_settings sample_create sample_request
      (Some ''k1'') (sample_world empty_db) Map.empty = (Response 202 body, w1, s1)"
    and new: "wdb w1 \<noteq> ce_db sample_create (wdb (sample_world empty_db))"
    and pass: "drain_once (relay_init 100 1) sample_externals sample_pass w1 = (r, w2)"
    and ev: "je_event_id ` set (job_events (wdb w2)) = {tx_uuid (ce_tx sample_create) 3}"
    by (rule sample_request_sent [OF fields(4,5)])
  have empty: "jobs_ok empty_db" "outbox_ok empty_db" "pending_items empty_db = []"
    by (simp_all add: jobs_ok_def outbox_ok_def pending_items_def empty_db_def)
  have quiet: "quiet sample_pass" by (simp add: quiet_def sample_pass_def)
  from ev have smooth: "smooth_delivery sample_env (wdb w2)"
    by (simp add: smooth_delivery_def env_ok_def uuid_fresh_def str_len_le sample_env_def)
  have answer: "run_processor 0 (build_primary_processor dummy_settings False) (model_dump sample_request)
      = Inr dummy_answer" "is_dict dummy_answer"
    unfolding fields(3) by (rule dummy_answers) (simp add: dummy_answer_def is_dict_def)
  have "\<exists>jid rec w3.
    py_getitem body ''job_id'' = Inr (PStr jid) \<and> kr_topic rec = kafka_request_topic dummy_settings \<and>
    acked w2 = acked (sample_world empty_db) @ map wire_record (pending_items empty_db) @ [rec] \<and>
    handle_message sample_externals dummy_settings (role_topics dummy_settings)
      (role_handle_event ''a'' (run_processor 0) (build_worker_role dummy_settings) sample_env)
      (redelivered 0 0 rec) w2 = (Inr (), w3) \<and>
    get_job_route ''invalid'' None jid (wdb w3) =
      Response 200 (PDict [(''job_id'', PStr jid), (''status'', PStr (status_value SUCCESS)),
                           (''result'', dummy_answer), (''error'', PNone)])"
    by (rule request_to_result [where runs = "run_processor 0" and wv = w2 and poll = 1 and r = r,
          OF post new _ empty(1,2) _ quiet _ _ _ fields(1) smooth refl answer])
       (simp_all add: fields(2) pass empty(3) short_names_def str_len_le)
  then show ?thesis using post pass by (simp add: empty(3)) blast
qed

end
