(* ===== verification/Transactions.thy ===== *)
theory Transactions
  imports Config
begin

section \<open>What every transaction keeps\<close>

text \<open>
  The transactions of the program and the operations made of them. A predicate on the database that
  every transaction keeps is kept by every handler, request and relay pass, however their
  transactions end and whatever else the surroundings commit in between, as long as the surroundings
  keep it too.
\<close>

definition surroundings_keep :: "(db \<Rightarrow> bool) \<Rightarrow> svc_env \<Rightarrow> bool" where
  "surroundings_keep P env \<longleftrightarrow>
     (\<forall>d. P d \<longrightarrow> P (ev_during env d)) \<and> (\<forall>d. P d \<longrightarrow> P (ev_before_fail env d))"

locale tx_invariant =
  fixes P :: "db \<Rightarrow> bool" and worker_ok :: "string \<Rightarrow> bool"
  assumes create_keeps: "create_block js env payload d = Inr (Commit u d') \<Longrightarrow> P d \<Longrightarrow> P d'"
    and claim_keeps: "claim_block source svc env jid tid d = Inr (Commit c d') \<Longrightarrow>
      worker_ok (svc_worker_id svc) \<Longrightarrow> P d \<Longrightarrow> P d'"
    and success_keeps: "success_block svc env jid tid l result d = Inr (Commit b d') \<Longrightarrow> P d \<Longrightarrow> P d'"
    and failure_keeps: "failure_block source svc env jid tid l exc d = Inr (Commit b d') \<Longrightarrow> P d \<Longrightarrow> P d'"
    and handover_keeps: "handover_block topic env jid tid request result d = Inr (Commit u d') \<Longrightarrow> P d \<Longrightarrow> P d'"
    and finish_keeps: "finish_block env jid tid payload result d = Inr (Commit u d') \<Longrightarrow> P d \<Longrightarrow> P d'"
    and downstream_fail_keeps: "downstream_fail_block env jid tid exc d = Inr (Commit u d') \<Longrightarrow> P d \<Longrightarrow> P d'"
    and published_keeps: "P d \<Longrightarrow> P (mark_published now ids d)"
    and failed_keeps: "P d \<Longrightarrow> P (mark_failed i err d)"
begin

lemma claim_phase_keeps:
  "claim_phase source svc env jid tid w = (r, w') \<Longrightarrow> worker_ok (svc_worker_id svc) \<Longrightarrow> P (wdb w) \<Longrightarrow> P (wdb w')"
  by (drule claim_phase_wdb, erule run_session_keeps) (auto intro: claim_keeps)

lemma success_phase_keeps:
  "success_phase svc env jid tid l result w = (r, w') \<Longrightarrow> P (wdb w) \<Longrightarrow> P (wdb w')"
  by (drule success_phase_wdb, elim exE, erule run_session_keeps) (auto intro: success_keeps)

lemma failure_phase_keeps:
  "failure_phase source svc env jid tid l exc w = (r, w') \<Longrightarrow> P (wdb w) \<Longrightarrow> P (wdb w')"
  by (drule failure_phase_wdb, elim exE, erule run_session_keeps) (auto intro: failure_keeps)

lemma worker_try_keeps:
  assumes "worker_try svc env process event jid tid l w = (r, w')" "surroundings_keep P env" "P (wdb w)"
  shows "P (wdb w')"
  using assms
  by (auto simp: worker_try_def surroundings_keep_def Let_def split: sum.splits prod.splits
        dest: success_phase_keeps)

lemma inference_try_keeps:
  assumes "inference_try tp env process event jid tid w = (r, w')" "surroundings_keep P env" "P (wdb w)"
  shows "P (wdb w')"
proof -
  have "P (ev_during env (wdb w))" using assms(2,3) by (simp add: surroundings_keep_def)
  with inference_try_wdb [OF assms(1)] show ?thesis
    by (auto elim!: run_session_keeps intro: handover_keeps)
qed

lemma downstream_try_keeps:
  assumes "downstream_try env process event jid tid w = (r, w')" "surroundings_keep P env" "P (wdb w)"
  shows "P (wdb w')"
proof -
  have "P (ev_during env (wdb w))" using assms(2,3) by (simp add: surroundings_keep_def)
  with assms(3) downstream_try_wdb [OF assms(1)] show ?thesis
    by (auto elim!: run_session_keeps intro: finish_keeps)
qed

lemma failure_after_keeps:
  assumes "failure_phase source svc e jid tid l exc (world_env (ev_before_fail env) w) = (r, w')"
    and "surroundings_keep P env" "P (wdb w)"
  shows "P (wdb w')"
  using failure_phase_keeps [OF assms(1)] assms(2,3) by (simp add: surroundings_keep_def)

lemma worker_handle_keeps:
  assumes "worker_handle_event svc env process event w = (r, w')" "worker_ok (svc_worker_id svc)"
    and "surroundings_keep P env" "P (wdb w)"
  shows "P (wdb w')"
  using assms
  by (auto simp: worker_handle_event_def split: sum.splits prod.splits claim_result.splits
        dest!: claim_phase_keeps intro: worker_try_keeps)
     (blast intro: worker_try_keeps failure_after_keeps)

lemma inference_handle_keeps:
  assumes "inference_handle_event tp svc env process event w = (r, w')" "worker_ok (svc_worker_id svc)"
    and "surroundings_keep P env" "P (wdb w)"
  shows "P (wdb w')"
  using assms
  by (auto simp: inference_handle_event_def split: sum.splits prod.splits claim_result.splits
        dest!: claim_phase_keeps intro: inference_try_keeps failure_after_keeps)

lemma downstream_handle_keeps:
  assumes "downstream_handle_event env process event w = (r, w')" "surroundings_keep P env" "P (wdb w)"
  shows "P (wdb w')"
proof (cases "\<exists>jid tid exc w1. py_getitem event ''job_id'' = Inr jid \<and> py_getitem event ''trace_id'' = Inr tid
    \<and> downstream_try env process event jid tid w = (Inl exc, w1)")
  case False
  with assms show ?thesis
    by (auto simp: downstream_handle_event_def split: sum.splits prod.splits intro: downstream_try_keeps)
next
  case True
  then obtain jid tid exc w1 where t: "py_getitem event ''job_id'' = Inr jid"
    "py_getitem event ''trace_id'' = Inr tid" "downstream_try env process event jid tid w = (Inl exc, w1)"
    by blast
  then have "\<exists>x. run_session (tx_fault (ev_fail env)) (downstream_fail_block (ev_fail env) jid tid exc)
      (ev_before_fail env (wdb w1)) = (x, wdb w')"
    using assms(1) by (auto simp: downstream_handle_event_def Let_def split: prod.splits sum.splits)
  moreover have "P (ev_before_fail env (wdb w1))"
    using downstream_try_keeps [OF t(3) assms(2,3)] assms(2) by (simp add: surroundings_keep_def)
  ultimately show ?thesis by (auto elim!: run_session_keeps intro: downstream_fail_keeps)
qed

lemma role_handle_keeps:
  assumes "role_handle_event wid runs role env event w = (r, w')" "worker_ok wid"
    and "surroundings_keep P env" "P (wdb w)"
  shows "P (wdb w')"
proof -
  have "P (wdb w')" if "service_handle wid runs s env event w = (r, w')" for s
    using that assms(2-4)
    by (cases s)
       (auto intro: worker_handle_keeps inference_handle_keeps downstream_handle_keeps)
  then show ?thesis using assms(1) by (cases role) auto
qed

lemma create_job_keeps:
  assumes "create_job st js env payload ikey w s = (r, w', s')" "P (ce_db env (wdb w))"
  shows "P (wdb w')"
proof -
  have wr: "P (wdb w1)"
    if "write_job st js env payload key (world_env (ce_db env) w) s1 = (x, w1, s2)" for key s1 x w1 s2
    using that assms(2) create_keeps
    by (auto simp: write_job_def split: prod.splits sum.splits elim!: run_session_cases)
  show ?thesis
    using assms wr
    by (auto simp: create_job_def Let_def return_existing_def
          split: sum.splits option.splits prod.splits bool.splits)
qed

lemma drain_loop_keeps:
  "drain_loop ext ms sent d w = (sent', d', w') \<Longrightarrow> P d \<Longrightarrow> P d'"
  by (induction ext ms sent d w rule: drain_loop.induct)
     (auto split: prod.splits sum.splits intro: failed_keeps)

lemma drain_once_keeps:
  assumes "drain_once rl ext re w = (r, w')" "P (re_during re (wdb w))"
  shows "P (wdb w')"
  using assms
  by (auto simp: drain_once_def Let_def dest: drain_loop_keeps intro!: published_keeps
        split: option.splits if_splits prod.splits tx_fault.splits)

end

end
