(* ===== verification/Migrations.thy ===== *)
theory Migrations
  imports Job_Service
begin

section \<open>Schema and migrations\<close>

text \<open>
  The migrations of \<open>alembic/versions\<close> as lists of schema statements, the tables that
  \<open>app/adapters/db/models.py\<close> declares, and the schema a database has after running statements. A
  statement that the server would refuse (a name that exists already or does not exist) is an error.
  The order of columns is kept; widths beyond \<open>String(n)\<close> and autoincrement are not.
\<close>

subsection \<open>Schemas\<close>

datatype sql_type = VarChar nat | JsonType | IntegerType | TextType | TimestampTz

record column =
  col_name :: string
  col_type :: sql_type
  col_nullable :: bool
  col_server_default :: "string option"

record db_index =
  ix_name :: string
  ix_columns :: "string list"
  ix_where :: "string option"

record db_table =
  tb_columns :: "column list"
  tb_primary_key :: "string list"
  tb_uniques :: "(string \<times> string list) list"
  tb_indexes :: "db_index list"

type_synonym schema = "(string \<times> db_table) list"

datatype schema_op =
    CreateTable string "column list" "string list" "(string \<times> string list) list"
  | DropTable string
  | CreateIndex string db_index
  | DropIndex string string
  | AddColumn string column
  | DropColumn string string

definition refuse :: "string \<Rightarrow> string \<Rightarrow> 'a res" where
  "refuse what name = Inl (PyExc ''ProgrammingError'' (what @ quoted name))"

definition on_table :: "string \<Rightarrow> (db_table \<Rightarrow> db_table res) \<Rightarrow> schema \<Rightarrow> schema res" where
  "on_table name f s =
     (case map_of s name of
        None \<Rightarrow> refuse ''no such table: '' name
      | Some t \<Rightarrow> bind_res (f t) (\<lambda>t'. Inr (dict_set name t' s)))"

definition index_names :: "schema \<Rightarrow> string list" where
  "index_names s = concat (map (\<lambda>(_, t). map ix_name (tb_indexes t)) s)"

fun apply_op :: "schema_op \<Rightarrow> schema \<Rightarrow> schema res" where
  "apply_op (CreateTable name cols pk uniques) s =
     (if map_of s name \<noteq> None then refuse ''table exists: '' name
      else Inr (s @ [(name, \<lparr>tb_columns = cols, tb_primary_key = pk, tb_uniques = uniques,
                             tb_indexes = []\<rparr>)]))"
| "apply_op (DropTable name) s =
     (if map_of s name = None then refuse ''no such table: '' name else Inr (dict_pop name s))"
| "apply_op (CreateIndex name ix) s =
     (if ix_name ix \<in> set (index_names s) then refuse ''index exists: '' (ix_name ix)
      else on_table name (\<lambda>t. Inr (t\<lparr>tb_indexes := tb_indexes t @ [ix]\<rparr>)) s)"
| "apply_op (DropIndex ixn name) s =
     on_table name (\<lambda>t.
       if ixn \<notin> ix_name ` set (tb_indexes t) then refuse ''no such index: '' ixn
       else Inr (t\<lparr>tb_indexes := filter (\<lambda>i. ix_name i \<noteq> ixn) (tb_indexes t)\<rparr>)) s"
| "apply_op (AddColumn name col) s =
     on_table name (\<lambda>t.
       if col_name col \<in> col_name ` set (tb_columns t) then refuse ''column exists: '' (col_name col)
       else Inr (t\<lparr>tb_columns := tb_columns t @ [col]\<rparr>)) s"
| "apply_op (DropColumn name cn) s =
     on_table name (\<lambda>t.
       if cn \<notin> col_name ` set (tb_columns t) then refuse ''no such column: '' cn
       else Inr (t\<lparr>tb_columns := filter (\<lambda>c. col_name c \<noteq> cn) (tb_columns t)\<rparr>)) s"

fun apply_ops :: "schema_op list \<Rightarrow> schema \<Rightarrow> schema res" where
  "apply_ops [] s = Inr s"
| "apply_ops (x # xs) s = bind_res (apply_op x s) (apply_ops xs)"

lemma apply_ops_append: "apply_ops (xs @ ys) s = bind_res (apply_ops xs s) (apply_ops ys)"
  by (induction xs arbitrary: s) (auto simp: bind_res_def split: sum.splits)

subsection \<open>The migrations\<close>

abbreviation not_null :: "string \<Rightarrow> sql_type \<Rightarrow> column" where
  "not_null n ty \<equiv> \<lparr>col_name = n, col_type = ty, col_nullable = False, col_server_default = None\<rparr>"

abbreviation nullable :: "string \<Rightarrow> sql_type \<Rightarrow> column" where
  "nullable n ty \<equiv> \<lparr>col_name = n, col_type = ty, col_nullable = True, col_server_default = None\<rparr>"

abbreviation defaulted :: "string \<Rightarrow> sql_type \<Rightarrow> string \<Rightarrow> column" where
  "defaulted n ty v \<equiv>
     \<lparr>col_name = n, col_type = ty, col_nullable = False, col_server_default = Some v\<rparr>"

abbreviation plain_index :: "string \<Rightarrow> string \<Rightarrow> db_index" where
  "plain_index n c \<equiv> \<lparr>ix_name = n, ix_columns = [c], ix_where = None\<rparr>"

definition upgrade_0001 :: "schema_op list" where
  "upgrade_0001 =
     [CreateTable ''jobs''
        [not_null ''id'' (VarChar 64),
         not_null ''request_payload'' JsonType,
         not_null ''status'' (VarChar 32),
         defaulted ''retry_count'' IntegerType ''0'',
         nullable ''result'' JsonType,
         nullable ''error_message'' TextType,
         defaulted ''created_at'' TimestampTz ''now()'',
         defaulted ''updated_at'' TimestampTz ''now()'']
        [''id''] [],
      CreateIndex ''jobs'' (plain_index ''ix_jobs_status'' ''status''),
      CreateTable ''job_events''
        [not_null ''id'' IntegerType,
         not_null ''event_id'' (VarChar 64),
         not_null ''job_id'' (VarChar 64),
         not_null ''event_type'' (VarChar 64),
         not_null ''source'' (VarChar 64),
         not_null ''trace_id'' (VarChar 64),
         not_null ''payload'' JsonType,
         defaulted ''created_at'' TimestampTz ''now()'']
        [''id''] [(''uq_job_events_event_id'', [''event_id''])],
      CreateIndex ''job_events'' (plain_index ''ix_job_events_event_type'' ''event_type''),
      CreateIndex ''job_events'' (plain_index ''ix_job_events_job_id'' ''job_id''),
      CreateIndex ''job_events'' (plain_index ''ix_job_events_trace_id'' ''trace_id'')]"

definition downgrade_0001 :: "schema_op list" where
  "downgrade_0001 =
     [DropIndex ''ix_job_events_trace_id'' ''job_events'',
      DropIndex ''ix_job_events_job_id'' ''job_events'',
      DropIndex ''ix_job_events_event_type'' ''job_events'',
      DropTable ''job_events'',
      DropIndex ''ix_jobs_status'' ''jobs'',
      DropTable ''jobs'']"

definition upgrade_0002 :: "schema_op list" where
  "upgrade_0002 =
     [CreateTable ''outbox_messages''
        [not_null ''id'' IntegerType,
         not_null ''message_id'' (VarChar 64),
         not_null ''topic'' (VarChar 128),
         not_null ''payload'' JsonType,
         nullable ''headers'' JsonType,
         defaulted ''status'' (VarChar 16) ''PENDING'',
         defaulted ''attempts'' IntegerType ''0'',
         nullable ''last_error'' TextType,
         defaulted ''created_at'' TimestampTz ''now()'',
         nullable ''published_at'' TimestampTz]
        [''id''] [(''uq_outbox_messages_message_id'', [''message_id''])],
      CreateIndex ''outbox_messages''
        \<lparr>ix_name = ''ix_outbox_messages_pending'', ix_columns = [''id''],
         ix_where = Some (''status = '' @ quoted ''PENDING'')\<rparr>]"

definition downgrade_0002 :: "schema_op list" where
  "downgrade_0002 =
     [DropIndex ''ix_outbox_messages_pending'' ''outbox_messages'',
      DropTable ''outbox_messages'']"

definition upgrade_0003 :: "schema_op list" where
  "upgrade_0003 =
     [AddColumn ''jobs'' (nullable ''lease_owner'' (VarChar 64)),
      AddColumn ''jobs'' (nullable ''lease_expires_at'' TimestampTz),
      AddColumn ''jobs'' (defaulted ''lease_epoch'' IntegerType ''0''),
      CreateIndex ''jobs'' (plain_index ''ix_jobs_lease_expires_at'' ''lease_expires_at'')]"

definition downgrade_0003 :: "schema_op list" where
  "downgrade_0003 =
     [DropIndex ''ix_jobs_lease_expires_at'' ''jobs'',
      DropColumn ''jobs'' ''lease_epoch'',
      DropColumn ''jobs'' ''lease_expires_at'',
      DropColumn ''jobs'' ''lease_owner'']"

record revision =
  rev_id :: string
  rev_down :: "string option"
  rev_upgrade :: "schema_op list"
  rev_downgrade :: "schema_op list"

definition revisions :: "revision list" where
  "revisions =
     [\<lparr>rev_id = ''20260310_0001'', rev_down = None,
       rev_upgrade = upgrade_0001, rev_downgrade = downgrade_0001\<rparr>,
      \<lparr>rev_id = ''20260913_0002'', rev_down = Some ''20260310_0001'',
       rev_upgrade = upgrade_0002, rev_downgrade = downgrade_0002\<rparr>,
      \<lparr>rev_id = ''20260913_0003'', rev_down = Some ''20260913_0002'',
       rev_upgrade = upgrade_0003, rev_downgrade = downgrade_0003\<rparr>]"

text \<open>Upgrading to the head runs the chain from its base, downgrading to the base runs it back.\<close>

definition upgrade_head :: "schema \<Rightarrow> schema res" where
  "upgrade_head = apply_ops (concat (map rev_upgrade revisions))"

definition downgrade_base :: "schema \<Rightarrow> schema res" where
  "downgrade_base = apply_ops (concat (map rev_downgrade (rev revisions)))"

subsection \<open>The tables of the models\<close>

text \<open>
  What \<open>Base.metadata\<close> declares. A Python \<open>default\<close> is not part of the schema; an index from
  \<open>index=True\<close> is named after its table and column.
\<close>

definition column_index :: "string \<Rightarrow> string \<Rightarrow> db_index" where
  "column_index tb c = \<lparr>ix_name = ''ix_'' @ tb @ ''_'' @ c, ix_columns = [c], ix_where = None\<rparr>"

definition jobs_table :: db_table where
  "jobs_table =
     \<lparr>tb_columns =
        [not_null ''id'' (VarChar 64),
         not_null ''request_payload'' JsonType,
         not_null ''status'' (VarChar 32),
         not_null ''retry_count'' IntegerType,
         nullable ''result'' JsonType,
         nullable ''error_message'' TextType,
         nullable ''lease_owner'' (VarChar 64),
         nullable ''lease_expires_at'' TimestampTz,
         defaulted ''lease_epoch'' IntegerType ''0'',
         defaulted ''created_at'' TimestampTz ''now()'',
         defaulted ''updated_at'' TimestampTz ''now()''],
      tb_primary_key = [''id''], tb_uniques = [],
      tb_indexes = [column_index ''jobs'' ''status'', column_index ''jobs'' ''lease_expires_at'']\<rparr>"

definition outbox_messages_table :: db_table where
  "outbox_messages_table =
     \<lparr>tb_columns =
        [not_null ''id'' IntegerType,
         not_null ''message_id'' (VarChar 64),
         not_null ''topic'' (VarChar 128),
         not_null ''payload'' JsonType,
         nullable ''headers'' JsonType,
         not_null ''status'' (VarChar 16),
         not_null ''attempts'' IntegerType,
         nullable ''last_error'' TextType,
         defaulted ''created_at'' TimestampTz ''now()'',
         nullable ''published_at'' TimestampTz],
      tb_primary_key = [''id''],
      tb_uniques = [(''uq_outbox_messages_message_id'', [''message_id''])],
      tb_indexes = [\<lparr>ix_name = ''ix_outbox_messages_pending'', ix_columns = [''id''],
                     ix_where = Some (''status = '' @ quoted ''PENDING'')\<rparr>]\<rparr>"

definition job_events_table :: db_table where
  "job_events_table =
     \<lparr>tb_columns =
        [not_null ''id'' IntegerType,
         not_null ''event_id'' (VarChar 64),
         not_null ''job_id'' (VarChar 64),
         not_null ''event_type'' (VarChar 64),
         not_null ''source'' (VarChar 64),
         not_null ''trace_id'' (VarChar 64),
         not_null ''payload'' JsonType,
         defaulted ''created_at'' TimestampTz ''now()''],
      tb_primary_key = [''id''],
      tb_uniques = [(''uq_job_events_event_id'', [''event_id''])],
      tb_indexes = [column_index ''job_events'' ''job_id'', column_index ''job_events'' ''event_type'',
                    column_index ''job_events'' ''trace_id'']\<rparr>"

definition model_schema :: schema where
  "model_schema =
     [(''jobs'', jobs_table), (''outbox_messages'', outbox_messages_table),
      (''job_events'', job_events_table)]"

subsection \<open>The head is what the models declare\<close>

text \<open>
  Two tables that agree on columns with types and nullability, keys and indexes, in any order; every
  default the second one has is a default of the first.
\<close>

definition column_shape :: "column \<Rightarrow> string \<times> sql_type \<times> bool" where
  "column_shape c = (col_name c, col_type c, col_nullable c)"

definition implements_table :: "db_table \<Rightarrow> db_table \<Rightarrow> bool" where
  "implements_table t m \<longleftrightarrow>
     length (tb_columns t) = length (tb_columns m) \<and>
     set (map column_shape (tb_columns t)) = set (map column_shape (tb_columns m)) \<and>
     tb_primary_key t = tb_primary_key m \<and>
     set (tb_uniques t) = set (tb_uniques m) \<and> set (tb_indexes t) = set (tb_indexes m) \<and>
     list_all (\<lambda>c. col_server_default c = None \<or> c \<in> set (tb_columns t)) (tb_columns m)"

definition implements_schema :: "schema \<Rightarrow> schema \<Rightarrow> bool" where
  "implements_schema s m \<longleftrightarrow>
     set (map fst s) = set (map fst m) \<and> distinct (map fst s) \<and>
     list_all (\<lambda>(name, t). case map_of s name of None \<Rightarrow> False | Some t' \<Rightarrow> implements_table t' t) m"

definition head_schema :: schema where
  "head_schema = (case upgrade_head [] of Inl _ \<Rightarrow> [] | Inr s \<Rightarrow> s)"

lemmas migration_defs =
  upgrade_0001_def upgrade_0002_def upgrade_0003_def
  downgrade_0001_def downgrade_0002_def downgrade_0003_def revisions_def

lemma upgrade_head_empty: "upgrade_head [] = Inr head_schema"
  unfolding head_schema_def
  by (simp add: upgrade_head_def migration_defs on_table_def index_names_def)

text \<open>
  The migrations build what the models declare: the revisions form one chain, upgrading an empty
  database to the head succeeds, and the tables, columns with their types and nullability, keys, unique
  constraints and indexes are exactly the declared ones; every server default of a model is one
  of the migrated table.
\<close>

theorem migrations_build_models:
  "map rev_down revisions = None # map (Some \<circ> rev_id) (butlast revisions) \<and>
   distinct (map rev_id revisions) \<and>
   upgrade_head [] = Inr head_schema \<and> implements_schema head_schema model_schema"
  by (intro conjI; code_simp)

subsection \<open>Downgrading undoes upgrading\<close>

fun op_table :: "schema_op \<Rightarrow> string" where
  "op_table (CreateTable name _ _ _) = name"
| "op_table (DropTable name) = name"
| "op_table (CreateIndex name _) = name"
| "op_table (DropIndex _ name) = name"
| "op_table (AddColumn name _) = name"
| "op_table (DropColumn name _) = name"

fun op_new_index :: "schema_op \<Rightarrow> string option" where
  "op_new_index (CreateIndex _ ix) = Some (ix_name ix)"
| "op_new_index _ = None"

text \<open>A statement on other tables and with other index names than \<open>s\<close> has leaves \<open>s\<close> alone.\<close>

definition foreign :: "schema \<Rightarrow> schema_op \<Rightarrow> bool" where
  "foreign s x \<longleftrightarrow>
     op_table x \<notin> fst ` set s \<and>
     (case op_new_index x of None \<Rightarrow> True | Some i \<Rightarrow> i \<notin> set (index_names s))"

lemma map_of_fresh: "k \<notin> fst ` set s \<Longrightarrow> map_of s k = None"
  by (simp add: map_of_eq_None_iff)

lemma dict_set_frame: "k \<notin> fst ` set s \<Longrightarrow> dict_set k v (s @ u) = s @ dict_set k v u"
  by (induction s) auto

lemma dict_pop_frame: "k \<notin> fst ` set s \<Longrightarrow> dict_pop k (s @ u) = s @ dict_pop k u"
  by (induction s) (auto simp: dict_pop_def)

lemma index_names_append: "index_names (s @ u) = index_names s @ index_names u"
  by (simp add: index_names_def)

lemma on_table_frame:
  assumes "k \<notin> fst ` set s"
  shows "on_table k f (s @ u) = bind_res (on_table k f u) (\<lambda>u'. Inr (s @ u'))"
  using map_of_fresh [OF assms] dict_set_frame [OF assms]
  by (auto simp: on_table_def bind_res_def refuse_def split: option.splits sum.splits)

lemma apply_op_frame:
  assumes "foreign s x"
  shows "apply_op x (s @ u) = bind_res (apply_op x u) (\<lambda>u'. Inr (s @ u'))"
  using assms
  by (cases x)
     (auto simp: foreign_def on_table_frame map_of_fresh dict_pop_frame index_names_append refuse_def)

lemma apply_ops_frame:
  assumes "list_all (foreign s) xs"
  shows "apply_ops xs (s @ u) = bind_res (apply_ops xs u) (\<lambda>u'. Inr (s @ u'))"
  using assms
proof (induction xs arbitrary: u)
  case (Cons x xs)
  then show ?case by (cases "apply_op x u") (simp_all add: apply_op_frame)
qed simp

lemma migrations_foreign:
  assumes "fst ` set s \<inter> {''jobs'', ''job_events'', ''outbox_messages''} = {}"
    and "set (index_names s) \<inter> set (index_names head_schema) = {}"
  shows "list_all (foreign s) (concat (map rev_upgrade revisions))"
    and "list_all (foreign s) (concat (map rev_downgrade (rev revisions)))"
proof -
  have "set (index_names head_schema) =
      {''ix_jobs_status'', ''ix_jobs_lease_expires_at'', ''ix_job_events_event_type'',
       ''ix_job_events_job_id'', ''ix_job_events_trace_id'', ''ix_outbox_messages_pending''}"
    by code_simp
  with assms show "list_all (foreign s) (concat (map rev_upgrade revisions))"
    by (simp add: migration_defs foreign_def)
  from assms(1) show "list_all (foreign s) (concat (map rev_downgrade (rev revisions)))"
    by (simp add: migration_defs foreign_def)
qed

text \<open>Up to the first \<open>n\<close> revisions, and from the head back to them.\<close>

definition upgrade_to :: "nat \<Rightarrow> schema \<Rightarrow> schema res" where
  "upgrade_to n = apply_ops (concat (map rev_upgrade (take n revisions)))"

definition downgrade_to :: "nat \<Rightarrow> schema \<Rightarrow> schema res" where
  "downgrade_to n = apply_ops (concat (map rev_downgrade (rev (drop n revisions))))"

lemma list_all_concat_sub:
  "list_all P (concat (map f xs)) \<Longrightarrow> set ys \<subseteq> set xs \<Longrightarrow> list_all P (concat (map f ys))"
  by (auto simp: list_all_iff)

lemma downgrade_to_empty:
  assumes "n \<le> length revisions"
  shows "downgrade_to n head_schema = upgrade_to n []" "\<exists>u. upgrade_to n [] = Inr u"
proof -
  have "list_all (\<lambda>n. downgrade_to n head_schema = upgrade_to n [] \<and>
      (case upgrade_to n [] of Inl _ \<Rightarrow> False | Inr _ \<Rightarrow> True)) [0..<4]"
    by code_simp
  moreover have "n \<in> set [0..<4]" using assms by (simp add: revisions_def)
  ultimately have "downgrade_to n head_schema = upgrade_to n [] \<and>
      (case upgrade_to n [] of Inl _ \<Rightarrow> False | Inr _ \<Rightarrow> True)"
    by (simp only: list_all_iff)
  then show "downgrade_to n head_schema = upgrade_to n []" "\<exists>u. upgrade_to n [] = Inr u"
    by (simp_all split: sum.splits)
qed

text \<open>
  C33: Downgrading undoes upgrading, revision by revision. On a database with any other tables, whose names do
  not clash with the program's, upgrading to the head succeeds and adds the program's tables and
  nothing else; downgrading from there to any revision gives exactly the schema that upgrading to
  that revision gives, and downgrading to the base the schema there was at first.
\<close>

theorem migrations_roundtrip:
  assumes "fst ` set s \<inter> {''jobs'', ''job_events'', ''outbox_messages''} = {}"
    and "set (index_names s) \<inter> set (index_names head_schema) = {}"
    and "n \<le> length revisions"
  shows "upgrade_head s = Inr (s @ head_schema)
    \<and> bind_res (upgrade_head s) (downgrade_to n) = upgrade_to n s \<and> (\<exists>u. upgrade_to n s = Inr (s @ u))
    \<and> bind_res (upgrade_head s) downgrade_base = Inr s"
proof -
  note foreign = migrations_foreign [OF assms(1,2)]
  have up: "upgrade_head s = Inr (s @ head_schema)"
    using apply_ops_frame [OF foreign(1), of "[]"] upgrade_head_empty by (simp add: upgrade_head_def)
  have down: "downgrade_to k (s @ head_schema) = bind_res (downgrade_to k head_schema) (\<lambda>u. Inr (s @ u))" for k
    unfolding downgrade_to_def
    by (rule apply_ops_frame, rule list_all_concat_sub [OF foreign(2)]) (auto dest: in_set_dropD)
  have to: "upgrade_to n s = bind_res (upgrade_to n []) (\<lambda>u. Inr (s @ u))"
    using apply_ops_frame [OF list_all_concat_sub [OF foreign(1) set_take_subset], of n "[]"]
    by (simp add: upgrade_to_def)
  obtain u where u: "upgrade_to n [] = Inr u" using downgrade_to_empty(2) [OF assms(3)] by blast
  have "downgrade_base (s @ head_schema) = downgrade_to 0 (s @ head_schema)"
    by (simp add: downgrade_base_def downgrade_to_def)
  also have "\<dots> = Inr s" using down [of 0] downgrade_to_empty(1) [of 0] by (simp add: upgrade_to_def)
  finally show ?thesis using up down [of n] to u downgrade_to_empty(1) [OF assms(3)] by simp
qed

definition sample_schema :: schema where
  "sample_schema =
     [(''alembic_version'',
       \<lparr>tb_columns = [not_null ''version_num'' (VarChar 32)], tb_primary_key = [''version_num''],
        tb_uniques = [], tb_indexes = []\<rparr>)]"

theorem migrations_roundtrip_witness:
  "bind_res (upgrade_head sample_schema) downgrade_base = Inr sample_schema
   \<and> bind_res (upgrade_head sample_schema) (downgrade_to 2) = upgrade_to 2 sample_schema"
proof -
  have "fst ` set sample_schema \<inter> {''jobs'', ''job_events'', ''outbox_messages''} = {}"
    "set (index_names sample_schema) \<inter> set (index_names head_schema) = {}" "2 \<le> length revisions"
    by (simp_all add: sample_schema_def index_names_def revisions_def)
  from migrations_roundtrip [OF this] show ?thesis by blast
qed

end
