(* ===== verification/Conformance.thy ===== *)
theory Conformance
  imports Transactions Migrations
begin

section \<open>The database conforms to its schema\<close>

text \<open>
  Rows as the cells of their columns, and what the schema at the head of the migrations demands of
  them: types, lengths, nullability, primary keys and unique constraints. Every operation of the
  program keeps the database within it. Integers are unbounded here.
\<close>

subsection \<open>Cells\<close>

definition opt_cell :: "('a \<Rightarrow> pyval) \<Rightarrow> 'a option \<Rightarrow> pyval" where
  "opt_cell f x = (case x of None \<Rightarrow> PNone | Some a \<Rightarrow> f a)"

definition job_cells :: "JobModel \<Rightarrow> (string \<times> pyval) list" where
  "job_cells r =
     [(''id'', PStr (jm_id r)), (''request_payload'', jm_request_payload r),
      (''status'', PStr (jm_status r)), (''retry_count'', PInt (jm_retry_count r)),
      (''result'', opt_cell id (jm_result r)), (''error_message'', opt_cell PStr (jm_error_message r)),
      (''lease_owner'', opt_cell PStr (jm_lease_owner r)),
      (''lease_expires_at'', opt_cell PInt (jm_lease_expires_at r)),
      (''lease_epoch'', PInt (jm_lease_epoch r)), (''created_at'', PInt (jm_created_at r)),
      (''updated_at'', PInt (jm_updated_at r))]"

definition event_cells :: "JobEventModel \<Rightarrow> (string \<times> pyval) list" where
  "event_cells e =
     [(''id'', PInt (je_id e)), (''event_id'', PStr (je_event_id e)), (''job_id'', PStr (je_job_id e)),
      (''event_type'', PStr (je_event_type e)), (''source'', PStr (je_source e)),
      (''trace_id'', PStr (je_trace_id e)), (''payload'', je_payload e),
      (''created_at'', PInt (je_created_at e))]"

definition outbox_cells :: "OutboxMessageModel \<Rightarrow> (string \<times> pyval) list" where
  "outbox_cells r =
     [(''id'', PInt (ob_id r)), (''message_id'', PStr (ob_message_id r)), (''topic'', PStr (ob_topic r)),
      (''payload'', ob_payload r),
      (''headers'', opt_cell (\<lambda>hs. PDict (map (\<lambda>(k, v). (k, PStr v)) hs)) (ob_headers r)),
      (''status'', PStr (ob_status r)), (''attempts'', PInt (ob_attempts r)),
      (''last_error'', opt_cell PStr (ob_last_error r)), (''created_at'', PInt (ob_created_at r)),
      (''published_at'', opt_cell PInt (ob_published_at r))]"

text \<open>A value in a column; an instant is its number of microseconds.\<close>

definition fits :: "column \<Rightarrow> pyval \<Rightarrow> bool" where
  "fits c v =
     (case (col_type c, v) of
        (JsonType, _) \<Rightarrow> True
      | (_, PNone) \<Rightarrow> col_nullable c
      | (VarChar n, PStr s) \<Rightarrow> str_len s \<le> n
      | (TextType, PStr _) \<Rightarrow> True
      | (IntegerType, PInt _) \<Rightarrow> True
      | (TimestampTz, PInt _) \<Rightarrow> True
      | _ \<Rightarrow> False)"

definition row_conforms :: "db_table \<Rightarrow> (string \<times> pyval) list \<Rightarrow> bool" where
  "row_conforms t cells \<longleftrightarrow>
     set (map fst cells) = set (map col_name (tb_columns t)) \<and>
     list_all (\<lambda>c. case map_of cells (col_name c) of None \<Rightarrow> False | Some v \<Rightarrow> fits c v) (tb_columns t)"

definition keys_distinct :: "db_table \<Rightarrow> (string \<times> pyval) list list \<Rightarrow> bool" where
  "keys_distinct t rows \<longleftrightarrow>
     list_all (\<lambda>cols. distinct (map (\<lambda>cells. map (map_of cells) cols) rows))
       (tb_primary_key t # map snd (tb_uniques t))"

definition table_conforms :: "db_table option \<Rightarrow> (string \<times> pyval) list list \<Rightarrow> bool" where
  "table_conforms t rows =
     (case t of None \<Rightarrow> False | Some t \<Rightarrow> list_all (row_conforms t) rows \<and> keys_distinct t rows)"

definition jobs_conform :: "db_table option \<Rightarrow> db \<Rightarrow> bool" where
  "jobs_conform t d \<longleftrightarrow>
     (\<forall>k r. jobs d k = Some r \<longrightarrow> jm_id r = k \<and> table_conforms t [job_cells r])"

definition db_conforms :: "schema \<Rightarrow> db \<Rightarrow> bool" where
  "db_conforms s d \<longleftrightarrow>
     jobs_conform (map_of s ''jobs'') d \<and>
     table_conforms (map_of s ''job_events'') (map event_cells (job_events d)) \<and>
     table_conforms (map_of s ''outbox_messages'') (map outbox_cells (outbox_messages d))"

subsection \<open>Invariant\<close>

definition event_ok :: "JobEventModel \<Rightarrow> bool" where
  "event_ok e \<longleftrightarrow>
     str_len (je_event_id e) \<le> 64 \<and> str_len (je_job_id e) \<le> 64 \<and> str_len (je_event_type e) \<le> 64 \<and>
     str_len (je_source e) \<le> 64 \<and> str_len (je_trace_id e) \<le> 64"

definition message_ok :: "OutboxMessageModel \<Rightarrow> bool" where
  "message_ok r \<longleftrightarrow>
     str_len (ob_message_id r) \<le> 64 \<and> str_len (ob_topic r) \<le> 128 \<and>
     ob_status r \<in> {''PENDING'', ''PUBLISHED''}"

definition row_sized :: "string \<Rightarrow> JobModel \<Rightarrow> bool" where
  "row_sized k r \<longleftrightarrow>
     str_len k \<le> 64 \<and> (case jm_lease_owner r of None \<Rightarrow> True | Some ow \<Rightarrow> str_len ow \<le> 64)"

definition db_inv :: "db \<Rightarrow> bool" where
  "db_inv d \<longleftrightarrow>
     jobs_ok d \<and> (\<forall>k r. jobs d k = Some r \<longrightarrow> row_sized k r) \<and>
     sorted_wrt (<) (map je_id (job_events d)) \<and> (\<forall>e \<in> set (job_events d). je_id e \<le> event_seq d) \<and>
     distinct (map je_event_id (job_events d)) \<and> (\<forall>e \<in> set (job_events d). event_ok e) \<and>
     outbox_ok d \<and> distinct (map ob_message_id (outbox_messages d)) \<and>
     (\<forall>r \<in> set (outbox_messages d). message_ok r)"

subsection \<open>The invariant gives conformance\<close>

lemma status_value_len: "str_len (status_value st) \<le> 32"
  by (rule str_len_le) (cases st; simp add: status_value.simps)

lemma head_tables:
  "map_of head_schema ''jobs'' = Some \<lparr>tb_columns =
      [not_null ''id'' (VarChar 64), not_null ''request_payload'' JsonType,
       not_null ''status'' (VarChar 32), defaulted ''retry_count'' IntegerType ''0'',
       nullable ''result'' JsonType, nullable ''error_message'' TextType,
       defaulted ''created_at'' TimestampTz ''now()'', defaulted ''updated_at'' TimestampTz ''now()'',
       nullable ''lease_owner'' (VarChar 64), nullable ''lease_expires_at'' TimestampTz,
       defaulted ''lease_epoch'' IntegerType ''0''],
     tb_primary_key = [''id''], tb_uniques = [],
     tb_indexes = [plain_index ''ix_jobs_status'' ''status'',
                   plain_index ''ix_jobs_lease_expires_at'' ''lease_expires_at'']\<rparr>"
  "map_of head_schema ''job_events'' = Some
     (job_events_table\<lparr>tb_indexes := [column_index ''job_events'' ''event_type'',
        column_index ''job_events'' ''job_id'', column_index ''job_events'' ''trace_id'']\<rparr>)"
  "map_of head_schema ''outbox_messages'' = Some
     (outbox_messages_table\<lparr>tb_columns :=
        [not_null ''id'' IntegerType, not_null ''message_id'' (VarChar 64),
         not_null ''topic'' (VarChar 128), not_null ''payload'' JsonType, nullable ''headers'' JsonType,
         defaulted ''status'' (VarChar 16) ''PENDING'', defaulted ''attempts'' IntegerType ''0'',
         nullable ''last_error'' TextType, defaulted ''created_at'' TimestampTz ''now()'',
         nullable ''published_at'' TimestampTz]\<rparr>)"
  by (simp_all add: head_schema_def upgrade_head_def migration_defs on_table_def index_names_def
        job_events_table_def outbox_messages_table_def column_index_def)

lemma distinct_cell: "distinct (map (\<lambda>x. [Some (c (f x))]) xs) \<longleftrightarrow> distinct (map f xs)"
  if "\<And>a b. c a = c b \<longleftrightarrow> a = b"
  using that by (auto simp: distinct_map inj_on_def)

lemma jobs_conform_head:
  assumes "db_inv d"
  shows "jobs_conform (map_of head_schema ''jobs'') d"
  unfolding jobs_conform_def
proof (intro allI impI conjI)
  fix k r assume r: "jobs d k = Some r"
  with assms have ok: "row_ok k r" and sized: "row_sized k r"
    by (auto simp: db_inv_def jobs_ok_def)
  then show "jm_id r = k" by (simp add: row_ok_def)
  have "str_len (jm_status r) \<le> 32" using ok status_value_len by (auto simp: row_ok_def)
  with ok sized show "table_conforms (map_of head_schema ''jobs'') [job_cells r]"
    by (simp add: head_tables table_conforms_def keys_distinct_def row_conforms_def job_cells_def
          fits_def opt_cell_def row_ok_def row_sized_def insert_commute split: option.splits)
qed

lemma events_conform_head:
  assumes "db_inv d"
  shows "table_conforms (map_of head_schema ''job_events'') (map event_cells (job_events d))"
proof -
  let ?t = "job_events_table\<lparr>tb_indexes := [column_index ''job_events'' ''event_type'',
        column_index ''job_events'' ''job_id'', column_index ''job_events'' ''trace_id'']\<rparr>"
  have "distinct (map je_id (job_events d))" "distinct (map je_event_id (job_events d))"
    using assms by (auto simp: db_inv_def intro: sorted_map_less_distinct)
  then have "keys_distinct ?t (map event_cells (job_events d))"
    by (simp add: keys_distinct_def job_events_table_def event_cells_def o_def
          distinct_cell [of PInt] distinct_cell [of PStr])
  moreover have "row_conforms ?t (event_cells e)" if "e \<in> set (job_events d)" for e
    using that assms
    by (simp add: db_inv_def row_conforms_def job_events_table_def event_cells_def fits_def event_ok_def)
  ultimately show ?thesis by (simp add: head_tables table_conforms_def list_all_iff)
qed

lemma outbox_conforms_head:
  assumes "db_inv d"
  shows "table_conforms (map_of head_schema ''outbox_messages'') (map outbox_cells (outbox_messages d))"
proof -
  let ?t = "outbox_messages_table\<lparr>tb_columns :=
        [not_null ''id'' IntegerType, not_null ''message_id'' (VarChar 64),
         not_null ''topic'' (VarChar 128), not_null ''payload'' JsonType, nullable ''headers'' JsonType,
         defaulted ''status'' (VarChar 16) ''PENDING'', defaulted ''attempts'' IntegerType ''0'',
         nullable ''last_error'' TextType, defaulted ''created_at'' TimestampTz ''now()'',
         nullable ''published_at'' TimestampTz]\<rparr>"
  have "distinct (map ob_id (outbox_messages d))" "distinct (map ob_message_id (outbox_messages d))"
    using assms by (auto simp: db_inv_def outbox_ok_def intro: sorted_map_less_distinct)
  then have "keys_distinct ?t (map outbox_cells (outbox_messages d))"
    by (simp add: keys_distinct_def outbox_messages_table_def outbox_cells_def o_def
          distinct_cell [of PInt] distinct_cell [of PStr])
  moreover have "row_conforms ?t (outbox_cells r)" if "r \<in> set (outbox_messages d)" for r
  proof -
    have len: "str_len ''PENDING'' \<le> 16" "str_len ''PUBLISHED'' \<le> 16"
      by (simp_all add: str_len_le)
    from that assms have "message_ok r" by (simp add: db_inv_def)
    with len show ?thesis
      by (auto simp: row_conforms_def outbox_cells_def fits_def message_ok_def opt_cell_def
            split: option.splits)
  qed
  ultimately show ?thesis by (simp add: head_tables table_conforms_def list_all_iff)
qed

lemma db_inv_conforms: "db_inv d \<Longrightarrow> db_conforms head_schema d"
  by (simp add: db_conforms_def jobs_conform_head events_conform_head outbox_conforms_head)

subsection \<open>Statements\<close>

lemma db_inv_jobs:
  assumes "db_inv d" "jobs_ok (d\<lparr>jobs := m\<rparr>)" "\<And>k r. m k = Some r \<Longrightarrow> row_sized k r"
  shows "db_inv (d\<lparr>jobs := m\<rparr>)"
  using assms by (simp add: db_inv_def outbox_ok_def)

lemma job_add_inv:
  assumes "job_add now j d = Inr d'" "db_inv d"
  shows "db_inv d'"
proof -
  from assms(1) obtain row where d': "d' = d\<lparr>jobs := (jobs d)(job_id j \<mapsto> row)\<rparr>"
    and row: "str_len (job_id j) \<le> 64" "jm_lease_owner row = None"
    by (fastforce simp: job_add_def varchar_Inr split: if_splits)
  show ?thesis
    unfolding d'
  proof (rule db_inv_jobs [OF assms(2)])
    show "jobs_ok (d\<lparr>jobs := (jobs d)(job_id j \<mapsto> row)\<rparr>)"
      using job_add_ok [OF assms(1)] assms(2) d' by (simp add: db_inv_def)
    show "row_sized k r" if "((jobs d)(job_id j \<mapsto> row)) k = Some r" for k r
      using that assms(2) row by (auto simp: db_inv_def row_sized_def split: if_splits)
  qed
qed

lemma row_update_inv:
  assumes "db_inv d" "jobs d k = Some r" "row_ok k r'" "row_sized k r'"
  shows "db_inv (d\<lparr>jobs := (jobs d)(k \<mapsto> r')\<rparr>)"
  using assms by (intro db_inv_jobs) (auto simp: db_inv_def jobs_ok_def split: if_splits)

lemma update_status_inv:
  assumes "update_status now jid st opts d = Inr (x, d')" "opt_expected_statuses opts = None" "db_inv d"
  shows "db_inv d'"
proof (cases x)
  case None
  with assms show ?thesis by (auto dest: update_status_None)
next
  case (Some j)
  with assms(1) obtain k r target where r: "jobs d k = Some r"
    and d': "d' = d\<lparr>jobs := (jobs d)(k \<mapsto> cas_row now target opts r)\<rparr>"
    using assms(2) by (auto elim!: update_status_Some)
  from r assms(3) have "row_ok k r" "row_sized k r" by (auto simp: db_inv_def jobs_ok_def)
  then show ?thesis
    unfolding d'
    by (intro row_update_inv [OF assms(3) r]) (auto simp: row_ok_def row_sized_def cas_row_def)
qed

lemma claim_inv:
  assumes "claim_for_processing now dbnow jid owner secs d = Inr (x, d')" "str_len owner \<le> 64" "db_inv d"
  shows "db_inv d'"
proof (cases x)
  case None
  with assms show ?thesis by (auto dest: claim_None)
next
  case (Some l)
  with assms(1) obtain k r where r: "jobs d k = Some r"
    and d': "d' = d\<lparr>jobs := (jobs d)(k \<mapsto> claim_row now dbnow owner secs r)\<rparr>"
    by (auto elim!: claim_Some)
  from r assms(3) have "row_ok k r" "row_sized k r" by (auto simp: db_inv_def jobs_ok_def)
  then show ?thesis
    unfolding d' using assms(2)
    by (intro row_update_inv [OF assms(3) r]) (auto simp: row_ok_def row_sized_def claim_row_def)
qed

lemma event_add_inv:
  assumes "event_add now ev d = Inr d'" "db_inv d"
  shows "db_inv d'"
proof -
  from assms(1) obtain row where row: "event_row now (event_seq d + 1) ev = Inr row"
    "je_event_id row \<notin> je_event_id ` set (job_events d)"
    "d' = d\<lparr>event_seq := event_seq d + 1, job_events := job_events d @ [row]\<rparr>"
    by (auto simp: event_add_def split: if_splits)
  from row(1) have "event_ok row" "je_id row = event_seq d + 1"
    by (auto simp: event_row_def event_ok_def varchar_Inr)
  with row(2) assms(2) show ?thesis
    unfolding row(3)
    by (force simp: db_inv_def jobs_ok_def outbox_ok_def sorted_wrt_append)
qed

lemma outbox_add_inv:
  assumes "outbox_add now mid tp p hs d = Inr (m, d')" "db_inv d"
  shows "db_inv d'"
proof -
  have "outbox_ok d'" using outbox_add_ok [OF assms(1)] assms(2) by (simp add: db_inv_def)
  with assms show ?thesis
    by (auto simp: outbox_add_def db_inv_def jobs_ok_def message_ok_def varchar_Inr split: if_splits)
qed

text \<open>The relay's updates change no identifier and no name.\<close>

lemma outbox_map_inv:
  assumes "db_inv d" "\<And>r. ob_id (f r) = ob_id r" "\<And>r. ob_message_id (f r) = ob_message_id r"
    and "\<And>r. message_ok r \<Longrightarrow> message_ok (f r)"
  shows "db_inv (d\<lparr>outbox_messages := map f (outbox_messages d)\<rparr>)"
  using assms by (auto simp: db_inv_def outbox_ok_def jobs_ok_def o_def)

lemma mark_published_inv: "db_inv d \<Longrightarrow> db_inv (mark_published now ids d)"
  unfolding mark_published_def
  by (auto intro!: outbox_map_inv simp: publish_row_def message_ok_def)

lemma mark_failed_inv: "db_inv d \<Longrightarrow> db_inv (mark_failed i err d)"
  unfolding mark_failed_def
  by (auto intro!: outbox_map_inv simp: fail_row_def message_ok_def)

lemmas statement_inv = job_add_inv update_status_inv claim_inv event_add_inv outbox_add_inv

subsection \<open>Every transaction keeps the invariant\<close>

lemma opts_expected [simp]:
  "opt_expected_statuses (success_opts svc l result) = None"
  "opt_expected_statuses (failure_opts svc l exc) = None"
  "opt_expected_statuses (default_opts\<lparr>opt_result := x, opt_clear_error := b\<rparr>) = None"
  "opt_expected_statuses (default_opts\<lparr>opt_error := e\<rparr>) = None"
  by (simp_all add: success_opts_def failure_opts_def default_opts_def)

interpretation typed: tx_invariant db_inv "\<lambda>wid. str_len wid \<le> 64"
proof
  show "db_inv d'" if "create_block js env payload d = Inr (Commit u d')" "db_inv d"
    for js env payload d u d'
    using that by (auto simp: create_block_def dest!: job_add_inv event_add_inv outbox_add_inv)
  show "db_inv d'"
    if "claim_block source svc env jid tid d = Inr (Commit c d')" "str_len (svc_worker_id svc) \<le> 64" "db_inv d"
    for source svc env jid tid d c d'
    using that by (auto simp: claim_block_def split: option.splits dest!: claim_inv event_add_inv)
  show "db_inv d'" if "success_block svc env jid tid l result d = Inr (Commit b d')" "db_inv d"
    for svc env jid tid l result d b d'
    using that
    by (auto simp: success_block_def split: option.splits dest!: update_status_inv [OF _ opts_expected(1)] event_add_inv)
  show "db_inv d'" if "failure_block source svc env jid tid l exc d = Inr (Commit b d')" "db_inv d"
    for source svc env jid tid l exc d b d'
    using that
    by (auto simp: failure_block_def split: option.splits dest!: update_status_inv [OF _ opts_expected(2)] event_add_inv)
  show "db_inv d'" if "handover_block topic env jid tid request result d = Inr (Commit u d')" "db_inv d"
    for topic env jid tid request result d u d'
    using that by (auto simp: handover_block_def dest!: event_add_inv outbox_add_inv)
  show "db_inv d'" if "finish_block env jid tid payload result d = Inr (Commit u d')" "db_inv d"
    for env jid tid payload result d u d'
    using that
    by (auto simp: finish_block_def dest!: update_status_inv [OF _ opts_expected(3)] event_add_inv)
  show "db_inv d'" if "downstream_fail_block env jid tid exc d = Inr (Commit u d')" "db_inv d"
    for env jid tid exc d u d'
    using that
    by (auto simp: downstream_fail_block_def dest!: update_status_inv [OF _ opts_expected(4)] event_add_inv)
qed (rule mark_published_inv mark_failed_inv; assumption)+

subsection \<open>Every reachable database conforms\<close>

text \<open>One committed transaction of some component, with any arguments; a worker's name fits its column.\<close>

inductive db_commit :: "db \<Rightarrow> db \<Rightarrow> bool" where
  create: "create_block js env payload d = Inr (Commit u d') \<Longrightarrow> db_commit d d'"
| claim: "claim_block source svc env jid tid d = Inr (Commit c d') \<Longrightarrow>
    str_len (svc_worker_id svc) \<le> 64 \<Longrightarrow> db_commit d d'"
| success: "success_block svc env jid tid l result d = Inr (Commit b d') \<Longrightarrow> db_commit d d'"
| failure: "failure_block source svc env jid tid l exc d = Inr (Commit b d') \<Longrightarrow> db_commit d d'"
| handover: "handover_block topic env jid tid request result d = Inr (Commit v d') \<Longrightarrow> db_commit d d'"
| finish: "finish_block env jid tid payload result d = Inr (Commit v d') \<Longrightarrow> db_commit d d'"
| downstream_fail: "downstream_fail_block env jid tid exc d = Inr (Commit v d') \<Longrightarrow> db_commit d d'"
| published: "db_commit d (mark_published now ids d)"
| failed: "db_commit d (mark_failed i err d)"

definition reachable :: "db \<Rightarrow> bool" where
  "reachable d \<longleftrightarrow> db_commit\<^sup>*\<^sup>* empty_db d"

lemma reachable_step: "db_commit d d' \<Longrightarrow> reachable d \<Longrightarrow> reachable d'"
  by (simp add: reachable_def)

lemma db_commit_inv: "db_commit d d' \<Longrightarrow> db_inv d \<Longrightarrow> db_inv d'"
  by (induction rule: db_commit.induct)
     (blast intro: typed.create_keeps typed.claim_keeps typed.success_keeps typed.failure_keeps
        typed.handover_keeps typed.finish_keeps typed.downstream_fail_keeps
        typed.published_keeps typed.failed_keeps)+

interpretation typed_system: invariant_system db_commit db_inv
  by unfold_locales (rule db_commit_inv)

interpretation reached: tx_invariant reachable "\<lambda>wid. str_len wid \<le> 64"
  by unfold_locales (erule (2) reachable_step [OF db_commit.claim] |
      rule reachable_step [OF db_commit.published] reachable_step [OF db_commit.failed] |
      (erule reachable_step [rotated], erule db_commit.intros) | assumption)+

lemma empty_db_inv: "db_inv empty_db"
  by (simp add: db_inv_def jobs_ok_def outbox_ok_def empty_db_def)

lemma reachable_inv: "reachable d \<Longrightarrow> db_inv d"
  using typed_system.inv_steps [OF _ empty_db_inv] by (simp add: reachable_def)

text \<open>
  C13: The database always conforms to the schema of the migrations. Starting from empty tables, whatever
  transactions the components commit, every row fits its columns (types, lengths, nullability), keys
  are unique, and every status is one of the enumerated values; and what a request, a delivery to a
  worker of any role, or a relay pass does to the database is such transactions only, however they
  end and whatever the surroundings commit in between.
\<close>

theorem database_conforms:
  assumes "reachable (wdb w)" "reachable (ce_db cenv (wdb w))" "reachable (re_during re (wdb w))"
    and "surroundings_keep reachable env" "str_len wid \<le> 64"
    and "create_job st js cenv payload ikey w s = (r1, w1, s1)"
    and "drain_once rl ext re w = (r2, w2)"
    and "role_handle_event wid runs role env event w = (r3, w3)"
    and "d \<in> {wdb w, wdb w1, wdb w2, wdb w3}"
  shows "reachable d \<and> db_conforms head_schema d \<and> jobs_ok d \<and> outbox_ok d"
proof -
  have "reachable (wdb w1)" using reached.create_job_keeps [OF assms(6,2)] .
  moreover have "reachable (wdb w2)" using reached.drain_once_keeps [OF assms(7,3)] .
  moreover have "reachable (wdb w3)" using reached.role_handle_keeps [OF assms(8,5,4,1)] .
  ultimately have d: "reachable d" using assms(1,9) by auto
  then have "db_inv d" by (rule reachable_inv)
  with d db_inv_conforms show ?thesis by (auto simp: db_inv_def)
qed

theorem database_conforms_witness:
  "\<exists>j w1 s1. create_job (redis_store map_redis sample_rs) sample_js sample_create (PDict []) (Some ''k1'')
       (sample_world empty_db) Map.empty = (Inr j, w1, s1) \<and> db_conforms head_schema (wdb w1)"
proof -
  obtain j w1 s1 where c: "create_job (redis_store map_redis sample_rs) sample_js sample_create
      (PDict []) (Some ''k1'') (sample_world empty_db) Map.empty = (Inr j, w1, s1)"
    using sample_first by blast
  have e: "reachable empty_db" by (simp add: reachable_def)
  obtain r2 w2 where p: "drain_once (relay_init 2 1) sample_externals sample_pass (sample_world empty_db) = (r2, w2)"
    by fastforce
  obtain r3 w3 where h: "role_handle_event ''a'' (\<lambda>_. sample_process) (build_worker_role default_settings)
      sample_env sample_event (sample_world empty_db) = (r3, w3)"
    by fastforce
  have "reachable (wdb w1) \<and> db_conforms head_schema (wdb w1) \<and> jobs_ok (wdb w1) \<and> outbox_ok (wdb w1)"
    by (rule database_conforms [OF _ _ _ _ _ c p h])
       (simp_all add: e surroundings_keep_def sample_pass_def str_len_le)
  with c show ?thesis by blast
qed

end
