(* ===== verification/Journeys.thy ===== *)
theory Journeys
  imports End_To_End Conformance
begin

section \<open>A job's way through the split pipeline and through a retry\<close>

text \<open>
  The inference and the downstream worker connected by the outbox and the relay: from the request to
  the result that holds the answers of both. And a job whose first delivery fails: the retry record
  brings it back to a worker, which finishes it.
\<close>

subsection \<open>The two deliveries\<close>

text \<open>A delivery to the inference worker that goes well, and one to the downstream worker.\<close>

definition smooth_handover :: "svc_env \<Rightarrow> string \<Rightarrow> db \<Rightarrow> bool" where
  "smooth_handover env tp d \<longleftrightarrow>
     tx_fault (ev_claim env) = TxOk \<and> tx_fault (ev_finish env) = TxOk \<and>
     ev_during env = (\<lambda>d. d) \<and> ev_before_fail env = (\<lambda>d. d) \<and>
     uuid_fresh (tx_uuid (ev_claim env) 0) d \<and> uuid_fresh (tx_uuid (ev_finish env) 1) d \<and>
     tx_uuid (ev_finish env) 1 \<noteq> tx_uuid (ev_claim env) 0 \<and>
     message_fresh (tx_uuid (ev_finish env) 2) tp d"

definition smooth_finish :: "svc_env \<Rightarrow> db \<Rightarrow> bool" where
  "smooth_finish env d \<longleftrightarrow>
     tx_fault (ev_claim env) = TxOk \<and> tx_fault (ev_finish env) = TxOk \<and>
     ev_during env = (\<lambda>d. d) \<and> env_ok env \<and> uuid_fresh (tx_uuid (ev_finish env) 0) d"

lemma message_without_headers:
  assumes "oi_headers item = None" "role (oi_payload item) w = (Inr (True, x), w')"
  shows "handle_message ext s tps role (redelivered part off (wire_record item)) w = (Inr (), w')"
  using assms
  by (simp add: handle_message_def skipped_def redelivered_def wire_record_def wire_headers_def
        decode_headers_def header_or_def)

lemma pending_items_outbox: "outbox_messages d' = outbox_messages d \<Longrightarrow> pending_items d' = pending_items d"
  by (simp add: pending_items_def)

lemma request_handed_over:
  assumes "jobs (wdb w) (tx_uuid env 1) = Some r" "jm_status r = status_value PENDING"
    and "short_names (tx_uuid env 1) (tx_uuid env 2)"
    and "smooth_handover envi tp (wdb w)" "process payload = Inr result"
  obtains w' r' d where
    "inference_handle_event tp svc envi process (request_event env payload) w = (Inr (True, None), w')"
    "jobs (wdb w') (tx_uuid env 1) = Some r'" "jm_status r' = status_value PROCESSING"
    "pending_items (wdb w') = pending_items (wdb w) @
       [handover_item tp (ev_finish envi) (PStr (tx_uuid env 1)) (PStr (tx_uuid env 2)) payload result d]"
    "je_event_id ` set (job_events (wdb w')) = {tx_uuid (ev_finish envi) 1, tx_uuid (ev_claim envi) 0} \<union>
       je_event_id ` set (job_events (wdb w))"
proof -
  let ?k = "tx_uuid env 1" and ?t = "tx_uuid env 2"
  let ?d = "db_processed ''inference-worker'' svc envi ?k ?t w"
  have c: "claimable (tx_now (ev_claim envi)) r" using assms(2) by (simp add: claimable_def)
  have s: "tx_fault (ev_claim envi) = TxOk" "ev_during envi = (\<lambda>d. d)"
      "uuid_fresh (tx_uuid (ev_claim envi) 0) (wdb w)"
    using assms(4) by (simp_all add: smooth_handover_def)
  note u = claim_undisturbed [OF s assms(1) c assms(3) short_source(2), of svc]
  have fresh: "tx_fault (ev_finish envi) = TxOk" "uuid_fresh (tx_uuid (ev_finish envi) 1) ?d"
      "message_fresh (tx_uuid (ev_finish envi) 2) tp ?d"
    using assms(4)
    by (simp_all add: smooth_handover_def uuid_fresh_def u(2,3) message_fresh_def del: One_nat_def)
  from inference_completes [OF request_event_names u(1)
      request_event_request [where process = process, OF assms(5)] fresh(1) refl fresh(2,3)]
  obtain w' ev where h: "inference_handle_event tp svc envi process (request_event env payload) w
      = (Inr (True, None), w')"
    and ev: "job_events (wdb w') = job_events ?d @ [ev]" "je_event_id ev = tx_uuid (ev_finish envi) 1"
    and st: "map_option jm_status (jobs (wdb w') ?k) = Some (status_value PROCESSING)"
    and pend: "pending_items (wdb w') = pending_items ?d @
       [handover_item tp (ev_finish envi) (PStr ?k) (PStr ?t) payload result ?d]"
    by blast
  from st obtain r' where r': "jobs (wdb w') ?k = Some r'" "jm_status r' = status_value PROCESSING" by blast
  have "je_event_id ` set (job_events (wdb w')) =
      {tx_uuid (ev_finish envi) 1, tx_uuid (ev_claim envi) 0} \<union> je_event_id ` set (job_events (wdb w))"
    by (simp only: ev u(2) set_append image_Un list.simps image_insert image_empty) simp
  from that [OF h r' _ this] pend pending_items_outbox [OF u(3)] show thesis by simp
qed

lemma handover_finished:
  assumes "jobs (wdb w) k = Some r" "jm_status r = status_value PROCESSING" "jobs_ok (wdb w)"
    and "short_names k t" "smooth_finish env (wdb w)"
    and "process (PDict [(''request'', request), (''inference_result'', ir)]) = Inr result"
  obtains w' where
    "downstream_handle_event env process (downstream_event e (PStr k) (PStr t) request ir) w = (Inr (True, None), w')"
    "get_job_route text None k (wdb w') =
       Response 200 (PDict [(''job_id'', PStr k), (''status'', PStr (status_value SUCCESS)),
                            (''result'', downstream_result ir result), (''error'', PNone)])"
proof -
  let ?ev = "downstream_event e (PStr k) (PStr t) request ir"
  have names: "names_job ?ev k t" by (simp add: names_job_def downstream_event_def)
  have payload: "py_getitem ?ev ''payload'' = Inr (PDict [(''request'', request), (''inference_result'', ir)])"
    by (simp add: downstream_event_def)
  have s: "tx_fault (ev_claim env) = TxOk" "tx_fault (ev_finish env) = TxOk" "env_ok env"
      "jobs (ev_during env (wdb w)) k = Some r"
      "uuid_fresh (tx_uuid (ev_finish env) 0) (ev_during env (wdb w))"
    using assms(1,5) by (simp_all add: smooth_finish_def)
  from downstream_completes [where process = process,
      OF names assms(4,1,2) s(1,2) payload _ assms(6) s(4,5), of ir]
  obtain w' r' where w': "downstream_handle_event env process ?ev w = (Inr (True, None), w')"
    "jobs (wdb w') k = Some r'"
    "outcome r' = (status_value SUCCESS, Some (downstream_result ir result), None)" by auto
  have "domain_step\<^sup>*\<^sup>* (wdb w) (wdb w')"
    using downstream_handle_event_steps [OF s(3), of w process ?ev] w'(1) by simp
  from jobs_inv.inv_steps [OF this assms(3)] w'(2) have "jm_id r' = k"
    by (auto simp: jobs_ok_def row_ok_def)
  from that [OF w'(1) finished_row_answer [OF w'(2) this w'(3)]] show thesis
    by (simp add: is_dict_def downstream_result_def)
qed

lemma split_roles:
  assumes "split_mode s"
  shows "build_worker_role (s\<lparr>worker_role := ''inference''\<rparr>) = InferenceWorkerRole (InferencePipelineService
      (worker_processing_ttl_seconds s) (build_primary_processor s (architecture_mode s = ''C''))
      (kafka_downstream_topic s))"
    and "build_worker_role (s\<lparr>worker_role := ''downstream''\<rparr>) = DownstreamWorkerRole
      (DownstreamPipelineService (DownstreamDummyProcessor (downstream_simulated_latency_ms s)))"
  using assms by (simp_all add: build_worker_role_def split_mode_def Let_def build_primary_processor_def)

subsection \<open>The whole way\<close>

lemma inference_handled:
  assumes "split_mode s" "oi_headers item = None"
    and "inference_handle_event (kafka_downstream_topic s)
      \<lparr>svc_worker_id = wid, svc_lease_seconds = worker_processing_ttl_seconds s\<rparr> env
      (runs (build_primary_processor s (architecture_mode s = ''C''))) (oi_payload item) w
      = (Inr (True, None), w')"
  shows "handle_message ext cfg tps
      (role_handle_event wid runs (build_worker_role (s\<lparr>worker_role := ''inference''\<rparr>)) env)
      (redelivered part off (wire_record item)) w = (Inr (), w')"
  using assms by (intro message_without_headers [where x = None]) (simp_all add: split_roles)

lemma downstream_handled:
  assumes "split_mode s" "oi_headers item = None"
    and "downstream_handle_event env (runs (DownstreamDummyProcessor (downstream_simulated_latency_ms s)))
      (oi_payload item) w = (Inr (True, None), w')"
  shows "handle_message ext cfg tps
      (role_handle_event wid runs (build_worker_role (s\<lparr>worker_role := ''downstream''\<rparr>)) env)
      (redelivered part off (wire_record item)) w = (Inr (), w')"
  using assms by (intro message_without_headers [where x = None]) (simp_all add: split_roles)

lemma quiet_pass_reachable:
  "drain_once rl ext re w = (r, w') \<Longrightarrow> quiet re \<Longrightarrow> reachable (wdb w) \<Longrightarrow> reachable (wdb w')"
  by (erule reached.drain_once_keeps) (simp add: quiet_def)

text \<open>The second half: a message of the inference worker is relayed and finished downstream.\<close>

lemma handover_to_result:
  assumes "reachable (wdb wr)" "jobs (wdb wr) k = Some r" "jm_status r = status_value PROCESSING"
    and "pending_items (wdb wr) = [handover_item tp e (PStr k) (PStr t) request ir d]"
    and pass: "quiet re" "drain_once rl ext re wr = (x, w4)" "\<forall>n rec. send_result ext n rec = None"
    and "0 < rl_batch_size rl" and split: "split_mode s" and "short_names k t"
    and down: "smooth_finish env (wdb w4)" "wdb wd = wdb w4"
    and process: "runs (DownstreamDummyProcessor (downstream_simulated_latency_ms s))
      (PDict [(''request'', request), (''inference_result'', ir)]) = Inr result"
  obtains w5 where
    "acked w4 = acked wr @ [wire_record (handover_item tp e (PStr k) (PStr t) request ir d)]"
    "handle_message ext cfg tps
       (role_handle_event wid runs (build_worker_role (s\<lparr>worker_role := ''downstream''\<rparr>)) env)
       (redelivered part off (last (acked w4))) wd = (Inr (), w5)"
    "get_job_route text None k (wdb w5) =
       Response 200 (PDict [(''job_id'', PStr k), (''status'', PStr (status_value SUCCESS)),
                            (''result'', downstream_result ir result), (''error'', PNone)])"
proof -
  let ?item = "handover_item tp e (PStr k) (PStr t) request ir d"
  have "outbox_ok (wdb wr)" using reachable_inv [OF assms(1)] by (simp add: db_inv_def)
  then have sent: "acked w4 = acked wr @ [wire_record ?item]"
    using drain_once_all(1) [OF _ pass] assms(4,8) by simp
  have job: "jobs (wdb wd) k = Some r"
    using drain_once_jobs(1) [OF pass(2)] pass(1) assms(2) by (simp add: quiet_def down(2))
  have ok: "jobs_ok (wdb wd)"
    using reachable_inv [OF quiet_pass_reachable [OF pass(2,1) assms(1)]] by (simp add: db_inv_def down(2))
  obtain w5 where w5: "downstream_handle_event env
      (runs (DownstreamDummyProcessor (downstream_simulated_latency_ms s)))
      (downstream_event e (PStr k) (PStr t) request ir) wd = (Inr (True, None), w5)"
    "get_job_route text None k (wdb w5) =
       Response 200 (PDict [(''job_id'', PStr k), (''status'', PStr (status_value SUCCESS)),
                            (''result'', downstream_result ir result), (''error'', PNone)])"
    by (rule handover_finished [where process = "runs (DownstreamDummyProcessor (downstream_simulated_latency_ms s))",
          OF job assms(3) ok assms(10) down(1) [folded down(2)] process])
  have "oi_headers ?item = None" "oi_payload ?item = downstream_event e (PStr k) (PStr t) request ir"
    by (simp_all add: handover_item_def)
  with downstream_handled [where runs = runs, OF split, of ?item env wd w5] w5 sent
  show thesis by (intro that) simp_all
qed

text \<open>The first half: the request is relayed and handed over by the inference worker.\<close>

lemma request_to_handover:
  assumes post: "create_job_route api s env request ikey w st = (Response 202 body, w1, st1)"
    and first: "wdb w1 \<noteq> ce_db env (wdb w)" "reachable (ce_db env (wdb w))"
    and ids: "jid = tx_uuid (ce_tx env) 1" "short_names jid (tx_uuid (ce_tx env) 2)"
    and mode: "split_mode s" "length (pending_items (ce_db env (wdb w))) < nat (outbox_relay_batch_size s)"
    and sends: "\<forall>n rec. send_result ext n rec = None"
    and relay: "quiet re" "drain_once (relay_init (outbox_relay_batch_size s) poll) ext re w1 = (r2, w2)"
    and infer: "smooth_handover envi (kafka_downstream_topic s) (wdb w2)" "wdb wi = wdb w2" "str_len wid \<le> 64"
      "runs (build_primary_processor s (architecture_mode s = ''C'')) (model_dump request) = Inr ir"
      "handle_message ext cfg tps
         (role_handle_event wid runs (build_worker_role (s\<lparr>worker_role := ''inference''\<rparr>)) envi)
         (redelivered part off (last (acked w2))) wi = (r3, w3)"
  obtains r d where "py_getitem body ''job_id'' = Inr (PStr jid)"
    "kr_topic (last (acked w2)) = kafka_request_topic s" "r3 = Inr ()"
    "reachable (wdb w3)" "jobs (wdb w3) jid = Some r" "jm_status r = status_value PROCESSING"
    "pending_items (wdb w3) = [handover_item (kafka_downstream_topic s) (ev_finish envi) (PStr jid)
       (PStr (tx_uuid (ce_tx env) 2)) (model_dump request) ir d]"
    "je_event_id ` set (job_events (wdb w3)) = {tx_uuid (ev_finish envi) 1, tx_uuid (ev_claim envi) 0} \<union>
       je_event_id ` set (job_events (wdb w2))"
proof -
  let ?env = "ce_tx env" and ?p = "model_dump request" and ?svc = "container_job_service s"
  let ?item = "request_item ?svc ?env ?p (ce_db env (wdb w))" and ?tp = "kafka_downstream_topic s"
  let ?wsvc = "\<lparr>svc_worker_id = wid, svc_lease_seconds = worker_processing_ttl_seconds s\<rparr>"
  have "outbox_ok (ce_db env (wdb w))" using reachable_inv [OF first(2)] by (simp add: db_inv_def)
  from request_sent [OF post first(1) refl this relay sends mode(2)]
  obtain u row where block: "create_block ?svc ?env ?p (ce_db env (wdb w)) = Inr (Commit u (wdb w1))"
    and row: "jobs (wdb wi) (tx_uuid ?env 1) = Some row" "jm_status row = status_value PENDING"
    and empty: "pending_items (wdb wi) = []"
    and id: "py_getitem body ''job_id'' = Inr (PStr (tx_uuid ?env 1))"
    and sent: "acked w2 = acked w @ map wire_record (pending_items (ce_db env (wdb w))) @ [wire_record ?item]"
    unfolding infer(2) by metis
  have reach: "reachable (wdb wi)"
    using quiet_pass_reachable [OF relay(2,1) reached.create_keeps [OF block first(2)]] by (simp add: infer(2))
  obtain w3' r d where i: "inference_handle_event ?tp ?wsvc envi
      (runs (build_primary_processor s (architecture_mode s = ''C''))) (request_event ?env ?p) wi
      = (Inr (True, None), w3')"
    "jobs (wdb w3') (tx_uuid ?env 1) = Some r" "jm_status r = status_value PROCESSING"
    "pending_items (wdb w3') = pending_items (wdb wi) @
       [handover_item ?tp (ev_finish envi) (PStr (tx_uuid ?env 1)) (PStr (tx_uuid ?env 2)) ?p ir d]"
    "je_event_id ` set (job_events (wdb w3')) = {tx_uuid (ev_finish envi) 1, tx_uuid (ev_claim envi) 0} \<union>
       je_event_id ` set (job_events (wdb wi))"
    by (rule request_handed_over [where process = "runs (build_primary_processor s (architecture_mode s = ''C''))",
          OF row ids(2) [unfolded ids(1)] infer(1) [folded infer(2)] infer(4)])
  have item: "oi_headers ?item = None" "oi_payload ?item = request_event ?env ?p"
    by (simp_all add: request_item_def)
  from inference_handled [where runs = runs, OF mode(1) item(1) i(1) [folded item(2)]] infer(5) sent
  have w3: "r3 = Inr ()" "w3 = w3'" by simp_all
  have "surroundings_keep reachable envi" using infer(1) by (simp add: smooth_handover_def surroundings_keep_def)
  then have reach3: "reachable (wdb w3)"
    using reached.inference_handle_keeps [OF i(1) _ _ reach] infer(3) w3(2) by simp
  have "kr_topic (last (acked w2)) = kafka_request_topic s"
    using sent by (simp add: wire_record_def request_item_def container_job_service_def)
  from that [OF _ this w3(1) reach3] i(2-5) empty id show thesis by (simp add: ids(1) w3(2) infer(2))
qed

text \<open>
  C5: From the request to the result through the split pipeline. A first \<open>POST /jobs\<close> that is answered
  202 is relayed to the request topic; the inference worker that receives it runs the primary processor
  and acknowledges; the next relay pass sends exactly one message, to the downstream topic; the
  downstream worker that receives that one runs its processor on the request and the inference result
  and acknowledges; and then \<open>GET /jobs/{id}\<close> answers 200 with status SUCCESS, both results and no error.
\<close>

theorem split_request_to_result:
  assumes post: "create_job_route api s env request ikey w st = (Response 202 body, w1, st1)"
    and first: "wdb w1 \<noteq> ce_db env (wdb w)" "reachable (ce_db env (wdb w))"
    and ids: "jid = tx_uuid (ce_tx env) 1" "short_names jid (tx_uuid (ce_tx env) 2)"
    and mode: "split_mode s" "length (pending_items (ce_db env (wdb w))) < nat (outbox_relay_batch_size s)"
    and sends: "\<forall>n rec. send_result ext n rec = None"
    and relay1: "quiet re" "drain_once (relay_init (outbox_relay_batch_size s) poll) ext re w1 = (r2, w2)"
    and infer: "smooth_handover envi (kafka_downstream_topic s) (wdb w2)" "wdb wi = wdb w2" "str_len wid \<le> 64"
      "runs (build_primary_processor s (architecture_mode s = ''C'')) (model_dump request) = Inr ir"
      "handle_message ext cfgi tpi
         (role_handle_event wid runs (build_worker_role (s\<lparr>worker_role := ''inference''\<rparr>)) envi)
         (redelivered part off (last (acked w2))) wi = (r3, w3)"
    and relay2: "quiet re'" "drain_once (relay_init (outbox_relay_batch_size s) poll) ext re' wr = (r4, w4)"
      "wdb wr = wdb w3"
    and down: "smooth_finish envd (wdb w4)" "wdb wd = wdb w4"
      "runs (DownstreamDummyProcessor (downstream_simulated_latency_ms s))
         (PDict [(''request'', model_dump request), (''inference_result'', ir)]) = Inr result"
      "handle_message ext cfgd tpd
         (role_handle_event wid' runs (build_worker_role (s\<lparr>worker_role := ''downstream''\<rparr>)) envd)
         (redelivered part' off' (last (acked w4))) wd = (r5, w5)"
  shows "py_getitem body ''job_id'' = Inr (PStr jid)
    \<and> kr_topic (last (acked w2)) = kafka_request_topic s \<and> r3 = Inr ()
    \<and> (\<exists>rec. acked w4 = acked wr @ [rec] \<and> kr_topic rec = kafka_downstream_topic s) \<and> r5 = Inr ()
    \<and> get_job_route text None jid (wdb w5) =
        Response 200 (PDict [(''job_id'', PStr jid), (''status'', PStr (status_value SUCCESS)),
                             (''result'', downstream_result ir result), (''error'', PNone)])"
proof -
  from request_to_handover [where runs = runs, OF post first ids mode sends relay1 infer]
  obtain r d where half: "py_getitem body ''job_id'' = Inr (PStr jid)"
    "kr_topic (last (acked w2)) = kafka_request_topic s" "r3 = Inr ()"
    "reachable (wdb wr)" "jobs (wdb wr) jid = Some r" "jm_status r = status_value PROCESSING"
    "pending_items (wdb wr) = [handover_item (kafka_downstream_topic s) (ev_finish envi) (PStr jid)
       (PStr (tx_uuid (ce_tx env) 2)) (model_dump request) ir d]"
    unfolding relay2(3) by metis
  have room: "0 < rl_batch_size (relay_init (outbox_relay_batch_size s) poll)"
    using mode(2) by (simp add: relay_init_def)
  obtain w5' where f:
    "acked w4 = acked wr @ [wire_record (handover_item (kafka_downstream_topic s) (ev_finish envi) (PStr jid)
       (PStr (tx_uuid (ce_tx env) 2)) (model_dump request) ir d)]"
    "handle_message ext cfgd tpd
       (role_handle_event wid' runs (build_worker_role (s\<lparr>worker_role := ''downstream''\<rparr>)) envd)
       (redelivered part' off' (last (acked w4))) wd = (Inr (), w5')"
    "get_job_route text None jid (wdb w5') =
       Response 200 (PDict [(''job_id'', PStr jid), (''status'', PStr (status_value SUCCESS)),
                            (''result'', downstream_result ir result), (''error'', PNone)])"
    by (rule handover_to_result [where runs = runs,
          OF half(4-7) relay2(1,2) sends room mode(1) ids(2) down(1-3)])
  with half(1-3) down(4) show ?thesis by (simp add: wire_record_def handover_item_def)
qed

text \<open>Dummy processors on a first request to an empty system, in architecture C.\<close>

definition split_settings :: Settings where
  "split_settings = dummy_settings\<lparr>architecture_mode := ''C''\<rparr>"

lemma split_settings_fields:
  "split_mode split_settings" "outbox_relay_batch_size split_settings = 100"
  "build_primary_processor split_settings b = DummyTaskProcessor"
  "container_store map_redis split_settings = redis_store map_redis sample_rs"
  "container_job_service split_settings = sample_js"
  "kafka_downstream_topic split_settings = ''downstream-topic''"
  by (simp_all add: split_settings_def dummy_settings_def default_settings_def build_primary_processor_def
        container_store_def sample_rs_def container_job_service_def sample_js_def split_mode_def)

definition downstream_answer :: pyval where
  "downstream_answer =
     PDict [(''message'', PStr ''downstream dummy completed''), (''persisted'', PBool True),
            (''notified'', PBool True), (''input_length'', PInt 2), (''inference_mode'', PNone)]"

lemma downstream_answers:
  "run_processor 0 (DownstreamDummyProcessor n)
     (PDict [(''request'', model_dump sample_request), (''inference_result'', dummy_answer)]) = Inr downstream_answer"
  by (simp add: downstream_dummy_process_def content_of_def model_dump_def sample_request_def job_create_request_def
        dummy_answer_def downstream_answer_def str_len_def is_cont_def byte_in_def)

lemma split_sample:
  "quiet sample_pass" "reachable (ce_db sample_create (wdb (sample_world empty_db)))"
  "length (pending_items (ce_db sample_create (wdb (sample_world empty_db))))
     < nat (outbox_relay_batch_size split_settings)"
  "\<forall>n rec. send_result sample_externals n rec = None"
  "short_names (tx_uuid (ce_tx sample_create) 1) (tx_uuid (ce_tx sample_create) 2)"
  "run_processor 0 (build_primary_processor split_settings (architecture_mode split_settings = ''C''))
     (model_dump sample_request) = Inr dummy_answer"
  "str_len ''a'' \<le> 64"
  unfolding split_settings_fields(2,3)
  by (simp_all add: quiet_def sample_pass_def reachable_def pending_items_def empty_db_def short_names_def str_len_le
        dummy_answers del: run_processor.simps)

theorem split_request_to_result_witness:
  "\<exists>body w1 st1 (w3 :: world) w4 w5 rec.
     create_job_route map_redis split_settings sample_create sample_request (Some ''k1'')
       (sample_world empty_db) Map.empty = (Response 202 body, w1, st1)
     \<and> acked w4 = acked w3 @ [rec] \<and> kr_topic rec = ''downstream-topic''
     \<and> handle_message sample_externals split_settings (role_topics split_settings)
         (role_handle_event ''b'' (run_processor 0)
            (build_worker_role (split_settings\<lparr>worker_role := ''downstream''\<rparr>)) sample_env)
         (redelivered 0 0 (last (acked w4))) w4 = (Inr (), w5)
     \<and> get_job_route ''invalid'' None (tx_uuid (ce_tx sample_create) 1) (wdb w5) =
         Response 200 (PDict [(''job_id'', PStr (tx_uuid (ce_tx sample_create) 1)),
           (''status'', PStr (status_value SUCCESS)),
           (''result'', downstream_result dummy_answer downstream_answer), (''error'', PNone)])"
proof -
  note fields = split_settings_fields
  let ?handle = "\<lambda>wid role. handle_message sample_externals split_settings (role_topics split_settings)
      (role_handle_event wid (run_processor 0) (build_worker_role (split_settings\<lparr>worker_role := role\<rparr>)) sample_env)"
  obtain body w1 s1 r2 w2 where post: "create_job_route map_redis split_settings sample_create sample_request
      (Some ''k1'') (sample_world empty_db) Map.empty = (Response 202 body, w1, s1)"
    and new: "wdb w1 \<noteq> ce_db sample_create (wdb (sample_world empty_db))"
    and pass: "drain_once (relay_init 100 1) sample_externals sample_pass w1 = (r2, w2)"
    and ev: "je_event_id ` set (job_events (wdb w2)) = {tx_uuid (ce_tx sample_create) 3}"
    and ob: "ob_message_id ` set (outbox_messages (wdb w2)) = {tx_uuid (ce_tx sample_create) 4}"
    by (rule sample_request_sent [OF fields(4,5)])
  note pass1 = pass [folded fields(2)]
  note quiet = split_sample(1) and reach = split_sample(2) and room = split_sample(3) and sends = split_sample(4)
    and ids = split_sample(5) and infer = split_sample(6) and wid = split_sample(7)
  have smooth: "smooth_handover sample_env (kafka_downstream_topic split_settings) (wdb w2)"
    by (simp add: smooth_handover_def uuid_fresh_def message_fresh_def ev ob fields(6) str_len_le sample_env_def)
  obtain r3 w3 where h3: "?handle ''a'' ''inference'' (redelivered 0 0 (last (acked w2))) w2 = (r3, w3)"
    by (metis surj_pair)
  obtain r4 w4 where pass2: "drain_once (relay_init (outbox_relay_batch_size split_settings) 1) sample_externals
      sample_pass w3 = (r4, w4)"
    by (metis surj_pair)
  obtain r5 w5 where h5: "?handle ''b'' ''downstream'' (redelivered 0 0 (last (acked w4))) w4 = (r5, w5)"
    by (metis surj_pair)
  have "je_event_id ` set (job_events (wdb w3)) =
      {tx_uuid (ev_finish sample_env) 1, tx_uuid (ev_claim sample_env) 0} \<union> je_event_id ` set (job_events (wdb w2))"
    by (rule request_to_handover [where runs = "run_processor 0",
          OF post new reach refl ids fields(1) room sends quiet pass1 smooth refl wid infer h3])
  then have finish: "smooth_finish sample_env (wdb w4)"
    using drain_once_jobs(2) [OF pass2]
    by (simp add: smooth_finish_def env_ok_def uuid_fresh_def ev sample_pass_def str_len_le sample_env_def)
  note all = split_request_to_result [where runs = "run_processor 0",
      OF post new reach refl ids fields(1) room sends quiet pass1 smooth refl wid infer h3
        quiet pass2 refl finish refl downstream_answers h5]
  then have "r5 = Inr ()" by blast
  with h5 have "?handle ''b'' ''downstream'' (redelivered 0 0 (last (acked w4))) w4 = (Inr (), w5)" by simp
  moreover obtain rec where "acked w4 = acked w3 @ [rec]" "kr_topic rec = ''downstream-topic''"
    using all unfolding fields(6) by blast
  moreover have "get_job_route ''invalid'' None (tx_uuid (ce_tx sample_create) 1) (wdb w5) =
      Response 200 (PDict [(''job_id'', PStr (tx_uuid (ce_tx sample_create) 1)),
        (''status'', PStr (status_value SUCCESS)),
        (''result'', downstream_result dummy_answer downstream_answer), (''error'', PNone)])"
    by (rule all [THEN conjunct2, THEN conjunct2, THEN conjunct2, THEN conjunct2, THEN conjunct2])
  ultimately show ?thesis using post by (intro exI conjI)
qed

subsection \<open>A failed attempt and its retry\<close>

text \<open>A delivery whose processor raises, with both transactions committed and nobody interfering.\<close>

definition smooth_failure :: "svc_env \<Rightarrow> db \<Rightarrow> bool" where
  "smooth_failure env d \<longleftrightarrow>
     tx_fault (ev_claim env) = TxOk \<and> tx_fault (ev_fail env) = TxOk \<and>
     ev_during env = (\<lambda>d. d) \<and> ev_before_fail env = (\<lambda>d. d) \<and> env_ok env \<and>
     uuid_fresh (tx_uuid (ev_claim env) 0) d \<and> uuid_fresh (tx_uuid (ev_fail env) 0) d \<and>
     tx_uuid (ev_fail env) 0 \<noteq> tx_uuid (ev_claim env) 0"

lemma failure_recorded:
  assumes "names_job event k t" "short_names k t"
    and "jobs (wdb w) k = Some r" "claimable (tx_now (ev_claim env)) r"
    and "smooth_failure env (wdb w)" "process_request process event = Inl exc"
  obtains w' r' where
    "worker_handle_event svc env process event w = (Inr (False, Some (exc_str exc)), w')"
    "jobs (wdb w') k = Some r'" "jm_status r' = status_value FAILED"
    "domain_step\<^sup>*\<^sup>* (wdb w) (wdb w')"
    "je_event_id ` set (job_events (wdb w')) =
       {tx_uuid (ev_fail env) 0, tx_uuid (ev_claim env) 0} \<union> je_event_id ` set (job_events (wdb w))"
proof -
  let ?d = "db_processed ''worker'' svc env k t w"
  have s: "tx_fault (ev_claim env) = TxOk" "ev_during env = (\<lambda>d. d)"
      "uuid_fresh (tx_uuid (ev_claim env) 0) (wdb w)"
    using assms(5) by (simp_all add: smooth_failure_def)
  note u = claim_undisturbed [OF s assms(3,4,2) short_source(1), of svc]
  have f: "tx_fault (ev_fail env) = TxOk" "ev_before_fail env ?d = ?d" "env_ok env"
      "uuid_fresh (tx_uuid (ev_fail env) 0) ?d"
    using assms(5) by (simp_all add: smooth_failure_def uuid_fresh_def u(2))
  from worker_fails [OF assms(1) u(1) assms(6) f(1) f(2) [symmetric] refl f(4)]
  obtain w' r' where w': "worker_handle_event svc env process event w = (Inr (False, Some (exc_str exc)), w')"
    "jobs (wdb w') k = Some r'" "outcome r' = (status_value FAILED, jm_result r, Some (exc_str exc))"
    "job_events (wdb w') = job_events ?d @
        [new_event (tx_dbnow (ev_fail env)) (tx_uuid (ev_fail env) 0) k EVENT_FAILED
           ''worker'' t (PDict [(''error'', PStr (exc_str exc))]) ?d]" by (auto simp: f(2))
  have "domain_step\<^sup>*\<^sup>* (wdb w) (wdb w')"
    using worker_handle_event_steps [OF f(3), of w svc process event] w'(1) by simp
  moreover have "jm_status r' = status_value FAILED" using w'(3) by (simp add: outcome_def)
  moreover have "je_event_id ` set (job_events (wdb w')) =
       {tx_uuid (ev_fail env) 0, tx_uuid (ev_claim env) 0} \<union> je_event_id ` set (job_events (wdb w))"
    by (simp add: w'(4) u(2) new_event_def)
  ultimately show thesis using that [OF w'(1,2)] by blast
qed

lemma unified_handler:
  "worker_role s = ''unified'' \<Longrightarrow>
     role_handle_event wid runs (build_worker_role s) env ev w =
     worker_handle_event \<lparr>svc_worker_id = wid, svc_lease_seconds = worker_processing_ttl_seconds s\<rparr> env
       (runs (build_primary_processor s False)) ev w"
  by (simp add: build_worker_role_def Let_def)

text \<open>The failing delivery leaves a FAILED job and its event on the retry topic.\<close>

lemma failure_sent_to_retry:
  assumes role: "worker_role s = ''unified''" "retries_ok ext s tps"
    and message: "belongs tps m c" "0 \<le> c" "c < retry_max_count s" "m_value m = PDict vs"
    and job: "names_job (m_value m) k t" "short_names k t" "jobs (wdb w) k = Some r"
      "claimable (tx_now (ev_claim env)) r"
    and fails: "smooth_failure env (wdb w)"
      "process_request (runs (build_primary_processor s False)) (m_value m) = Inl exc"
      "handle_message ext s tps (role_handle_event wid runs (build_worker_role s) env) m w = (r1, w1)"
  obtains r' rec where "r1 = Inr ()" "jobs (wdb w1) k = Some r'" "jm_status r' = status_value FAILED"
    "domain_step\<^sup>*\<^sup>* (wdb w) (wdb w1)"
    "je_event_id ` set (job_events (wdb w1)) =
       {tx_uuid (ev_fail env) 0, tx_uuid (ev_claim env) 0} \<union> je_event_id ` set (job_events (wdb w))"
    "last (acked w1) = rec" "kr_topic rec = retry_topic tps" "kr_value rec = m_value m"
    "\<And>part off. belongs tps (redelivered part off rec) (c + 1)"
proof -
  let ?role = "role_handle_event wid runs (build_worker_role s) env"
  obtain x r' where x: "?role (m_value m) w = (Inr (False, Some (exc_str exc)), x)"
    "jobs (wdb x) k = Some r'" "jm_status r' = status_value FAILED" "domain_step\<^sup>*\<^sup>* (wdb w) (wdb x)"
    "je_event_id ` set (job_events (wdb x)) =
       {tx_uuid (ev_fail env) 0, tx_uuid (ev_claim env) 0} \<union> je_event_id ` set (job_events (wdb w))"
    unfolding unified_handler [OF role(1)]
    by (rule failure_recorded [where process = "runs (build_primary_processor s False)",
          OF job fails(1,2)])
  from role(2) message(2,3) obtain delay where delay: "backoff s (c + 1) = Inr delay"
    by (fastforce simp: retries_ok_def)
  let ?rec = "retry_record tps (m_value m) (c + 1) (consume_topic tps) (error_reason (Some (exc_str exc)))
    (clock_ms ext (clock_reads x) + float_int (delay * 1000))"
  have "\<exists>w'. handle_message ext s tps ?role m w = (Inr (), w') \<and> acked w' = acked x @ [?rec] \<and> wdb w' = wdb x"
    using handle_message_failure [where role = ?role, OF _ message(4) _ x(1), of ext tps s delay]
      role(2) message(1,3) delay
    by (simp add: retries_ok_def belongs_def)
  with fails(3) have w1: "r1 = Inr ()" "last (acked w1) = ?rec" "wdb w1 = wdb x" by auto
  have "belongs tps (redelivered part off ?rec) (c + 1)" for part off
    using role(2) message(2,3) by (intro redelivered_belongs) (auto simp: retries_ok_def)
  then show thesis by (intro that [OF w1(1) _ x(3) _ _ w1(2)]) (simp_all add: w1(3) x(2,4,5))
qed

text \<open>
  C6: A failed job recovers by its retry. When a delivery to the unified worker fails below the retry limit,
  the job is FAILED, the delivery counts as handled and one record with the same event goes to the
  retry topic; when a worker of the same role receives that record and its processor succeeds, the
  message is acknowledged and \<open>GET /jobs/{id}\<close> answers 200 with status SUCCESS, the result and no error.
\<close>

theorem retry_recovers:
  assumes role: "worker_role s = ''unified''" "tps = role_topics s" "retries_ok ext s tps"
    and message: "belongs tps m c" "0 \<le> c" "c < retry_max_count s" "m_value m = PDict vs"
    and job: "names_job (m_value m) k t" "short_names k t" "jobs_ok (wdb w)" "jobs (wdb w) k = Some r"
      "claimable (tx_now (ev_claim env1)) r"
    and fails: "smooth_failure env1 (wdb w)"
      "process_request (runs1 (build_primary_processor s False)) (m_value m) = Inl exc"
      "handle_message ext s tps (role_handle_event wid1 runs1 (build_worker_role s) env1) m w = (r1, w1)"
    and succeeds: "smooth_delivery env2 (wdb w1)" "wdb wv = wdb w1"
      "process_request (runs2 (build_primary_processor s False)) (m_value m) = Inr (request, result)" "is_dict result"
      "handle_message ext s tps (role_handle_event wid2 runs2 (build_worker_role s) env2)
         (redelivered part off (last (acked w1))) wv = (r2, w2)"
  shows "r1 = Inr () \<and> map_option jm_status (jobs (wdb w1) k) = Some (status_value FAILED)
    \<and> kr_topic (last (acked w1)) = retry_topic tps \<and> kr_value (last (acked w1)) = m_value m
    \<and> r2 = Inr ()
    \<and> get_job_route text None k (wdb w2) =
        Response 200 (PDict [(''job_id'', PStr k), (''status'', PStr (status_value SUCCESS)),
                             (''result'', result), (''error'', PNone)])"
proof -
  from failure_sent_to_retry [where runs = runs1, OF role(1,3) message job(1,2,4,5) fails]
  obtain r' rec where w1: "r1 = Inr ()" "jobs (wdb w1) k = Some r'" "jm_status r' = status_value FAILED"
    and steps: "domain_step\<^sup>*\<^sup>* (wdb w) (wdb w1)"
    and rec: "last (acked w1) = rec" "kr_topic rec = retry_topic tps" "kr_value rec = m_value m"
      "belongs tps (redelivered part off rec) (c + 1)"
    by metis
  have again: "jobs (wdb wv) k = Some r'" "claimable (tx_now (ev_claim env2)) r'" "jobs_ok (wdb wv)"
      "smooth_delivery env2 (wdb wv)"
    using w1(2,3) jobs_inv.inv_steps [OF steps job(3)] succeeds(1)
    by (simp_all add: succeeds(2) claimable_def)
  obtain w2' where w2': "role_handle_event wid2 runs2 (build_worker_role s) env2 (m_value m) wv
      = (Inr (True, None), w2')"
    "get_job_route text None k (wdb w2') =
        Response 200 (PDict [(''job_id'', PStr k), (''status'', PStr (status_value SUCCESS)),
                             (''result'', result), (''error'', PNone)])"
    unfolding unified_handler [OF role(1)]
    by (rule claimable_completed [where process = "runs2 (build_primary_processor s False)",
          OF job(1,2) again succeeds(3,4)])
  have "r2 = Inr () \<and> w2 = w2'"
    using succeeds(5) rec w2'(1) by (simp add: handle_message_def belongs_def)
  with w1 rec w2'(2) show ?thesis by simp
qed

definition sample_again :: svc_env where
  "sample_again = sample_env\<lparr>ev_claim := sample_tx (CHR ''g''), ev_finish := sample_tx (CHR ''h'')\<rparr>"

theorem retry_recovers_witness:
  "\<exists>w1 w2 r1 r2.
     handle_message sample_externals default_settings sample_tps
       (role_handle_event ''a'' (\<lambda>_ _. Inl (PyExc ''RuntimeError'' ''boom'')) (build_worker_role default_settings)
          sample_env) sample_msg sample_pending = (r1, w1)
     \<and> kr_topic (last (acked w1)) = ''retry-topic''
     \<and> handle_message sample_externals default_settings sample_tps
         (role_handle_event ''b'' (\<lambda>_ _. Inr (PDict [])) (build_worker_role default_settings) sample_again)
         (redelivered 0 0 (last (acked w1))) w1 = (r2, w2)
     \<and> get_job_route ''invalid'' None ''j1'' (wdb w2) =
         Response 200 (PDict [(''job_id'', PStr ''j1''), (''status'', PStr (status_value SUCCESS)),
                              (''result'', PDict []), (''error'', PNone)])"
proof -
  let ?exc = "PyExc ''RuntimeError'' ''boom''"
  let ?r = "sample_row PENDING None None 0"
  have role: "worker_role default_settings = ''unified''" "sample_tps = role_topics default_settings"
    by (simp_all add: default_settings_def role_topics_def sample_tps_def resolve_worker_topic_def
          resolve_worker_retry_topic_def)
  have own: "belongs sample_tps sample_msg 0" using sample_msg_own by (simp add: belongs_def)
  have max: "(0::int) < retry_max_count default_settings" by simp
  have event: "m_value sample_msg = PDict [(''job_id'', PStr ''j1''), (''trace_id'', PStr ''t1''),
      (''payload'', PDict [(''request'', PInt 1)])]"
    by (simp add: sample_event_dict)
  have names: "names_job (m_value sample_msg) ''j1'' ''t1''" by simp
  have job: "jobs_ok (wdb sample_pending)" "jobs (wdb sample_pending) ''j1'' = Some ?r"
      "claimable (tx_now (ev_claim sample_env)) ?r"
    by (simp_all add: sample_pending_def jobs_ok_def row_ok_def claimable_def)
  have fails: "smooth_failure sample_env (wdb sample_pending)"
    by (simp add: smooth_failure_def sample_pending_def env_ok_def uuid_fresh_def str_len_le sample_env_def)
  have raises: "process_request (\<lambda>_. Inl ?exc) (m_value sample_msg) = Inl ?exc"
    and returns: "process_request (\<lambda>_. Inr (PDict [])) (m_value sample_msg) = Inr (PInt 1, PDict [])"
    by (simp_all add: process_request_def sample_event_def)
  let ?h1 = "handle_message sample_externals default_settings sample_tps
      (role_handle_event ''a'' (\<lambda>_ _. Inl ?exc) (build_worker_role default_settings) sample_env) sample_msg sample_pending"
  obtain r1 w1 where h1: "?h1 = (r1, w1)" by (metis surj_pair)
  let ?h2 = "handle_message sample_externals default_settings sample_tps
      (role_handle_event ''b'' (\<lambda>_ _. Inr (PDict [])) (build_worker_role default_settings) sample_again)
      (redelivered 0 0 (last (acked w1))) w1"
  obtain r2 w2 where h2: "?h2 = (r2, w2)" by (metis surj_pair)
  have "je_event_id ` set (job_events (wdb w1)) = {tx_uuid (ev_fail sample_env) 0, tx_uuid (ev_claim sample_env) 0}
      \<union> je_event_id ` set (job_events (wdb sample_pending))"
    by (rule failure_sent_to_retry [where runs = "\<lambda>_ _. Inl ?exc",
          OF role(1) sample_retries_ok own order_refl max event names sample_short job(2,3) fails raises h1])
  then have again: "smooth_delivery sample_again (wdb w1)"
    by (simp add: smooth_delivery_def sample_again_def sample_pending_def env_ok_def uuid_fresh_def str_len_le
          sample_env_def)
  note all = retry_recovers [where ?runs1.0 = "\<lambda>_ _. Inl ?exc" and ?runs2.0 = "\<lambda>_ _. Inr (PDict [])",
      OF role sample_retries_ok own order_refl max event names sample_short job fails raises h1 again refl returns _ h2]
  have "is_dict (PDict [])" by (simp add: is_dict_def)
  from all [OF this] h1 h2 show ?thesis by auto
qed

end
