(* ===== verification/Job_Lifecycle.thy ===== *)
theory Job_Lifecycle
  imports Conformance
begin

section \<open>The life of a job\<close>

text \<open>
  What the transactions of all components do to one job, as an abstract machine with four states.
  Every committed transaction changes one job at most and logs one event of that job; the rows
  follow the abstract machine.
\<close>

subsection \<open>One transaction\<close>

text \<open>What a transaction that logs an event of a given type may do to the row of the event's job.\<close>

inductive job_change :: "string \<Rightarrow> EventType \<Rightarrow> JobModel option \<Rightarrow> JobModel option \<Rightarrow> bool" where
  requested: "jm_status r = status_value PENDING \<Longrightarrow> jm_lease_epoch r = 0 \<Longrightarrow> jm_lease_owner r = None \<Longrightarrow>
    jm_result r = None \<Longrightarrow> jm_error_message r = None \<Longrightarrow> job_change k REQUESTED None (Some r)"
| started: "claimable now r \<Longrightarrow>
    job_change k PROCESSING_STARTED (Some r) (Some (claim_row now dbnow owner secs r))"
| completed: "cas_matches (allowed_source_statuses SUCCESS) opts r \<Longrightarrow> opt_clear_error opts \<Longrightarrow>
    ty \<in> {PROCESSING_COMPLETED, DOWNSTREAM_COMPLETED} \<Longrightarrow>
    job_change k ty (Some r) (Some (cas_row now SUCCESS opts r))"
| faulted: "cas_matches (allowed_source_statuses FAILED) opts r \<Longrightarrow> opt_error opts \<noteq> None \<Longrightarrow>
    \<not> opt_clear_error opts \<Longrightarrow> opt_result opts = None \<Longrightarrow>
    job_change k EVENT_FAILED (Some r) (Some (cas_row now FAILED opts r))"
| noted: "ty \<in> {INFERENCE_COMPLETED, DOWNSTREAM_COMPLETED, EVENT_FAILED} \<Longrightarrow> job_change k ty x x"

definition logged_change :: "db \<Rightarrow> db \<Rightarrow> bool" where
  "logged_change d d' \<longleftrightarrow>
     (\<exists>k ty ev. job_change k ty (jobs d k) (jobs d' k) \<and> (\<forall>k'. k' \<noteq> k \<longrightarrow> jobs d' k' = jobs d k')
        \<and> job_events d' = job_events d @ [ev] \<and> je_job_id ev = k \<and> je_event_type ev = event_value ty)"

lemma logged_changeI:
  assumes "jobs d' = (jobs d)(k := x)" "job_change k ty (jobs d k) x"
    and "job_events d' = job_events d @ [ev]" "je_job_id ev = k" "je_event_type ev = event_value ty"
  shows "logged_change d d'"
  unfolding logged_change_def using assms by (intro exI [of _ k] exI [of _ ty] exI [of _ ev]) simp

lemma event_after:
  assumes "event_add now (build_event u t (PStr k) ty src tr p) d1 = Inr d'"
    and "jobs d1 = (jobs d)(k := x)" "job_events d1 = job_events d" "job_change k ty (jobs d k) x"
  shows "logged_change d d'"
proof -
  from assms(1) obtain ev where "jobs d' = jobs d1" "job_events d' = job_events d1 @ [ev]"
    "je_job_id ev = k" "je_event_type ev = event_value ty"
    by (rule event_add_build) simp
  with assms(2-4) show ?thesis by (intro logged_changeI [of d' d k x ty ev]) simp_all
qed

text \<open>A status update that either matched its row or left the database, followed by its event.\<close>

lemma update_event_after:
  assumes "update_status now jid (status_value target) opts d = Inr (x, d1)"
    and "event_add now' (build_event u t jid ty src tr p) d1 = Inr d'"
    and "opt_expected_statuses opts = None"
    and changed: "\<And>k r. cas_matches (allowed_source_statuses target) opts r \<Longrightarrow>
      job_change k ty (Some r) (Some (cas_row now target opts r))"
    and left: "x = None \<Longrightarrow> ty \<in> {INFERENCE_COMPLETED, DOWNSTREAM_COMPLETED, EVENT_FAILED}"
  shows "logged_change d d'"
proof (cases x)
  case None
  then have d1: "d1 = d" using assms(1) by (simp add: update_status_None)
  from assms(2) obtain k where k: "jid = PStr k" by (rule event_add_build)
  show ?thesis
    by (rule event_after [OF assms(2) [unfolded k], of d "jobs d k"])
       (use left [OF None] in \<open>auto simp: d1 intro: job_change.noted\<close>)
next
  case (Some j)
  from update_status_Some [OF assms(1) [unfolded Some] assms(3)] obtain k r where
    "jid = PStr k" "jobs d k = Some r" "cas_matches (allowed_source_statuses target) opts r"
    "d1 = d\<lparr>jobs := (jobs d)(k \<mapsto> cas_row now target opts r)\<rparr>"
    by (metis status_value_inj)
  with assms(2) changed show ?thesis
    by (intro event_after [of _ _ _ k ty _ _ _ d1 d' d "Some (cas_row now target opts r)"]) simp_all
qed

lemma create_logged: "create_block js env payload d = Inr (Commit u d') \<Longrightarrow> logged_change d d'"
proof -
  assume "create_block js env payload d = Inr (Commit u d')"
  then obtain d1 d2 m where
    j: "job_add (tx_dbnow env) (new_job env payload) d = Inr d1"
    and e: "event_add (tx_dbnow env) (request_event env payload) d1 = Inr d2"
    and o: "outbox_add (tx_dbnow env) (tx_uuid env 4) (js_topic js) (request_event env payload) None d2
      = Inr (m, d')"
    by (auto simp: create_block_def)
  from j have "logged_change d d2"
    by (intro event_after [OF e [unfolded request_event_def]])
       (auto simp: job_add_def varchar_Inr new_job_def intro!: job_change.requested split: if_splits)
  with outbox_add_frame [OF o] show ?thesis by (simp add: logged_change_def)
qed

lemma claim_logged:
  assumes "claim_block source svc env jid tid d = Inr (Commit c d')"
  shows "logged_change d d'"
proof -
  from assms obtain l d1 where
    cl: "claim_for_processing (tx_now env) (tx_dbnow env) jid (svc_worker_id svc) (svc_lease_seconds svc) d
      = Inr (Some l, d1)"
    and e: "event_add (tx_dbnow env) (build_event (tx_uuid env 0) (tx_isonow env) jid PROCESSING_STARTED
      source tid (PDict [(''lease_epoch'', PInt (lease_epoch l))])) d1 = Inr d'"
    by (auto simp: claim_block_def split: option.splits)
  from cl obtain k r where k: "jid = PStr k" "jobs d k = Some r" "claimable (tx_now env) r"
    and d1: "d1 = d\<lparr>jobs := (jobs d)(k \<mapsto>
      claim_row (tx_now env) (tx_dbnow env) (svc_worker_id svc) (svc_lease_seconds svc) r)\<rparr>"
    by (rule claim_Some)
  from k show ?thesis
    by (intro event_after [OF e [unfolded k(1)], of d "Some (claim_row (tx_now env) (tx_dbnow env)
          (svc_worker_id svc) (svc_lease_seconds svc) r)"])
       (simp_all add: d1 job_change.started)
qed

lemma success_logged:
  "success_block svc env jid tid l result d = Inr (Commit b d') \<Longrightarrow> logged_change d d'"
  by (auto simp: success_block_def split: option.splits
        elim!: update_event_after intro!: job_change.completed)
     (simp add: success_opts_def default_opts_def)

lemma failure_logged:
  "failure_block source svc env jid tid l exc d = Inr (Commit b d') \<Longrightarrow> logged_change d d'"
  by (auto simp: failure_block_def split: option.splits
        elim!: update_event_after intro!: job_change.faulted)
     (simp_all add: failure_opts_def default_opts_def)

lemma handover_logged:
  assumes "handover_block topic env jid tid request result d = Inr (Commit u d')"
  shows "logged_change d d'"
  using assms
  by (rule handover_block_Commit)
     (auto intro!: logged_changeI [where ty = INFERENCE_COMPLETED] job_change.noted)

lemma finish_logged:
  "finish_block env jid tid payload result d = Inr (Commit u d') \<Longrightarrow> logged_change d d'"
  by (auto simp: finish_block_def default_opts_def elim!: update_event_after intro!: job_change.completed)

lemma downstream_fail_logged:
  "downstream_fail_block env jid tid exc d = Inr (Commit u d') \<Longrightarrow> logged_change d d'"
  by (auto simp: downstream_fail_block_def elim!: update_event_after intro!: job_change.faulted)
     (simp_all add: default_opts_def)

lemmas block_logged = create_logged claim_logged success_logged failure_logged handover_logged
  finish_logged downstream_fail_logged

lemma db_commit_logged:
  "db_commit d d' \<Longrightarrow> logged_change d d' \<or> (jobs d' = jobs d \<and> job_events d' = job_events d)"
  by (erule db_commit.cases)
     (simp_all add: block_logged mark_published_def mark_failed_def)

subsection \<open>The abstract machine\<close>

text \<open>
  A job is submitted; a worker runs it; it completes or faults; a submitted or faulted job, or one
  whose worker stopped, is run again with the next epoch. Completion is final.
\<close>

datatype life =
    Submitted (life_request: pyval)
  | Running (life_request: pyval) (life_epoch: int) (life_owner: string)
  | Completed (life_request: pyval) (life_epoch: int) (life_result: "pyval option")
  | Faulted (life_request: pyval) (life_epoch: int) (life_error: string)

inductive life_step :: "life \<Rightarrow> life \<Rightarrow> bool" where
  first_run: "life_step (Submitted p) (Running p 1 ow)"
| takeover: "life_step (Running p e ow) (Running p (e + 1) ow')"
| rerun: "life_step (Faulted p e msg) (Running p (e + 1) ow)"
| complete: "life_step (Running p e ow) (Completed p e result)"
| fault: "life_step (Running p e ow) (Faulted p e msg)"
| fault_early: "life_step (Submitted p) (Faulted p 0 msg)"

inductive sys_step :: "(string \<rightharpoonup> life) \<Rightarrow> (string \<rightharpoonup> life) \<Rightarrow> bool" where
  submit: "m k = None \<Longrightarrow> sys_step m (m(k \<mapsto> Submitted p))"
| run: "m k = Some l \<Longrightarrow> life_step l l' \<Longrightarrow> sys_step m (m(k \<mapsto> l'))"

text \<open>How a row shows the state of its job.\<close>

fun shows_life :: "JobModel \<Rightarrow> life \<Rightarrow> bool" where
  "shows_life r (Submitted p) \<longleftrightarrow>
     jm_request_payload r = p \<and> jm_status r = status_value PENDING \<and> jm_lease_epoch r = 0 \<and>
     jm_lease_owner r = None \<and> jm_result r = None \<and> jm_error_message r = None"
| "shows_life r (Running p e ow) \<longleftrightarrow>
     jm_request_payload r = p \<and> jm_status r = status_value PROCESSING \<and> jm_lease_epoch r = e \<and>
     jm_lease_owner r = Some ow \<and> jm_result r = None"
| "shows_life r (Completed p e v) \<longleftrightarrow>
     jm_request_payload r = p \<and> jm_status r = status_value SUCCESS \<and> jm_lease_epoch r = e \<and>
     jm_result r = v \<and> jm_error_message r = None"
| "shows_life r (Faulted p e msg) \<longleftrightarrow>
     jm_request_payload r = p \<and> jm_status r = status_value FAILED \<and> jm_lease_epoch r = e \<and>
     jm_result r = None \<and> jm_error_message r = Some msg"

definition lives :: "db \<Rightarrow> (string \<rightharpoonup> life) \<Rightarrow> bool" where
  "lives d m \<longleftrightarrow> (\<forall>k. rel_option shows_life (jobs d k) (m k))"

lemma shows_life_cas:
  assumes "shows_life r l" "cas_matches (allowed_source_statuses SUCCESS) opts r" "opt_clear_error opts"
  shows "\<exists>l'. life_step l l' \<and> shows_life (cas_row now SUCCESS opts r) l'"
  using assms
  by (cases l)
     (auto simp: cas_matches_def intro!: exI [of _ "Completed _ _ (jm_result (cas_row now SUCCESS opts r))"]
        life_step.complete simp: cas_row_def)

lemma shows_life_fault:
  assumes "shows_life r l" "cas_matches (allowed_source_statuses FAILED) opts r" "opt_error opts = Some msg"
    and "\<not> opt_clear_error opts" "opt_result opts = None"
  shows "\<exists>l'. life_step l l' \<and> shows_life (cas_row now FAILED opts r) l'"
  using assms
  by (cases l)
     (auto simp: cas_matches_def cas_row_def intro!: exI [of _ "Faulted _ _ msg"] life_step.intros)

lemma shows_life_claim:
  assumes "shows_life r l" "claimable now r"
  shows "\<exists>l'. life_step l l' \<and> shows_life (claim_row now dbnow owner secs r) l'"
  using assms
  by (cases l)
     (auto simp: claimable_def claim_row_def intro!: exI [of _ "Running _ _ owner"] life_step.intros)

text \<open>At most one step of the abstract machine for the job that changes.\<close>

definition life_moves :: "life option \<Rightarrow> life option \<Rightarrow> bool" where
  "life_moves a b \<longleftrightarrow>
     a = b \<or> (a = None \<and> (\<exists>p. b = Some (Submitted p))) \<or>
     (\<exists>l l'. a = Some l \<and> b = Some l' \<and> life_step l l')"

lemma life_moves_step: "m k = a \<Longrightarrow> life_moves a b \<Longrightarrow> sys_step\<^sup>=\<^sup>= m (m(k := b))"
  by (auto simp: life_moves_def fun_upd_idem intro: sys_step.intros)

lemma moves_from_row:
  assumes "rel_option shows_life (Some r) a" "\<And>l. shows_life r l \<Longrightarrow> \<exists>l'. life_step l l' \<and> shows_life r' l'"
  shows "\<exists>b. life_moves a b \<and> rel_option shows_life (Some r') b"
proof -
  from assms(1) obtain l where "a = Some l" "shows_life r l" by (auto simp: option_rel_Some1)
  with assms(2) obtain l' where "life_moves a (Some l')" "shows_life r' l'"
    by (auto simp: life_moves_def)
  then show ?thesis by auto
qed

lemma job_change_life:
  assumes "job_change k ty x y" "rel_option shows_life x a"
  shows "\<exists>b. life_moves a b \<and> rel_option shows_life y b"
  using assms(1)
proof (cases rule: job_change.cases)
  case (requested r)
  with assms(2) show ?thesis
    by (intro exI [of _ "Some (Submitted (jm_request_payload r))"]) (simp add: life_moves_def)
next
  case (started now r dbnow owner secs)
  with assms(2) show ?thesis
    by (simp only:) (rule moves_from_row, assumption, rule shows_life_claim)
next
  case (completed opts r now)
  with assms(2) show ?thesis
    by (simp only:) (rule moves_from_row, assumption, rule shows_life_cas)
next
  case (faulted opts r now)
  then obtain msg where "opt_error opts = Some msg" by blast
  with faulted assms(2) show ?thesis
    by (simp only:) (rule moves_from_row, assumption, rule shows_life_fault)
next
  case noted
  with assms(2) show ?thesis by (auto simp: life_moves_def)
qed

subsection \<open>The system refines the machine\<close>

lemma logged_change_life:
  assumes "logged_change d d'" "lives d m"
  shows "\<exists>m'. sys_step\<^sup>=\<^sup>= m m' \<and> lives d' m'"
proof -
  from assms(1) obtain k ty where k: "job_change k ty (jobs d k) (jobs d' k)"
    and rest: "\<And>k'. k' \<noteq> k \<Longrightarrow> jobs d' k' = jobs d k'"
    by (auto simp: logged_change_def)
  from job_change_life [OF k] assms(2) obtain b where b: "life_moves (m k) b" "rel_option shows_life (jobs d' k) b"
    by (auto simp: lives_def)
  have "lives d' (m(k := b))" using b(2) rest assms(2) by (auto simp: lives_def)
  with life_moves_step [of m k, OF refl b(1)] show ?thesis by blast
qed

interpretation lifecycle: simulation db_commit sys_step lives
proof
  show "\<exists>b. sys_step\<^sup>=\<^sup>= a b \<and> lives t b" if "db_commit s t" "lives s a" for s t a
    using db_commit_logged [OF that(1)]
  proof
    assume "logged_change s t"
    from logged_change_life [OF this that(2)] show ?thesis .
  next
    assume "jobs t = jobs s \<and> job_events t = job_events s"
    with that(2) show ?thesis by (auto simp: lives_def)
  qed
qed

text \<open>The databases that transactions lead to from a given one.\<close>

lemma onward_step: "db_commit d d' \<Longrightarrow> db_commit\<^sup>*\<^sup>* d0 d \<Longrightarrow> db_commit\<^sup>*\<^sup>* d0 d'"
  by (rule rtranclp.rtrancl_into_rtrancl)

interpretation onward: tx_invariant "db_commit\<^sup>*\<^sup>* d0" "\<lambda>wid. str_len wid \<le> 64" for d0
  by unfold_locales (erule (2) onward_step [OF db_commit.claim] |
      rule onward_step [OF db_commit.published] onward_step [OF db_commit.failed] |
      (erule onward_step [rotated], erule db_commit.intros) | assumption)+

lemma lives_empty: "lives empty_db Map.empty"
  by (simp add: lives_def empty_db_def)

lemma reachable_life: "reachable d \<Longrightarrow> \<exists>m. sys_step\<^sup>*\<^sup>* Map.empty m \<and> lives d m"
  unfolding reachable_def by (rule lifecycle.simulated_runs [OF _ lives_empty])

text \<open>
  C11: Jobs live by one state machine. A job is submitted, run under increasing epochs, and completed with its
  result or faulted with an error; a faulted or abandoned job may run again, a completed one never
  changes. What a request, a relay pass or a delivery to a worker of any role does to the jobs of a
  reachable database, together with what other processes commit meanwhile, is a run of this machine,
  and so is the whole history from empty tables on; the rows show the machine's states.
\<close>

theorem job_lifecycle_refined:
  assumes "reachable (wdb w)"
    and "db_commit\<^sup>*\<^sup>* (wdb w) (ce_db cenv (wdb w))" "db_commit\<^sup>*\<^sup>* (wdb w) (re_during re (wdb w))"
    and "surroundings_keep (db_commit\<^sup>*\<^sup>* (wdb w)) env"
    and "wid = role_identity (role_service_of role) uuid" "str_len uuid \<le> 36"
    and "create_job st js cenv payload ikey w s = (r1, w1, s1)"
    and "drain_once rl ext re w = (r2, w2)"
    and "role_handle_event wid runs role env event w = (r3, w3)"
    and "d' \<in> {wdb w1, wdb w2, wdb w3}"
  shows "\<exists>m m'. sys_step\<^sup>*\<^sup>* Map.empty m \<and> lives (wdb w) m \<and> sys_step\<^sup>*\<^sup>* m m' \<and> lives d' m'"
proof -
  have "db_commit\<^sup>*\<^sup>* (wdb w) (wdb w1)" using onward.create_job_keeps [OF assms(7,2)] .
  moreover have "db_commit\<^sup>*\<^sup>* (wdb w) (wdb w2)" using onward.drain_once_keeps [OF assms(8,3)] .
  moreover have "db_commit\<^sup>*\<^sup>* (wdb w) (wdb w3)"
    using onward.role_handle_keeps [OF assms(9) _ assms(4) rtranclp.rtrancl_refl]
      role_identity_fits [OF assms(6)] assms(5) by simp
  ultimately have run: "db_commit\<^sup>*\<^sup>* (wdb w) d'" using assms(10) by auto
  from reachable_life [OF assms(1)] obtain m where "sys_step\<^sup>*\<^sup>* Map.empty m" "lives (wdb w) m" by blast
  with lifecycle.simulated_runs [OF run] show ?thesis by blast
qed

theorem job_lifecycle_refined_witness:
  "\<exists>j w1 s1 m. create_job (redis_store map_redis sample_rs) sample_js sample_create (PDict []) (Some ''k1'')
       (sample_world empty_db) Map.empty = (Inr j, w1, s1)
     \<and> sys_step\<^sup>*\<^sup>* Map.empty m \<and> lives (wdb w1) m"
proof -
  obtain j w1 s1 where c: "create_job (redis_store map_redis sample_rs) sample_js sample_create
      (PDict []) (Some ''k1'') (sample_world empty_db) Map.empty = (Inr j, w1, s1)"
    using sample_first by blast
  obtain r2 w2 where p: "drain_once (relay_init 2 1) sample_externals sample_pass (sample_world empty_db) = (r2, w2)"
    by fastforce
  let ?role = "build_worker_role default_settings"
  obtain r3 w3 where h: "role_handle_event (role_identity (role_service_of ?role) ''u'') (\<lambda>_. sample_process) ?role
      sample_env sample_event (sample_world empty_db) = (r3, w3)"
    by fastforce
  have "\<exists>m m'. sys_step\<^sup>*\<^sup>* Map.empty m \<and> lives (wdb (sample_world empty_db)) m \<and> sys_step\<^sup>*\<^sup>* m m'
      \<and> lives (wdb w1) m'"
    by (rule job_lifecycle_refined [OF _ _ _ _ refl _ c p h])
       (simp_all add: reachable_def surroundings_keep_def sample_pass_def str_len_le)
  with c show ?thesis by (meson rtranclp_trans)
qed

end
