(* ===== verification/Event_Log.thy ===== *)
theory Event_Log
  imports Job_Lifecycle
begin

section \<open>The event log and the outbox as records of the jobs\<close>

text \<open>
  In every reachable database the numbers of logged events agree with the job rows, and every job
  has exactly one request message in the outbox.
\<close>

subsection \<open>The event log accounts for the rows\<close>

definition event_count :: "EventType \<Rightarrow> string \<Rightarrow> db \<Rightarrow> nat" where
  "event_count ty k d = length (filter (\<lambda>e. je_event_type e = event_value ty) (list_for_job k d))"

definition accounted :: "string \<Rightarrow> JobModel option \<Rightarrow> db \<Rightarrow> bool" where
  "accounted k row d =
     (case row of
        None \<Rightarrow> event_count REQUESTED k d = 0 \<and> event_count PROCESSING_STARTED k d = 0 \<and>
                event_count PROCESSING_COMPLETED k d = 0
      | Some r \<Rightarrow>
          event_count REQUESTED k d = 1 \<and>
          int (event_count PROCESSING_STARTED k d) = jm_lease_epoch r \<and>
          event_count PROCESSING_COMPLETED k d \<le> 1 \<and>
          (event_count PROCESSING_COMPLETED k d = 1 \<longrightarrow> jm_status r = status_value SUCCESS) \<and>
          (jm_status r = status_value SUCCESS \<longrightarrow>
             0 < event_count PROCESSING_COMPLETED k d + event_count DOWNSTREAM_COMPLETED k d) \<and>
          (jm_status r = status_value FAILED \<longrightarrow> 0 < event_count EVENT_FAILED k d))"

definition log_accounts :: "db \<Rightarrow> bool" where
  "log_accounts d \<longleftrightarrow> (\<forall>k. accounted k (jobs d k) d)"

lemma event_count_append:
  assumes "job_events d' = job_events d @ [ev]" "je_event_type ev = event_value ty'"
  shows "event_count ty k d' = event_count ty k d + (if je_job_id ev = k \<and> ty = ty' then 1 else 0)"
  using assms by (simp add: event_count_def list_for_job_def)

lemma job_change_accounted:
  assumes "job_change k ty x y" "accounted k x d"
    and "job_events d' = job_events d @ [ev]" "je_job_id ev = k" "je_event_type ev = event_value ty"
  shows "accounted k y d'"
proof -
  have count: "event_count ty' k d' = event_count ty' k d + (if ty' = ty then 1 else 0)" for ty'
    using event_count_append [OF assms(3,5), of ty' k] assms(4) by simp
  from assms(1) show ?thesis
  proof (cases rule: job_change.cases)
    case (requested r)
    with assms(2) show ?thesis by (simp add: accounted_def count)
  next
    case (started now r dbnow owner secs)
    with assms(2) show ?thesis by (auto simp: accounted_def count claimable_def claim_row_def)
  next
    case (completed opts r now)
    then have "jm_status r \<noteq> status_value SUCCESS" by (simp add: cas_matches_def)
    with completed assms(2) show ?thesis by (auto simp: accounted_def count)
  next
    case (faulted opts r now)
    then have "jm_status r \<noteq> status_value SUCCESS" by (auto simp: cas_matches_def)
    with faulted assms(2) show ?thesis by (auto simp: accounted_def count)
  next
    case noted
    with assms(2) show ?thesis by (auto simp: accounted_def count split: option.splits)
  qed
qed

lemma accounted_other:
  assumes "accounted k x d" "\<And>ty. event_count ty k d' = event_count ty k d"
  shows "accounted k x d'"
  using assms by (cases x) (simp_all add: accounted_def)

lemma db_commit_accounts:
  assumes "db_commit d d'" "log_accounts d"
  shows "log_accounts d'"
  using db_commit_logged [OF assms(1)]
proof
  assume "logged_change d d'"
  then obtain k ty ev where k: "job_change k ty (jobs d k) (jobs d' k)"
    and rest: "\<And>k'. k' \<noteq> k \<Longrightarrow> jobs d' k' = jobs d k'"
    and ev: "job_events d' = job_events d @ [ev]" "je_job_id ev = k" "je_event_type ev = event_value ty"
    by (auto simp: logged_change_def)
  show ?thesis
    unfolding log_accounts_def
  proof
    fix k'
    show "accounted k' (jobs d' k') d'"
    proof (cases "k' = k")
      case True
      with job_change_accounted [OF k _ ev] assms(2) show ?thesis by (simp add: log_accounts_def)
    next
      case False
      then have "event_count ty' k' d' = event_count ty' k' d" for ty'
        using event_count_append [OF ev(1,3), of ty' k'] ev(2) by simp
      with False rest assms(2) show ?thesis
        by (auto simp: log_accounts_def intro: accounted_other [of _ _ d])
    qed
  qed
next
  assume "jobs d' = jobs d \<and> job_events d' = job_events d"
  with assms(2) show ?thesis
    by (auto simp: log_accounts_def event_count_def list_for_job_def intro: accounted_other)
qed

interpretation accounting: invariant_system db_commit log_accounts
  by unfold_locales (rule db_commit_accounts)

lemma empty_accounts: "log_accounts empty_db"
  by (simp add: log_accounts_def accounted_def event_count_def list_for_job_def empty_db_def)

text \<open>
  C12: The event log accounts for the job table. In every database the program can reach, a job has exactly
  one REQUESTED event; the number of its PROCESSING_STARTED events is its lease epoch; it has at
  most one PROCESSING_COMPLETED event, and only if it is SUCCESS; a SUCCESS job has a completion
  event; and a FAILED job has a failure event. An identifier without a row was never requested,
  started or completed.
\<close>

theorem event_log_accounts:
  assumes "reachable d"
  shows "accounted k (jobs d k) d"
proof -
  have "log_accounts d"
    using accounting.inv_steps [OF _ empty_accounts] assms by (simp add: reachable_def)
  then show ?thesis by (simp add: log_accounts_def)
qed

subsection \<open>Every job is announced\<close>

definition is_request :: "string \<Rightarrow> pyval \<Rightarrow> bool" where
  "is_request k ev \<longleftrightarrow>
     py_getitem ev ''job_id'' = Inr (PStr k) \<and>
     py_getitem ev ''event_type'' = Inr (PStr (event_value REQUESTED))"

definition requests_queued :: "string \<Rightarrow> db \<Rightarrow> pyval list" where
  "requests_queued k d = filter (is_request k) (map ob_payload (outbox_messages d))"

definition requests :: "db \<Rightarrow> string \<rightharpoonup> pyval" where
  "requests d = map_option jm_request_payload \<circ> jobs d"

fun announces :: "pyval option \<Rightarrow> pyval list \<Rightarrow> bool" where
  "announces None evs \<longleftrightarrow> evs = []"
| "announces (Some p) evs \<longleftrightarrow>
     (\<exists>ev. evs = [ev] \<and> py_getitem ev ''payload'' = Inr (PDict [(''request'', p)]))"

definition announced :: "db \<Rightarrow> bool" where
  "announced d \<longleftrightarrow> (\<forall>k. announces (requests d k) (requests_queued k d))"

lemma update_status_requests:
  assumes "update_status now jid st opts d = Inr (x, d')" "opt_expected_statuses opts = None"
  shows "requests d' = requests d \<and> outbox_messages d' = outbox_messages d"
proof (cases x)
  case None
  with assms(1) show ?thesis by (auto dest: update_status_None)
next
  case (Some j)
  from assms show ?thesis
    unfolding Some by (elim update_status_Some) (auto simp: requests_def cas_row_def fun_eq_iff)
qed

lemma claim_requests:
  assumes "claim_for_processing now dbnow jid owner secs d = Inr (x, d')"
  shows "requests d' = requests d \<and> outbox_messages d' = outbox_messages d"
proof (cases x)
  case None
  with assms(1) show ?thesis by (auto dest: claim_None)
next
  case (Some l)
  from assms show ?thesis
    unfolding Some by (elim claim_Some) (auto simp: requests_def claim_row_def fun_eq_iff)
qed

lemma event_add_requests:
  "event_add now ev d = Inr d' \<Longrightarrow> requests d' = requests d \<and> outbox_messages d' = outbox_messages d"
  by (simp add: requests_def event_add_frame)

lemma announced_same:
  assumes "announced d" "requests d' = requests d" "map ob_payload (outbox_messages d') = map ob_payload (outbox_messages d)"
  shows "announced d'"
  using assms by (simp add: announced_def requests_queued_def)

lemma announced_frame:
  "announced d \<Longrightarrow> requests d' = requests d \<and> outbox_messages d' = outbox_messages d \<Longrightarrow> announced d'"
  by (rule announced_same) simp_all

lemma create_announced:
  assumes "create_block js env payload d = Inr (Commit u d')" "announced d"
  shows "announced d'"
proof -
  from assms(1) obtain d1 d2 m where
    j: "job_add (tx_dbnow env) (new_job env payload) d = Inr d1"
    and e: "event_add (tx_dbnow env) (request_event env payload) d1 = Inr d2"
    and o: "outbox_add (tx_dbnow env) (tx_uuid env 4) (js_topic js) (request_event env payload) None d2
      = Inr (m, d')"
    by (auto simp: create_block_def)
  from j have r: "requests d (tx_uuid env 1) = None" "requests d1 = (requests d)(tx_uuid env 1 \<mapsto> payload)"
      "outbox_messages d1 = outbox_messages d"
    by (auto simp: job_add_def varchar_Inr new_job_def requests_def fun_eq_iff split: if_splits)
  from o have "requests d' = requests d2"
    "map ob_payload (outbox_messages d') = map ob_payload (outbox_messages d2) @ [request_event env payload]"
    by (auto simp: outbox_add_def requests_def split: if_splits)
  with r event_add_requests [OF e] have d':
    "requests d' = (requests d)(tx_uuid env 1 \<mapsto> payload)"
    "requests_queued k d' = requests_queued k d @ (if k = tx_uuid env 1 then [request_event env payload] else [])"
    for k by (auto simp: requests_queued_def is_request_def request_event_def)
  show ?thesis
    unfolding announced_def
  proof
    fix k
    have "announces (requests d k) (requests_queued k d)" using assms(2) by (simp add: announced_def)
    with r(1) show "announces (requests d' k) (requests_queued k d')"
      by (auto simp: d' request_event_def)
  qed
qed

lemma handover_announced:
  assumes "handover_block topic env jid tid request result d = Inr (Commit u d')" "announced d"
  shows "announced d'"
proof -
  from assms(1) obtain d1 m where
    e: "event_add (tx_dbnow env) (build_event (tx_uuid env 1) (tx_isonow env) jid INFERENCE_COMPLETED
          ''inference-worker'' tid (PDict [(''result'', result)])) d = Inr d1"
    and o: "outbox_add (tx_dbnow env) (tx_uuid env 2) topic
          (downstream_event env jid tid request result) None d1 = Inr (m, d')"
    by (auto simp: handover_block_def)
  from o have "requests d' = requests d1" "map ob_payload (outbox_messages d') =
      map ob_payload (outbox_messages d1) @ [downstream_event env jid tid request result]"
    by (auto simp: outbox_add_def requests_def split: if_splits)
  with event_add_requests [OF e] have "requests d' = requests d" "requests_queued k d' = requests_queued k d"
    for k by (auto simp: requests_queued_def is_request_def downstream_event_def)
  with assms(2) show ?thesis by (simp add: announced_def)
qed

text \<open>The remaining blocks touch neither the requests nor the outbox.\<close>

definition unannounced :: "db \<Rightarrow> db \<Rightarrow> bool" where
  "unannounced d d' \<longleftrightarrow> requests d' = requests d \<and> outbox_messages d' = outbox_messages d"

lemma unannounced_trans: "unannounced d d1 \<Longrightarrow> unannounced d1 d2 \<Longrightarrow> unannounced d d2"
  by (simp add: unannounced_def)

lemmas statement_unannounced =
  update_status_requests [OF _ opts_expected(1), folded unannounced_def]
  update_status_requests [OF _ opts_expected(2), folded unannounced_def]
  update_status_requests [OF _ opts_expected(3), folded unannounced_def]
  update_status_requests [OF _ opts_expected(4), folded unannounced_def]
  claim_requests [folded unannounced_def] event_add_requests [folded unannounced_def]

lemma block_unannounced:
  "claim_block source svc env jid tid d = Inr (Commit c d') \<Longrightarrow> unannounced d d'"
  "success_block svc env jid tid l result d = Inr (Commit b d') \<Longrightarrow> unannounced d d'"
  "failure_block source svc env jid tid l exc d = Inr (Commit b d') \<Longrightarrow> unannounced d d'"
  "finish_block env jid tid payload result d = Inr (Commit u d') \<Longrightarrow> unannounced d d'"
  "downstream_fail_block env jid tid exc d = Inr (Commit u d') \<Longrightarrow> unannounced d d'"
  by (auto simp: claim_block_def success_block_def failure_block_def finish_block_def
        downstream_fail_block_def split: option.splits
        intro: unannounced_trans dest: statement_unannounced)

lemma relay_announced:
  assumes "announced d" "\<And>r. ob_payload (f r) = ob_payload r"
  shows "announced (d\<lparr>outbox_messages := map f (outbox_messages d)\<rparr>)"
  by (rule announced_same [OF assms(1)]) (simp_all add: assms(2) requests_def)

lemma mark_announced:
  "announced d \<Longrightarrow> announced (mark_published now ids d)" "announced d \<Longrightarrow> announced (mark_failed i err d)"
  unfolding mark_published_def mark_failed_def
  by (auto intro!: relay_announced simp: publish_row_def fail_row_def)

lemma db_commit_announced: "db_commit d d' \<Longrightarrow> announced d \<Longrightarrow> announced d'"
  by (induction rule: db_commit.induct)
     (blast dest: block_unannounced [unfolded unannounced_def]
        intro: create_announced handover_announced mark_announced announced_frame)+

interpretation announcing: invariant_system db_commit announced
  by unfold_locales (rule db_commit_announced)

lemma empty_announced: "announced empty_db"
  by (simp add: announced_def requests_def requests_queued_def empty_db_def)

text \<open>
  C14: Every accepted job is announced exactly once. In every database the program can reach, a job has
  exactly one request message in the outbox, which carries the job's own request payload and is either
  still waiting or marked published; no message announces a job that does not exist.
\<close>

theorem every_job_announced:
  assumes "reachable d"
  shows "case jobs d k of
      None \<Rightarrow> requests_queued k d = []
    | Some r \<Rightarrow> \<exists>m \<in> set (outbox_messages d). requests_queued k d = [ob_payload m] \<and>
        py_getitem (ob_payload m) ''payload'' = Inr (PDict [(''request'', jm_request_payload r)]) \<and>
        ob_status m \<in> {''PENDING'', ''PUBLISHED''}"
proof -
  have a: "announced d"
    using announcing.inv_steps [OF _ empty_announced] assms by (simp add: reachable_def)
  have status: "\<forall>m \<in> set (outbox_messages d). message_ok m"
    using reachable_inv [OF assms] by (simp add: db_inv_def)
  from a have k: "announces (requests d k) (requests_queued k d)" by (simp add: announced_def)
  show ?thesis
  proof (cases "jobs d k")
    case None
    with k show ?thesis by (simp add: requests_def)
  next
    case (Some r)
    with k obtain ev where ev: "requests_queued k d = [ev]"
      "py_getitem ev ''payload'' = Inr (PDict [(''request'', jm_request_payload r)])"
      by (auto simp: requests_def)
    then have "ev \<in> set (requests_queued k d)" by simp
    then obtain m where "m \<in> set (outbox_messages d)" "ev = ob_payload m"
      by (auto simp: requests_queued_def)
    with ev status Some show ?thesis by (auto simp: message_ok_def)
  qed
qed

text \<open>A first request to an empty system leaves one job, with its event and its message.\<close>

lemma sample_created:
  obtains j w1 s1 r where "create_job (redis_store map_redis sample_rs) sample_js sample_create (PDict [])
      (Some ''k1'') (sample_world empty_db) Map.empty = (Inr j, w1, s1)"
    "reachable (wdb w1)" "jobs (wdb w1) (job_id j) = Some r"
proof -
  obtain j w1 s1 where c: "create_job (redis_store map_redis sample_rs) sample_js sample_create
      (PDict []) (Some ''k1'') (sample_world empty_db) Map.empty = (Inr j, w1, s1)"
    using sample_first by blast
  have e: "jobs_ok empty_db" "reachable empty_db"
    by (simp_all add: reachable_def jobs_ok_def empty_db_def)
  have "answered (redis_lookup (\<lambda>m. m) s1 (effective_key (ce_tx sample_create) (Some ''k1''))) j (wdb w1)"
    by (rule idempotency_port.create_job_answered [OF redis_store_port [OF map_redis_laws] c])
       (simp_all add: e)
  moreover have "reachable (wdb w1)" by (rule reached.create_job_keeps [OF c]) (simp add: e)
  ultimately show thesis using c that by (auto simp: answered_def)
qed

theorem event_log_accounts_witness:
  "\<exists>j w1 s1. create_job (redis_store map_redis sample_rs) sample_js sample_create (PDict []) (Some ''k1'')
       (sample_world empty_db) Map.empty = (Inr j, w1, s1)
     \<and> event_count REQUESTED (job_id j) (wdb w1) = 1"
  by (rule sample_created)
     (use event_log_accounts in \<open>fastforce simp: accounted_def split: option.splits\<close>)

theorem every_job_announced_witness:
  "\<exists>j w1 s1. create_job (redis_store map_redis sample_rs) sample_js sample_create (PDict []) (Some ''k1'')
       (sample_world empty_db) Map.empty = (Inr j, w1, s1)
     \<and> length (requests_queued (job_id j) (wdb w1)) = 1"
proof (rule sample_created)
  fix j w1 s1 r
  assume c: "create_job (redis_store map_redis sample_rs) sample_js sample_create (PDict []) (Some ''k1'')
       (sample_world empty_db) Map.empty = (Inr j, w1, s1)"
    and r: "reachable (wdb w1)" "jobs (wdb w1) (job_id j) = Some r"
  from every_job_announced [OF r(1), of "job_id j"] r(2) c show ?thesis by auto
qed

end
