(* ===== verification/Ports.thy ===== *)
theory Ports
  imports Outbox
begin

section \<open>The repository ports\<close>

text \<open>
  \<open>app/ports/repositories.py\<close>: each port is the record of its operations, and the SQLAlchemy
  repositories are instances. What the port's comments promise of the job repository is the locale
  \<open>job_store\<close>, interpreted on the instance. The ports do not know of leases; the adapter's lease
  arguments have their defaults here.
\<close>

subsection \<open>Interfaces\<close>

record 'd JobRepositoryPort =
  jr_add :: "Job \<Rightarrow> 'd \<Rightarrow> 'd res"
  jr_get :: "pyval \<Rightarrow> 'd \<Rightarrow> Job option res"
  jr_update_status ::
    "pyval \<Rightarrow> string \<Rightarrow> pyval option \<Rightarrow> string option \<Rightarrow> bool \<Rightarrow> string list option \<Rightarrow> 'd \<Rightarrow> (Job option \<times> 'd) res"

record 'd JobEventRepositoryPort =
  er_add :: "pyval \<Rightarrow> 'd \<Rightarrow> 'd res"

record 'd OutboxRepositoryPort =
  or_add :: "string \<Rightarrow> pyval \<Rightarrow> headers option \<Rightarrow> 'd \<Rightarrow> (string \<times> 'd) res"
  or_fetch_pending :: "int \<Rightarrow> 'd \<Rightarrow> OutboxItem list"
  or_mark_published :: "int list \<Rightarrow> 'd \<Rightarrow> 'd"
  or_mark_failed :: "int \<Rightarrow> string \<Rightarrow> 'd \<Rightarrow> 'd"

definition plain_opts :: "pyval option \<Rightarrow> string option \<Rightarrow> bool \<Rightarrow> string list option \<Rightarrow> update_opts" where
  "plain_opts result err clear_error expected =
     default_opts\<lparr>opt_result := result, opt_error := err, opt_clear_error := clear_error,
                  opt_expected_statuses := expected\<rparr>"

text \<open>The adapters in a session whose database clock shows \<open>dbnow\<close>; \<open>mid\<close> is the identifier drawn for a message.\<close>

definition sql_jobs :: "instant \<Rightarrow> db JobRepositoryPort" where
  "sql_jobs dbnow =
     \<lparr>jr_add = job_add dbnow, jr_get = job_get,
      jr_update_status = (\<lambda>jid st result err clear expected.
        update_status dbnow jid st (plain_opts result err clear expected))\<rparr>"

definition sql_events :: "instant \<Rightarrow> db JobEventRepositoryPort" where
  "sql_events dbnow = \<lparr>er_add = event_add dbnow\<rparr>"

definition sql_outbox ::
  "instant \<Rightarrow> instant \<Rightarrow> string \<Rightarrow> string option \<Rightarrow> (int \<Rightarrow> bool) \<Rightarrow> db OutboxRepositoryPort" where
  "sql_outbox now dbnow mid dialect locked =
     \<lparr>or_add = outbox_add dbnow mid, or_fetch_pending = fetch_pending dialect locked,
      or_mark_published = mark_published now, or_mark_failed = mark_failed\<rparr>"

subsection \<open>The contract of the job repository\<close>

definition job_content :: "Job \<Rightarrow> string \<times> JobStatus \<times> pyval \<times> pyval option \<times> string option \<times> int" where
  "job_content j =
     (job_id j, job_status j, job_request_payload j, job_result j, job_error j, job_retry_count j)"

text \<open>
  The end of a job as one process reports it, the clock of its session first, and the reports of any
  number of processes, one transaction each; one that raises writes nothing.
\<close>

record 't report =
  rp_clock :: 't
  rp_status :: JobStatus
  rp_result :: "pyval option"
  rp_error :: "string option"
  rp_clear_error :: bool
  rp_expected :: "string list option"

fun report_all :: "('t \<Rightarrow> 'd JobRepositoryPort) \<Rightarrow> pyval \<Rightarrow> 't report list \<Rightarrow> 'd \<Rightarrow> Job option res list \<times> 'd" where
  "report_all port jid [] d = ([], d)"
| "report_all port jid (u # us) d =
     (case jr_update_status (port (rp_clock u)) jid (status_value (rp_status u)) (rp_result u) (rp_error u)
             (rp_clear_error u) (rp_expected u) d of
        Inl e \<Rightarrow> (let (rs, d') = report_all port jid us d in (Inl e # rs, d'))
      | Inr (x, d1) \<Rightarrow> (let (rs, d') = report_all port jid us d1 in (Inr x # rs, d')))"

text \<open>An update that reports an end and does not start from one.\<close>

definition reports_end :: "'t report \<Rightarrow> bool" where
  "reports_end u \<longleftrightarrow>
     rp_status u \<in> {SUCCESS, FAILED} \<and>
     (\<forall>ss. rp_expected u = Some ss \<longrightarrow> status_value SUCCESS \<notin> set ss \<and> status_value FAILED \<notin> set ss)"

definition matched :: "Job option res \<Rightarrow> bool" where
  "matched r \<longleftrightarrow> (\<exists>j. r = Inr (Some j))"

lemma reports_end_sources:
  "reports_end u \<Longrightarrow> st \<in> {SUCCESS, FAILED} \<Longrightarrow>
     st \<notin> source_statuses (rp_expected u) (status_value (rp_status u))"
  by (auto simp: reports_end_def source_statuses_def split: option.splits)

text \<open>A port per session, indexed by the session's clock; reading does not depend on the clock.\<close>

locale job_store =
  fixes port :: "'t \<Rightarrow> 'd JobRepositoryPort"
  assumes same_get: "jr_get (port t) = jr_get (port t')"
    and add_get: "jr_add (port t) j d = Inr d' \<Longrightarrow>
      \<exists>j'. jr_get (port t) (PStr (job_id j)) d' = Inr (Some j') \<and> job_content j' = job_content j"
    and update_lost: "jr_update_status (port t) jid st result err clear expected d = Inr (None, d') \<Longrightarrow> d' = d"
    and update_won: "jr_update_status (port t) jid st result err clear expected d = Inr (Some j, d') \<Longrightarrow>
      \<exists>j0. jr_get (port t) jid d = Inr (Some j0) \<and> job_status j0 \<in> source_statuses expected st \<and>
           jr_get (port t) jid d' = Inr (Some j) \<and> status_value (job_status j) = st \<and>
           job_request_payload j = job_request_payload j0"
begin

lemma update_refused:
  assumes "jr_get (port t) jid d = Inr (Some j)" "job_status j \<notin> source_statuses expected st"
    and "jr_update_status (port t') jid st result err clear expected d = Inr (x, d')"
  shows "x = None \<and> d' = d"
proof (cases x)
  case None
  with assms(3) update_lost show ?thesis by blast
next
  case (Some j2)
  from update_won [OF assms(3) [unfolded Some]] assms(1) have "job_status j \<in> source_statuses expected st"
    by (auto simp: same_get [of t' t])
  with assms(2) show ?thesis by blast
qed

text \<open>Once the job shows an end, no report of another end takes effect.\<close>

lemma reports_refused:
  assumes "jr_get (port t) jid d = Inr (Some j)" "job_status j \<in> {SUCCESS, FAILED}"
    and "\<forall>u \<in> set us. reports_end u" "report_all port jid us d = (rs, d')"
  shows "d' = d \<and> list_all (\<lambda>r. \<not> matched r) rs \<and> length rs = length us"
  using assms(3,4)
proof (induction us arbitrary: rs d')
  case (Cons u us)
  obtain rs' d1 where rest: "report_all port jid us d = (rs', d1)" by fastforce
  from Cons.IH [OF _ this] Cons.prems(1) have IH: "d1 = d" "list_all (\<lambda>r. \<not> matched r) rs'" "length rs' = length us"
    by simp_all
  have "job_status j \<notin> source_statuses (rp_expected u) (status_value (rp_status u))"
    using Cons.prems(1) assms(2) by (intro reports_end_sources) simp_all
  note refused = update_refused [OF assms(1) this]
  show ?case
    using Cons.prems(2) IH rest by (auto simp: matched_def split: sum.splits prod.splits dest!: refused)
qed simp

text \<open>Of the reports of an end at most one takes effect, and the job reads as that one left it.\<close>

lemma one_winner:
  assumes "\<forall>u \<in> set us. reports_end u" "report_all port jid us d = (rs, d')"
  shows "length rs = length us \<and>
    (d' = d \<and> list_all (\<lambda>r. \<not> matched r) rs \<or>
     (\<exists>i < length us. \<exists>j. rs ! i = Inr (Some j) \<and> (\<forall>i' < length us. matched (rs ! i') \<longrightarrow> i' = i)
        \<and> jr_get (port t) jid d' = Inr (Some j) \<and> job_status j = rp_status (us ! i)))"
  using assms
proof (induction us arbitrary: d rs)
  case (Cons u us)
  let ?up = "jr_update_status (port (rp_clock u)) jid (status_value (rp_status u)) (rp_result u) (rp_error u)
    (rp_clear_error u) (rp_expected u) d"
  consider (lost) x rs' where "\<not> matched x" "report_all port jid us d = (rs', d')" "rs = x # rs'"
    | (won) j d1 rs' where "?up = Inr (Some j, d1)" "report_all port jid us d1 = (rs', d')" "rs = Inr (Some j) # rs'"
  proof (cases ?up)
    case (Inl e)
    then show thesis
      using Cons.prems(2) by (intro lost [of "Inl e" "fst (report_all port jid us d)"]) (auto simp: matched_def split: prod.splits)
  next
    case (Inr a)
    then obtain x d1 where up: "?up = Inr (x, d1)" by (cases a) simp
    obtain rs' d2 where rest: "report_all port jid us d1 = (rs', d2)" by fastforce
    with Cons.prems(2) up have rs: "rs = Inr x # rs'" "d2 = d'" by simp_all
    show thesis
    proof (cases x)
      case None
      with up update_lost have "d1 = d" by blast
      with None rs rest show thesis by (intro lost [of "Inr None" rs']) (simp_all add: matched_def)
    next
      case (Some j)
      with up rs rest show thesis by (intro won [of j d1 rs']) simp_all
    qed
  qed
  then show ?case
  proof cases
    case lost
    from Cons.IH [OF _ lost(2)] Cons.prems(1) have IH: "length rs' = length us"
      "d' = d \<and> list_all (\<lambda>r. \<not> matched r) rs' \<or>
       (\<exists>i < length us. \<exists>j. rs' ! i = Inr (Some j) \<and> (\<forall>i' < length us. matched (rs' ! i') \<longrightarrow> i' = i)
          \<and> jr_get (port t) jid d' = Inr (Some j) \<and> job_status j = rp_status (us ! i))" by simp_all
    from IH(2) show ?thesis
    proof
      assume "\<exists>i < length us. \<exists>j. rs' ! i = Inr (Some j) \<and> (\<forall>i' < length us. matched (rs' ! i') \<longrightarrow> i' = i)
          \<and> jr_get (port t) jid d' = Inr (Some j) \<and> job_status j = rp_status (us ! i)"
      then obtain i j where i: "i < length us" "rs' ! i = Inr (Some j)" "\<forall>i' < length us. matched (rs' ! i') \<longrightarrow> i' = i"
        "jr_get (port t) jid d' = Inr (Some j)" "job_status j = rp_status (us ! i)" by blast
      have "\<forall>i' < length (u # us). matched (rs ! i') \<longrightarrow> i' = Suc i"
        using i(3) lost(1,3) by (auto simp: nth_Cons split: nat.splits)
      moreover have "length rs = length (u # us)" "Suc i < length (u # us)" "rs ! Suc i = Inr (Some j)"
        "job_status j = rp_status ((u # us) ! Suc i)"
        using i lost(3) IH(1) by simp_all
      ultimately show ?thesis using i(4) by blast
    qed (use lost IH(1) in simp)
  next
    case won
    have j: "jr_get (port t) jid d1 = Inr (Some j)" "job_status j = rp_status u"
      using update_won [OF won(1)] same_get [of "rp_clock u" t] by auto
    moreover from this(2) have "job_status j \<in> {SUCCESS, FAILED}"
      using Cons.prems(1) by (simp add: reports_end_def)
    ultimately have rest: "d' = d1" "list_all (\<lambda>r. \<not> matched r) rs'" "length rs' = length us"
      using reports_refused [OF j(1) _ _ won(2)] Cons.prems(1) by simp_all
    then have "\<forall>i' < length (u # us). matched (rs ! i') \<longrightarrow> i' = 0"
      using won(3) by (auto simp: nth_Cons list_all_length split: nat.splits)
    moreover have "length rs = length (u # us)" "0 < length (u # us)" "rs ! 0 = Inr (Some j)"
      "job_status j = rp_status ((u # us) ! 0)" "jr_get (port t) jid d' = Inr (Some j)"
      using rest j won(3) by simp_all
    ultimately show ?thesis by blast
  qed
qed simp

text \<open>By the domain's rule a finished job takes no update at all.\<close>

lemma terminal_refuses:
  assumes "jr_get (port t) jid d = Inr (Some j)" "job_status j \<in> TERMINAL_STATUSES"
    and "jr_update_status (port t') jid st result err clear None d = Inr (x, d')"
  shows "x = None \<and> d' = d"
  using assms(1) _ assms(3)
proof (rule update_refused)
  show "job_status j \<notin> source_statuses None st"
    using assms(2) terminal_not_source by (auto simp: source_statuses_def split: sum.splits)
qed

end

interpretation sql_store: job_store sql_jobs
proof
  show "jr_get (sql_jobs t) = jr_get (sql_jobs t')" for t t' by (simp add: sql_jobs_def)
  show "\<exists>j'. jr_get (sql_jobs t) (PStr (job_id j)) d' = Inr (Some j') \<and> job_content j' = job_content j"
    if "jr_add (sql_jobs t) j d = Inr d'" for t j d d'
    using that
    by (auto simp: sql_jobs_def job_add_def varchar_Inr job_get_PStr job_of_row_def job_content_def split: if_splits)
  show "d' = d" if "jr_update_status (sql_jobs t) jid st result err clear expected d = Inr (None, d')"
    for t jid st result err clear expected d d'
    using that by (auto simp: sql_jobs_def dest: update_status_None)
  show "\<exists>j0. jr_get (sql_jobs t) jid d = Inr (Some j0) \<and> job_status j0 \<in> source_statuses expected st \<and>
      jr_get (sql_jobs t) jid d' = Inr (Some j) \<and> status_value (job_status j) = st \<and>
      job_request_payload j = job_request_payload j0"
    if "jr_update_status (sql_jobs t) jid st result err clear expected d = Inr (Some j, d')"
    for t jid st result err clear expected d j d'
  proof -
    let ?opts = "plain_opts result err clear expected"
    from that have "update_status t jid st ?opts d = Inr (Some j, d')" by (simp add: sql_jobs_def)
    then obtain k r target where r: "jid = PStr k" "st = status_value target" "jobs d k = Some r"
      "cas_matches (source_statuses expected st) ?opts r"
      "jobs d' k = Some (cas_row t target ?opts r)" "job_of_row (cas_row t target ?opts r) = Inr j"
      by (rule update_status_won) (auto simp: plain_opts_def)
    from r(4) obtain s0 where s0: "jm_status r = status_value s0" "s0 \<in> source_statuses expected st"
      by (auto simp: cas_matches_def)
    from r(6) have "job_status j = target" "job_request_payload j = jm_request_payload r"
      by (auto simp: job_of_row_def cas_row_def)
    with r s0 show ?thesis
      by (simp add: sql_jobs_def job_get_PStr job_of_row_ok [OF s0(1)])
  qed
qed

text \<open>
  C8: Of several processes that report the end of the same job, one wins. Let any number of them update the
  job through the port to SUCCESS or FAILED, each in its own transaction, one after the other, with any
  results, errors and \<open>expected_statuses\<close> that do not name an end themselves (no caller in the program passes
  any). Then at most one of the updates matches; every other one answers None or raises and writes
  nothing; the job reads as the winner left it, or is untouched when none matched.
\<close>

theorem status_race_one_winner:
  assumes "report_all sql_jobs jid us d = (rs, d')" and "\<forall>u \<in> set us. reports_end u"
  shows "length rs = length us \<and>
    (d' = d \<and> list_all (\<lambda>r. \<not> matched r) rs \<or>
     (\<exists>i < length us. \<exists>j. rs ! i = Inr (Some j) \<and> (\<forall>i' < length us. matched (rs ! i') \<longrightarrow> i' = i)
        \<and> jr_get (sql_jobs t) jid d' = Inr (Some j) \<and> job_status j = rp_status (us ! i)))"
  using assms(2,1) by (rule sql_store.one_winner)

definition sample_reports :: "instant report list" where
  "sample_reports =
     [\<lparr>rp_clock = 1, rp_status = SUCCESS, rp_result = Some (PInt 1), rp_error = None, rp_clear_error = True,
       rp_expected = None\<rparr>,
      \<lparr>rp_clock = 2, rp_status = FAILED, rp_result = None, rp_error = Some ''late'', rp_clear_error = False,
       rp_expected = None\<rparr>,
      \<lparr>rp_clock = 3, rp_status = SUCCESS, rp_result = Some (PInt 2), rp_error = None, rp_clear_error = True,
       rp_expected = Some [''PROCESSING'']\<rparr>]"

theorem status_race_one_winner_witness:
  "\<exists>rs d'. report_all sql_jobs (PStr ''j1'') sample_reports (sample_db (sample_row PROCESSING None None 1)) = (rs, d')
     \<and> matched (rs ! 0) \<and> \<not> matched (rs ! 1) \<and> \<not> matched (rs ! 2)"
proof -
  let ?d = "sample_db (sample_row PROCESSING None None 1)"
  obtain rs d' where run: "report_all sql_jobs (PStr ''j1'') sample_reports ?d = (rs, d')" by fastforce
  have "\<forall>u \<in> set sample_reports. reports_end u"
    by (simp add: sample_reports_def reports_end_def status_value.simps)
  from status_race_one_winner [OF run this] have "length rs = 3"
    "(\<forall>r \<in> set rs. \<not> matched r) \<or> (\<exists>i < 3. \<forall>i' < 3. matched (rs ! i') \<longrightarrow> i' = i)"
    by (auto simp: sample_reports_def list_all_iff numeral_3_eq_3)
  moreover obtain j d1 where "jr_update_status (sql_jobs 1) (PStr ''j1'') (status_value SUCCESS) (Some (PInt 1)) None
      True None ?d = Inr (Some j, d1)"
    by (simp add: sql_jobs_def plain_opts_def default_opts_def update_status_eq cas_matches_def job_of_row_ok [of _ SUCCESS])
  then have first: "matched (rs ! 0)" using run by (auto simp: sample_reports_def matched_def split: prod.splits)
  ultimately obtain i where "\<forall>i' < 3. matched (rs ! i') \<longrightarrow> i' = i" using nth_mem [of 0 rs] by auto
  note only = this [rule_format, of 0] this [rule_format, of 1] this [rule_format, of 2]
  with first have "\<not> matched (rs ! 1)" "\<not> matched (rs ! 2)" by auto
  with first run show ?thesis by blast
qed

end
