(* ===== verification/Lifecycle.thy ===== *)
theory Lifecycle
  imports Kafka_Topics
begin

section \<open>Tracing and life cycle\<close>

text \<open>
  \<open>app/core/logging.py\<close>, \<open>app/core/tracing.py\<close>, \<open>app/core/lifespan.py\<close> and the set-up and clean-up
  of \<open>run_worker\<close> in \<open>app/workers/runner.py\<close>. The calls into OpenTelemetry are recorded; which of them
  raise, and what the clients' own start and stop calls answer, are parameters. Log lines are left out.
\<close>

subsection \<open>Logging\<close>

definition ascii_upper :: "char \<Rightarrow> char" where
  "ascii_upper c = (if byte_in 0x61 0x7A c then char_of ((of_char c :: nat) - 32) else c)"

text \<open>
  \<open>str.upper\<close> as far as the names of the \<open>logging\<close> module see it: they are made of ASCII letters, and
  besides the small ones only the dotless i, the long s and the two st ligatures become such letters.
\<close>

fun log_upper :: "string \<Rightarrow> string" where
  "log_upper (a # b # c # s) =
     (if a = CHR 0xEF \<and> b = CHR 0xAC \<and> (c = CHR 0x85 \<or> c = CHR 0x86) then ''ST'' @ log_upper s
      else if a = CHR 0xC4 \<and> b = CHR 0xB1 then ''I'' @ log_upper (c # s)
      else if a = CHR 0xC5 \<and> b = CHR 0xBF then ''S'' @ log_upper (c # s)
      else ascii_upper a # log_upper (b # c # s))"
| "log_upper [a, b] =
     (if a = CHR 0xC4 \<and> b = CHR 0xB1 then ''I''
      else if a = CHR 0xC5 \<and> b = CHR 0xBF then ''S''
      else [ascii_upper a, ascii_upper b])"
| "log_upper [a] = [ascii_upper a]"
| "log_upper [] = []"

text \<open>The upper-case attributes of the module: the levels, and two that are no levels.\<close>

datatype log_attr = Level int | BasicFormat | Styles

definition logging_attribute :: "string \<Rightarrow> log_attr option" where
  "logging_attribute = map_of
     [(''CRITICAL'', Level 50), (''FATAL'', Level 50), (''ERROR'', Level 40), (''WARNING'', Level 30),
      (''WARN'', Level 30), (''INFO'', Level 20), (''DEBUG'', Level 10), (''NOTSET'', Level 0),
      (''BASIC_FORMAT'', BasicFormat), (''_STYLES'', Styles)]"

record root_logger =
  lg_handlers :: "string list"
  lg_level :: int

text \<open>\<open>basicConfig\<close> does nothing when the root logger has a handler; otherwise it adds one and then sets the level.\<close>

definition basic_config :: "log_attr \<Rightarrow> string \<Rightarrow> root_logger \<Rightarrow> unit res \<times> root_logger" where
  "basic_config level fmt lg =
     (if lg_handlers lg \<noteq> [] then (Inr (), lg)
      else (let lg1 = lg\<lparr>lg_handlers := [fmt]\<rparr>
            in case level of
                 Level n \<Rightarrow> (Inr (), lg1\<lparr>lg_level := n\<rparr>)
               | BasicFormat \<Rightarrow> (Inl (PyExc ''ValueError'' ''Unknown level''), lg1)
               | Styles \<Rightarrow> (Inl (PyExc ''TypeError'' ''Level not an integer or a valid string''), lg1)))"

definition configure_logging :: "Settings \<Rightarrow> root_logger \<Rightarrow> unit res \<times> root_logger" where
  "configure_logging s lg =
     basic_config (case logging_attribute (log_upper (log_level s)) of None \<Rightarrow> Level 20 | Some a \<Rightarrow> a)
       ''%(asctime)s %(levelname)s %(name)s %(message)s'' lg"

subsection \<open>Tracing\<close>

record provider =
  pv_service_name :: string
  pv_endpoint :: string

datatype otel_call =
    SetTracerProvider provider
  | InstrumentApp provider
  | InstrumentKafka
  | InstrumentRedis
  | InstrumentEngine int
  | ShutdownProvider

record tracing_state =
  ts_redis_instrumented :: bool
  ts_aiokafka_instrumented :: bool
  ts_sqlalchemy_engines :: "int set"
  ts_calls :: "otel_call list"

definition tracing_init :: tracing_state where
  "tracing_init =
     \<lparr>ts_redis_instrumented = False, ts_aiokafka_instrumented = False, ts_sqlalchemy_engines = {},
      ts_calls = []\<rparr>"

definition build_provider :: "bool \<Rightarrow> Settings \<Rightarrow> string \<Rightarrow> provider option" where
  "build_provider available s service_name =
     (if \<not> tracing_enabled s then None
      else if \<not> available then None
      else Some \<lparr>pv_service_name = service_name, pv_endpoint = otel_exporter_otlp_endpoint s\<rparr>)"

definition otel :: "otel_call \<Rightarrow> tracing_state \<Rightarrow> tracing_state" where
  "otel c st = st\<lparr>ts_calls := ts_calls st @ [c]\<rparr>"

definition setup_fastapi_tracing :: "bool \<Rightarrow> Settings \<Rightarrow> tracing_state \<Rightarrow> tracing_state" where
  "setup_fastapi_tracing available s st =
     (case build_provider available s (otel_service_name_api s) of
        None \<Rightarrow> st
      | Some p \<Rightarrow> otel (InstrumentApp p) (otel (SetTracerProvider p) st))"

definition worker_service_name :: "Settings \<Rightarrow> string" where
  "worker_service_name s =
     (if otel_service_name_worker s = ''morphflow-worker'' then ''morphflow-worker-'' @ worker_role s
      else otel_service_name_worker s)"

text \<open>The name of the tracer that is returned, if there is one.\<close>

definition setup_worker_tracing ::
  "bool \<Rightarrow> Settings \<Rightarrow> tracing_state \<Rightarrow> string option \<times> tracing_state" where
  "setup_worker_tracing available s st =
     (case build_provider available s (worker_service_name s) of
        None \<Rightarrow> (None, st)
      | Some p \<Rightarrow> (Some (worker_service_name s), otel (SetTracerProvider p) st))"

text \<open>An instrumentor is called; its flag is set only if the call returns.\<close>

definition instrument_once ::
  "(otel_call \<Rightarrow> py_exc option) \<Rightarrow> bool \<Rightarrow> otel_call \<Rightarrow> (tracing_state \<Rightarrow> tracing_state)
     \<Rightarrow> tracing_state \<Rightarrow> unit res \<times> tracing_state" where
  "instrument_once fails already c mark st =
     (if already then (Inr (), st)
      else (case fails c of Some e \<Rightarrow> (Inl e, st) | None \<Rightarrow> (Inr (), mark (otel c st))))"

definition instrument_runtime_libraries ::
  "bool \<Rightarrow> (otel_call \<Rightarrow> py_exc option) \<Rightarrow> int option \<Rightarrow> tracing_state \<Rightarrow> unit res \<times> tracing_state" where
  "instrument_runtime_libraries available fails engine st =
     (if \<not> available then (Inr (), st)
      else
        and_then (instrument_once fails (ts_aiokafka_instrumented st) InstrumentKafka
                    (ts_aiokafka_instrumented_update (\<lambda>_. True)) st) (\<lambda>_ st1.
        and_then (instrument_once fails (ts_redis_instrumented st1) InstrumentRedis
                    (ts_redis_instrumented_update (\<lambda>_. True)) st1) (\<lambda>_ st2.
          case engine of
            None \<Rightarrow> (Inr (), st2)
          | Some eid \<Rightarrow>
              instrument_once fails (eid \<in> ts_sqlalchemy_engines st2) (InstrumentEngine eid)
                (ts_sqlalchemy_engines_update (insert eid)) st2)))"

text \<open>
  \<open>hook\<close> is the \<open>shutdown\<close> of the provider that OpenTelemetry returns, if it has one, with its answer.
\<close>

definition shutdown_tracing ::
  "bool \<Rightarrow> py_exc option option \<Rightarrow> tracing_state \<Rightarrow> unit res \<times> tracing_state" where
  "shutdown_tracing available hook st =
     (if \<not> available then (Inr (), st)
      else case hook of
             None \<Rightarrow> (Inr (), st)
           | Some (Some e) \<Rightarrow> (Inl e, st)
           | Some None \<Rightarrow> (Inr (), otel ShutdownProvider st))"

text \<open>The flags say what has been instrumented, and no library or engine has been twice.\<close>

fun is_library :: "otel_call \<Rightarrow> bool" where
  "is_library (SetTracerProvider _) \<longleftrightarrow> False"
| "is_library (InstrumentApp _) \<longleftrightarrow> False"
| "is_library ShutdownProvider \<longleftrightarrow> False"
| "is_library _ \<longleftrightarrow> True"

definition tracing_ok :: "tracing_state \<Rightarrow> bool" where
  "tracing_ok st \<longleftrightarrow>
     ts_aiokafka_instrumented st = (InstrumentKafka \<in> set (ts_calls st)) \<and>
     ts_redis_instrumented st = (InstrumentRedis \<in> set (ts_calls st)) \<and>
     ts_sqlalchemy_engines st = {e. InstrumentEngine e \<in> set (ts_calls st)} \<and>
     distinct (filter is_library (ts_calls st))"

lemma instrument_once_ok:
  assumes "instrument_once fails already c mark st = (r, st')" "tracing_ok st"
    and "\<not> already \<Longrightarrow> tracing_ok (mark (otel c st))"
  shows "tracing_ok st'"
  using assms by (cases already; cases "fails c") (auto simp: instrument_once_def)

lemma mark_kafka_ok:
  assumes "tracing_ok st" "\<not> ts_aiokafka_instrumented st"
  shows "tracing_ok (ts_aiokafka_instrumented_update (\<lambda>_. True) (otel InstrumentKafka st))"
  using assms by (simp add: tracing_ok_def otel_def)

lemma mark_redis_ok:
  assumes "tracing_ok st" "\<not> ts_redis_instrumented st"
  shows "tracing_ok (ts_redis_instrumented_update (\<lambda>_. True) (otel InstrumentRedis st))"
  using assms by (simp add: tracing_ok_def otel_def)

lemma mark_engine_ok:
  assumes "tracing_ok st" "eid \<notin> ts_sqlalchemy_engines st"
  shows "tracing_ok (ts_sqlalchemy_engines_update (insert eid) (otel (InstrumentEngine eid) st))"
  using assms by (auto simp: tracing_ok_def otel_def)

lemma and_then_keeps:
  assumes "and_then m f = (r, c')" "\<And>x c. m = (x, c) \<Longrightarrow> P c"
    and "\<And>a c y c'. m = (Inr a, c) \<Longrightarrow> P c \<Longrightarrow> f a c = (y, c') \<Longrightarrow> P c'"
  shows "P c'"
  using assms by (cases m; cases "fst m") auto

text \<open>However often it is called, each library and each engine is instrumented at most once.\<close>

lemma instrument_runtime_ok:
  assumes "instrument_runtime_libraries available fails engine st = (r, st')" "tracing_ok st"
  shows "tracing_ok st'"
proof -
  have k: "tracing_ok st1" if "instrument_once fails (ts_aiokafka_instrumented st) InstrumentKafka
      (ts_aiokafka_instrumented_update (\<lambda>_. True)) st = (x, st1)" for x st1
    using that assms(2) mark_kafka_ok [OF assms(2)] by (rule instrument_once_ok)
  have r: "tracing_ok st2" if "tracing_ok st1" "instrument_once fails (ts_redis_instrumented st1)
      InstrumentRedis (ts_redis_instrumented_update (\<lambda>_. True)) st1 = (x, st2)" for x st1 st2
    using that(2,1) mark_redis_ok [OF that(1)] by (rule instrument_once_ok)
  have e: "tracing_ok st2" if "tracing_ok st1" "instrument_once fails (eid \<in> ts_sqlalchemy_engines st1)
      (InstrumentEngine eid) (ts_sqlalchemy_engines_update (insert eid)) st1 = (x, st2)" for x st1 st2 eid
    using that(2,1) mark_engine_ok [OF that(1)] by (rule instrument_once_ok)
  show ?thesis
  proof (cases available)
    case True
    with assms(1) show ?thesis
      unfolding instrument_runtime_libraries_def
      by (auto elim!: and_then_keeps [where P = tracing_ok] intro: k r e assms(2) split: option.splits)
  qed (use assms in \<open>simp add: instrument_runtime_libraries_def\<close>)
qed

subsection \<open>Resources\<close>

record app_state =
  ap_engine :: bool
  ap_redis :: bool
  ap_publisher :: KafkaEventPublisher
  ap_relay :: OutboxRelay
  ap_consumer :: bool
  ap_tracing :: tracing_state
  ap_logging :: root_logger

text \<open>What the clients answer: an exception, or none.\<close>

record life_env =
  le_tracing_available :: bool
  le_otel :: "otel_call \<Rightarrow> py_exc option"
  le_engine_id :: int
  le_tracer_shutdown :: "py_exc option option"
  le_metrics_server :: "py_exc option"
  le_topics :: "unit res"
  le_publisher_start :: "py_exc option"
  le_publisher_stop :: "py_exc option"
  le_consumer_start :: "py_exc option"
  le_consumer_stop :: "py_exc option"
  le_redis_close :: "py_exc option"
  le_engine_dispose :: "py_exc option"

type_synonym life_step = "app_state \<Rightarrow> unit res \<times> app_state"

definition pure_step :: "(app_state \<Rightarrow> app_state) \<Rightarrow> life_step" where
  "pure_step f a = (Inr (), f a)"

definition client_step :: "py_exc option \<Rightarrow> (app_state \<Rightarrow> app_state) \<Rightarrow> life_step" where
  "client_step answer f a = (case answer of Some e \<Rightarrow> (Inl e, a) | None \<Rightarrow> (Inr (), f a))"

definition instrument_step :: "life_env \<Rightarrow> life_step" where
  "instrument_step env a =
     (let (r, ts) = instrument_runtime_libraries (le_tracing_available env) (le_otel env)
                      (Some (le_engine_id env)) (ap_tracing a)
      in (r, a\<lparr>ap_tracing := ts\<rparr>))"

definition tracing_step :: "life_env \<Rightarrow> Settings \<Rightarrow> life_step" where
  "tracing_step env s a =
     (Inr (), a\<lparr>ap_tracing := snd (setup_worker_tracing (le_tracing_available env) s (ap_tracing a))\<rparr>)"

definition shutdown_tracing_step :: "life_env \<Rightarrow> life_step" where
  "shutdown_tracing_step env a =
     (let (r, ts) = shutdown_tracing (le_tracing_available env) (le_tracer_shutdown env) (ap_tracing a)
      in (r, a\<lparr>ap_tracing := ts\<rparr>))"

definition logging_step :: "Settings \<Rightarrow> life_step" where
  "logging_step s a = (let (r, lg) = configure_logging s (ap_logging a) in (r, a\<lparr>ap_logging := lg\<rparr>))"

definition publisher_step ::
  "(KafkaEventPublisher \<Rightarrow> unit res \<times> KafkaEventPublisher) \<Rightarrow> life_step" where
  "publisher_step f a = (let (r, p) = f (ap_publisher a) in (r, a\<lparr>ap_publisher := p\<rparr>))"

fun run_steps :: "life_step list \<Rightarrow> life_step" where
  "run_steps [] a = (Inr (), a)"
| "run_steps (s # ss) a = and_then (s a) (\<lambda>_. run_steps ss)"

definition new_relay :: "Settings \<Rightarrow> OutboxRelay" where
  "new_relay s = relay_init (outbox_relay_batch_size s) (outbox_relay_poll_interval_seconds s)"

text \<open>What the API process and a worker open, in this order.\<close>

definition open_clients :: "life_env \<Rightarrow> Settings \<Rightarrow> life_step list" where
  "open_clients env s =
     [pure_step (ap_engine_update (\<lambda>_. True)),
      pure_step (ap_redis_update (\<lambda>_. True)),
      instrument_step env,
      (\<lambda>a. (le_topics env, a)),
      publisher_step (\<lambda>_. publisher_start (le_publisher_start env) publisher_init),
      pure_step (ap_relay_update (\<lambda>_. relay_start (new_relay s)))]"

definition lifespan_startup :: "life_env \<Rightarrow> Settings \<Rightarrow> life_step list" where
  "lifespan_startup env s = logging_step s # open_clients env s"

definition lifespan_shutdown :: "life_env \<Rightarrow> life_step list" where
  "lifespan_shutdown env =
     [pure_step (ap_relay_update relay_stop),
      publisher_step (publisher_stop (le_publisher_stop env)),
      client_step (le_redis_close env) (ap_redis_update (\<lambda>_. False)),
      client_step (le_engine_dispose env) (ap_engine_update (\<lambda>_. False)),
      shutdown_tracing_step env]"

definition worker_startup :: "life_env \<Rightarrow> Settings \<Rightarrow> life_step list" where
  "worker_startup env s =
     [logging_step s, tracing_step env s, client_step (le_metrics_server env) (\<lambda>a. a)] @ open_clients env s @
     [client_step (le_consumer_start env) (ap_consumer_update (\<lambda>_. True))]"

definition worker_shutdown :: "life_env \<Rightarrow> life_step list" where
  "worker_shutdown env =
     [pure_step (ap_relay_update relay_stop),
      publisher_step (publisher_stop (le_publisher_stop env)),
      client_step (le_consumer_stop env) (ap_consumer_update (\<lambda>_. False)),
      client_step (le_redis_close env) (ap_redis_update (\<lambda>_. False)),
      client_step (le_engine_dispose env) (ap_engine_update (\<lambda>_. False)),
      shutdown_tracing_step env]"

text \<open>
  The start runs before the \<open>try\<close>; \<open>body\<close> is how the served part ends. An exception of the clean-up
  replaces the body's.
\<close>

definition life_cycle :: "life_step list \<Rightarrow> life_step list \<Rightarrow> unit res \<Rightarrow> life_step" where
  "life_cycle startup shutdown body a =
     and_then (run_steps startup a) (\<lambda>_ a1. and_then (run_steps shutdown a1) (\<lambda>_ a2. (body, a2)))"

definition lifespan :: "life_env \<Rightarrow> Settings \<Rightarrow> unit res \<Rightarrow> life_step" where
  "lifespan env s = life_cycle (lifespan_startup env s) (lifespan_shutdown env)"

definition run_worker :: "life_env \<Rightarrow> Settings \<Rightarrow> unit res \<Rightarrow> life_step" where
  "run_worker env s = life_cycle (worker_startup env s) (worker_shutdown env)"

subsection \<open>The relay never runs without a started publisher\<close>

definition relay_served :: "app_state \<Rightarrow> bool" where
  "relay_served a \<longleftrightarrow> (rl_task (ap_relay a) \<longrightarrow> kp_started (ap_publisher a))"

definition root_init :: root_logger where
  "root_init = \<lparr>lg_handlers = [], lg_level = 30\<rparr>"

definition idle_app :: "Settings \<Rightarrow> app_state" where
  "idle_app s =
     \<lparr>ap_engine = False, ap_redis = False, ap_publisher = publisher_init, ap_relay = new_relay s,
      ap_consumer = False, ap_tracing = tracing_init, ap_logging = root_init\<rparr>"

lemma run_steps_append:
  "run_steps (xs @ ys) a = and_then (run_steps xs a) (\<lambda>_. run_steps ys)"
  by (induction xs arbitrary: a) (auto simp: and_then_def split: prod.splits sum.splits)

definition keeps :: "(app_state \<Rightarrow> bool) \<Rightarrow> life_step \<Rightarrow> bool" where
  "keeps P f \<longleftrightarrow> (\<forall>a r a'. f a = (r, a') \<longrightarrow> P a \<longrightarrow> P a')"

lemma run_steps_keeps:
  "list_all (keeps P) xs \<Longrightarrow> run_steps xs a = (r, a') \<Longrightarrow> P a \<Longrightarrow> P a'"
proof (induction xs arbitrary: a)
  case (Cons f xs)
  obtain x b where f: "f a = (x, b)" by fastforce
  with Cons.prems have "P b" by (auto simp: keeps_def)
  with Cons f show ?case by (cases x) auto
qed simp

abbreviation relay_off :: "app_state \<Rightarrow> bool" where
  "relay_off a \<equiv> \<not> rl_task (ap_relay a)"

abbreviation publisher_on :: "app_state \<Rightarrow> bool" where
  "publisher_on a \<equiv> kp_started (ap_publisher a)"

lemma keeps_relay_off:
  "keeps relay_off (pure_step (ap_engine_update f))" "keeps relay_off (pure_step (ap_redis_update f))"
  "keeps relay_off (pure_step (ap_relay_update relay_stop))"
  "keeps relay_off (instrument_step env)" "keeps relay_off (tracing_step env s)" "keeps relay_off (\<lambda>a. (x, a))"
  "keeps relay_off (publisher_step g)" "keeps relay_off (client_step y (ap_consumer_update h))"
  "keeps relay_off (client_step y (ap_redis_update h))" "keeps relay_off (client_step y (ap_engine_update h))"
  "keeps relay_off (client_step y (\<lambda>a. a))" "keeps relay_off (logging_step s)"
  "keeps relay_off (shutdown_tracing_step env)"
  by (auto simp: keeps_def logging_step_def shutdown_tracing_step_def pure_step_def instrument_step_def tracing_step_def publisher_step_def client_step_def relay_stop_def
        split: prod.splits option.splits if_splits)

lemma keeps_publisher_on:
  "keeps publisher_on (pure_step (ap_relay_update f))"
  "keeps publisher_on (client_step y (ap_consumer_update h))"
  by (auto simp: keeps_def pure_step_def client_step_def split: option.splits)

text \<open>
  At every point of the life of the API process or of a worker, also where a step has failed, the
  relay runs only while the publisher is started.
\<close>

lemma list_all_take: "list_all P xs \<Longrightarrow> list_all P (take n xs)"
  by (metis append_take_drop_id list_all_append)

lemma run_steps_take:
  assumes "run_steps (take n (xs @ ys)) a = (r, a')"
  shows "(\<exists>m. run_steps (take m xs) a = (r, a')) \<or>
    (\<exists>m b. run_steps xs a = (Inr (), b) \<and> run_steps (take m ys) b = (r, a'))"
proof (cases "n \<le> length xs")
  case True
  with assms show ?thesis by (auto intro!: exI [of _ n])
next
  case False
  obtain x b where b: "run_steps xs a = (x, b)" by fastforce
  with False assms have run: "and_then (x, b) (\<lambda>_. run_steps (take (n - length xs) ys)) = (r, a')"
    by (simp add: run_steps_append)
  show ?thesis
  proof (cases x)
    case (Inl e)
    with run b show ?thesis by (auto intro!: exI [of _ "length xs"])
  next
    case (Inr u)
    with run b show ?thesis by auto
  qed
qed

lemma run_steps_last: "run_steps (xs @ [f]) a = (Inr u, b) \<Longrightarrow> \<exists>c. f c = (Inr u, b)"
  unfolding run_steps_append by (auto simp: and_then_Inr)

lemma publisher_started:
  "publisher_step (\<lambda>_. publisher_start x p) c = (Inr u, b) \<Longrightarrow> publisher_on b"
  by (auto simp: publisher_step_def publisher_start_def split: option.splits)

lemma startup_relay_served:
  assumes "run_steps (take n (worker_startup env s)) (idle_app s) = (r, a)"
  shows "relay_served a"
proof -
  let ?first = "[logging_step s, tracing_step env s, client_step (le_metrics_server env) (\<lambda>a. a)] @
      take 4 (open_clients env s)"
  let ?start = "publisher_step (\<lambda>_. publisher_start (le_publisher_start env) publisher_init)"
  let ?rest = "[pure_step (ap_relay_update (\<lambda>_. relay_start (new_relay s))),
      client_step (le_consumer_start env) (ap_consumer_update (\<lambda>_. True))]"
  have all: "worker_startup env s = (?first @ [?start]) @ ?rest"
    by (simp add: worker_startup_def open_clients_def)
  have off: "list_all (keeps relay_off) (?first @ [?start])"
    by (simp add: worker_startup_def open_clients_def keeps_relay_off)
  have idle: "relay_off (idle_app s)" by (simp add: idle_app_def new_relay_def relay_init_def)
  have on: "publisher_on b" if "run_steps (?first @ [?start]) (idle_app s) = (Inr (), b)" for b
    using run_steps_last [OF that] publisher_started by blast
  have rest: "list_all (keeps publisher_on) (take m ?rest)" for m
    by (simp add: take_Cons' keeps_publisher_on)
  from run_steps_take [OF assms [unfolded all]] show ?thesis
  proof (elim disjE exE conjE)
    fix m assume run: "run_steps (take m (?first @ [?start])) (idle_app s) = (r, a)"
    from run_steps_keeps [OF list_all_take [OF off] run idle] show ?thesis by (simp add: relay_served_def)
  next
    fix m b
    assume b: "run_steps (?first @ [?start]) (idle_app s) = (Inr (), b)" and run: "run_steps (take m ?rest) b = (r, a)"
    from run_steps_keeps [OF rest run on [OF b]] show ?thesis by (simp add: relay_served_def)
  qed
qed

lemma shutdown_relay_served:
  assumes "run_steps (take n (worker_shutdown env)) a = (r, a')" "relay_served a"
  shows "relay_served a'"
proof (cases n)
  case (Suc m)
  let ?rest = "take m (tl (worker_shutdown env))"
  have "run_steps ?rest (ap_relay_update relay_stop a) = (r, a')"
    using assms(1) Suc by (simp add: worker_shutdown_def pure_step_def)
  moreover have "list_all (keeps relay_off) ?rest"
    by (simp add: worker_shutdown_def take_Cons' keeps_relay_off)
  moreover have "relay_off (ap_relay_update relay_stop a)" by (simp add: relay_stop_def)
  ultimately have "relay_off a'" by (metis run_steps_keeps)
  then show ?thesis by (simp add: relay_served_def)
qed (use assms in simp)

subsection \<open>What a worker releases, and what it does not\<close>

text \<open>The clients before the consumer can be opened; all clients can be closed; the log level is a level.\<close>

definition opens :: "life_env \<Rightarrow> bool" where
  "opens env \<longleftrightarrow>
     le_otel env = (\<lambda>_. None) \<and> le_metrics_server env = None \<and> le_topics env = Inr () \<and>
     le_publisher_start env = None"

definition closes :: "life_env \<Rightarrow> bool" where
  "closes env \<longleftrightarrow>
     le_publisher_stop env = None \<and> le_consumer_stop env = None \<and> le_redis_close env = None \<and>
     le_engine_dispose env = None \<and> le_tracer_shutdown env \<in> {None, Some None}"

definition level_ok :: "Settings \<Rightarrow> bool" where
  "level_ok s \<longleftrightarrow> logging_attribute (log_upper (log_level s)) \<notin> {Some BasicFormat, Some Styles}"

definition all_open :: "app_state \<Rightarrow> bool" where
  "all_open a \<longleftrightarrow> ap_engine a \<and> ap_redis a \<and> kp_started (ap_publisher a) \<and> rl_task (ap_relay a)"

definition all_closed :: "app_state \<Rightarrow> bool" where
  "all_closed a \<longleftrightarrow>
     \<not> ap_engine a \<and> \<not> ap_redis a \<and> \<not> kp_started (ap_publisher a) \<and> \<not> rl_task (ap_relay a) \<and> \<not> ap_consumer a"

text \<open>These steps change nothing but their own field.\<close>

lemma logging_step_ok:
  "level_ok s \<Longrightarrow> logging_step s a = (Inr (), a\<lparr>ap_logging := snd (configure_logging s (ap_logging a))\<rparr>)"
  by (auto simp: logging_step_def configure_logging_def basic_config_def level_ok_def Let_def
        split: option.splits log_attr.splits)

lemma instrument_step_ok:
  "opens env \<Longrightarrow> instrument_step env a = (Inr (), a\<lparr>ap_tracing := snd (instrument_runtime_libraries
     (le_tracing_available env) (le_otel env) (Some (le_engine_id env)) (ap_tracing a))\<rparr>)"
  by (simp add: instrument_step_def opens_def instrument_runtime_libraries_def instrument_once_def)

lemma shutdown_tracing_ok:
  "closes env \<Longrightarrow> shutdown_tracing_step env a = (Inr (), a\<lparr>ap_tracing :=
     snd (shutdown_tracing (le_tracing_available env) (le_tracer_shutdown env) (ap_tracing a))\<rparr>)"
  by (auto simp: shutdown_tracing_step_def closes_def shutdown_tracing_def)

lemma clients_opened:
  assumes "opens env"
  obtains a' where "run_steps (open_clients env s) a = (Inr (), a')" "all_open a'" "ap_consumer a' = ap_consumer a"
proof -
  obtain x a' where run: "run_steps (open_clients env s) a = (x, a')" by fastforce
  then have "x = Inr () \<and> all_open a' \<and> ap_consumer a' = ap_consumer a"
    using instrument_step_ok [OF assms] assms
    by (auto simp: open_clients_def pure_step_def publisher_step_def publisher_start_def publisher_init_def
          relay_start_def new_relay_def relay_init_def opens_def all_open_def)
  with run that show thesis by blast
qed

lemma worker_started:
  assumes "opens env" "level_ok s"
  obtains a where "all_open a" "\<not> ap_consumer a"
    "run_steps (worker_startup env s) (idle_app s) =
       client_step (le_consumer_start env) (ap_consumer_update (\<lambda>_. True)) a"
proof -
  note lg = logging_step_ok [OF assms(2), of "idle_app s"]
  let ?a = "snd (tracing_step env s (snd (logging_step s (idle_app s))))"
  obtain a where a: "run_steps (open_clients env s) ?a = (Inr (), a)" "all_open a" "ap_consumer a = ap_consumer ?a"
    by (rule clients_opened [OF assms(1)])
  have off: "\<not> ap_consumer ?a" unfolding lg by (simp add: tracing_step_def idle_app_def)
  have "run_steps (worker_startup env s) (idle_app s) =
      client_step (le_consumer_start env) (ap_consumer_update (\<lambda>_. True)) a"
    using a(1) assms(1) lg
    by (cases "le_consumer_start env")
       (simp_all add: worker_startup_def run_steps_append opens_def tracing_step_def client_step_def)
  with a off show thesis by (intro that) simp_all
qed

lemma worker_stopped:
  assumes "closes env"
  obtains a' where "run_steps (worker_shutdown env) a = (Inr (), a')" "all_closed a'"
proof -
  obtain x a' where run: "run_steps (worker_shutdown env) a = (x, a')" by fastforce
  then have "x = Inr () \<and> all_closed a'"
    using shutdown_tracing_ok [OF assms] assms
    by (auto simp: worker_shutdown_def pure_step_def publisher_step_def publisher_stop_def client_step_def
          relay_stop_def closes_def all_closed_def split: prod.splits if_splits)
  with run that show thesis by blast
qed

text \<open>When no client refuses, a worker releases everything it has opened and ends as its body did.\<close>

lemma run_worker_releases:
  assumes "opens env" "closes env" "level_ok s" "le_consumer_start env = None"
    and "run_worker env s body (idle_app s) = (r, a)"
  shows "r = body \<and> all_closed a"
proof -
  obtain b where b: "run_steps (worker_startup env s) (idle_app s) =
      client_step (le_consumer_start env) (ap_consumer_update (\<lambda>_. True)) b"
    by (rule worker_started [OF assms(1,3)])
  obtain c where "run_steps (worker_shutdown env) (b\<lparr>ap_consumer := True\<rparr>) = (Inr (), c)" "all_closed c"
    by (rule worker_stopped [OF assms(2)])
  with b assms(4,5) show ?thesis by (simp add: run_worker_def life_cycle_def client_step_def)
qed

text \<open>
  C39: A worker that cannot start leaks what it has opened. The clients are opened before the \<open>try\<close>, so when
  the Kafka consumer refuses to start, \<open>run_worker\<close> ends with that exception while the relay task is
  still running, the publisher is still started, and the database engine and the Redis connection
  are still open; the same clients are all closed when the consumer starts.
\<close>

theorem failed_start_leaks:
  assumes "opens env" "closes env" "level_ok s"
    and "run_worker env s body (idle_app s) = (r, a)"
  shows "case le_consumer_start env of
      Some e \<Rightarrow> r = Inl e \<and> all_open a
    | None \<Rightarrow> r = body \<and> all_closed a"
proof (cases "le_consumer_start env")
  case None
  with run_worker_releases [OF assms(1-3) None assms(4)] show ?thesis by simp
next
  case (Some e)
  obtain b where b: "all_open b" "run_steps (worker_startup env s) (idle_app s) =
      client_step (le_consumer_start env) (ap_consumer_update (\<lambda>_. True)) b"
    by (rule worker_started [OF assms(1,3)])
  with Some assms(4) show ?thesis by (simp add: run_worker_def life_cycle_def client_step_def)
qed

definition refusing_consumer :: life_env where
  "refusing_consumer =
     \<lparr>le_tracing_available = True, le_otel = (\<lambda>_. None), le_engine_id = 1, le_tracer_shutdown = Some None,
      le_metrics_server = None, le_topics = Inr (), le_publisher_start = None, le_publisher_stop = None,
      le_consumer_start = Some (PyExc ''KafkaConnectionError'' ''no broker''), le_consumer_stop = None,
      le_redis_close = None, le_engine_dispose = None\<rparr>"

theorem failed_start_leaks_witness:
  "\<exists>a. run_worker refusing_consumer default_settings (Inr ()) (idle_app default_settings)
       = (Inl (PyExc ''KafkaConnectionError'' ''no broker''), a)
     \<and> rl_task (ap_relay a) \<and> kp_started (ap_publisher a)"
proof -
  obtain r a where run: "run_worker refusing_consumer default_settings (Inr ()) (idle_app default_settings) = (r, a)"
    by fastforce
  have "opens refusing_consumer" "closes refusing_consumer" "level_ok default_settings"
    by (simp_all add: opens_def closes_def refusing_consumer_def level_ok_def default_settings_def
          logging_attribute_def ascii_upper_def)
  from failed_start_leaks [OF this run] run show ?thesis
    by (simp add: refusing_consumer_def all_open_def)
qed

end
