(* ===== verification/Load_Script.thy ===== *)
theory Load_Script
  imports Py_Value
begin

section \<open>The load script\<close>

text \<open>
  \<open>scripts/run_k6_load.py\<close>: the list of virtual-user counts, the output files and the commands it
  runs. What \<open>docker\<close> does is a parameter (the exception of \<open>subprocess.run\<close>, if any); printing and
  the creation of the output directory are left out.
\<close>

fun split_on :: "char \<Rightarrow> string \<Rightarrow> string list" where
  "split_on c [] = [[]]"
| "split_on c (x # xs) =
     (if x = c then [] # split_on c xs
      else (case split_on c xs of [] \<Rightarrow> [[x]] | y # ys \<Rightarrow> (x # y) # ys))"

text \<open>The text of the error is exact for tokens that \<open>repr\<close> leaves as they are.\<close>

definition int_literal :: "string \<Rightarrow> int res" where
  "int_literal token =
     (case py_int token of
        None \<Rightarrow> Inl (PyExc ''ValueError'' (''invalid literal for int() with base 10: '' @ quoted token))
      | Some n \<Rightarrow> Inr n)"

fun parse_tokens :: "string list \<Rightarrow> int list res" where
  "parse_tokens [] = Inr []"
| "parse_tokens (raw # rest) =
     (let token = py_strip raw
      in if token = [] then parse_tokens rest
         else bind_res (int_literal token) (\<lambda>value.
                if value \<le> 0
                then Inl (PyExc ''ValueError'' (''VUS must be positive: '' @ str_int value))
                else bind_res (parse_tokens rest) (\<lambda>values. Inr (value # values))))"

definition parse_vus :: "string \<Rightarrow> int list res" where
  "parse_vus raw =
     bind_res (parse_tokens (split_on (CHR '','') raw)) (\<lambda>values.
       if values = [] then Inl (PyExc ''ValueError'' ''At least one VUS value is required'')
       else Inr values)"

text \<open>The output directory is absolute and not the root, the label has no path separator.\<close>

definition build_output_path :: "string \<Rightarrow> string \<Rightarrow> int \<Rightarrow> string" where
  "build_output_path out_dir mode_label vus =
     (let suffix = (if mode_label \<noteq> [] then ''_'' @ mode_label else [])
      in out_dir @ ''/k6'' @ suffix @ ''_vus'' @ str_int vus @ ''.json'')"

record load_args =
  la_vus :: string
  la_duration :: string
  la_base_url :: string
  la_mode_label :: string
  la_script :: string
  la_k6_image :: string

definition default_load_args :: load_args where
  "default_load_args =
     \<lparr>la_vus = ''20,'', la_duration = ''1m'', la_base_url = ''http://host.docker.internal:8000'',
      la_mode_label = [], la_script = ''../tests/perf/jobs_load_test.js'', la_k6_image = ''grafana/k6''\<rparr>"

definition load_command :: "string \<Rightarrow> string \<Rightarrow> load_args \<Rightarrow> int \<Rightarrow> string list" where
  "load_command repo_root out_dir a vus =
     [''docker'', ''run'', ''--rm'', ''-v'', repo_root @ '':/work'', ''-w'', ''/work'', la_k6_image a,
      ''run'', la_script a, ''-e'', ''BASE_URL='' @ la_base_url a, ''-e'', ''VUS='' @ str_int vus,
      ''-e'', ''DURATION='' @ la_duration a, ''--summary-export'',
      build_output_path out_dir (la_mode_label a) vus]"

text \<open>The loop: the commands run so far, and how it ended.\<close>

fun run_loads :: "(string list \<Rightarrow> py_exc option) \<Rightarrow> string list list \<Rightarrow> string list list \<times> int res" where
  "run_loads docker [] = ([], Inr 0)"
| "run_loads docker (cmd # cmds) =
     (case docker cmd of
        Some e \<Rightarrow> ([cmd], Inl e)
      | None \<Rightarrow> (let (ran, r) = run_loads docker cmds in (cmd # ran, r)))"

definition load_main ::
  "(string list \<Rightarrow> py_exc option) \<Rightarrow> string \<Rightarrow> string \<Rightarrow> load_args \<Rightarrow> string list list \<times> int res" where
  "load_main docker repo_root out_dir a =
     (case parse_vus (la_vus a) of
        Inl e \<Rightarrow> ([], Inl e)
      | Inr vs \<Rightarrow> run_loads docker (map (load_command repo_root out_dir a) vs))"

subsection \<open>Lemmas\<close>

lemma parse_tokens_positive: "parse_tokens ts = Inr vs \<Longrightarrow> v \<in> set vs \<Longrightarrow> 0 < v"
  by (induction ts arbitrary: vs) (auto simp: Let_def split: if_splits)

lemma parse_vus_positive: "parse_vus raw = Inr vs \<Longrightarrow> vs \<noteq> [] \<and> (\<forall>v \<in> set vs. 0 < v)"
  by (auto simp: parse_vus_def dest: parse_tokens_positive split: if_splits)

lemma split_on_none: "c \<notin> set s \<Longrightarrow> split_on c s = [s]"
  by (induction s) auto

lemma split_on_append: "c \<notin> set s \<Longrightarrow> split_on c (s @ c # rest) = s # split_on c rest"
  by (induction s) (auto split: list.splits)

definition short_count :: "int \<Rightarrow> bool" where
  "short_count v \<longleftrightarrow> 0 < v \<and> length (nat_str (nat v)) \<le> 4300"

lemma str_int_no_comma: "0 < v \<Longrightarrow> CHR '','' \<notin> set (str_int v)"
  using nat_str_digits [of "nat v"]
  by (auto simp: str_int_def list_all_iff is_digit_def byte_in_def)

lemma str_int_count:
  assumes "short_count v"
  shows "py_strip (str_int v) = str_int v" "str_int v \<noteq> []" "int_literal (str_int v) = Inr v"
proof -
  have v: "str_int v = nat_str (nat v)" using assms by (simp add: str_int_def short_count_def)
  show "py_strip (str_int v) = str_int v"
    unfolding v using nat_str_plain by (intro py_strip_plain) simp_all
  show "str_int v \<noteq> []" by (simp add: v)
  show "int_literal (str_int v) = Inr v"
    using assms by (simp add: int_literal_def py_int_str_int short_count_def)
qed

fun comma_list :: "int list \<Rightarrow> string" where
  "comma_list [] = []"
| "comma_list [v] = str_int v"
| "comma_list (v # vs) = str_int v @ CHR '','' # comma_list vs"

lemma split_comma_list:
  "vs \<noteq> [] \<Longrightarrow> list_all short_count vs \<Longrightarrow> split_on (CHR '','') (comma_list vs) = map str_int vs"
  by (induction vs rule: comma_list.induct)
     (simp_all add: split_on_none split_on_append str_int_no_comma short_count_def)

lemma parse_tokens_counts: "list_all short_count vs \<Longrightarrow> parse_tokens (map str_int vs) = Inr vs"
  by (induction vs) (auto simp: str_int_count short_count_def Let_def)

text \<open>A comma-separated list of counts is read back.\<close>

lemma parse_vus_roundtrip:
  "vs \<noteq> [] \<Longrightarrow> list_all short_count vs \<Longrightarrow> parse_vus (comma_list vs) = Inr vs"
  by (simp add: parse_vus_def split_comma_list parse_tokens_counts)

text \<open>Different counts write different files.\<close>

lemma output_path_inj:
  assumes "short_count v" "short_count v'"
  shows "build_output_path out lbl v = build_output_path out lbl v' \<longleftrightarrow> v = v'"
  using assms str_int_count(3) by (auto simp: build_output_path_def Let_def) (metis sum.inject(2))

text \<open>The loop stops at the first command that fails; with none failing it runs them all.\<close>

lemma run_loads_all: "list_all (\<lambda>c. docker c = None) cmds \<Longrightarrow> run_loads docker cmds = (cmds, Inr 0)"
  by (induction cmds) auto

lemma run_loads_fail:
  "list_all (\<lambda>c. docker c = None) cmds \<Longrightarrow> docker c = Some e \<Longrightarrow>
     run_loads docker (cmds @ c # rest) = (cmds @ [c], Inl e)"
  by (induction cmds) auto

lemma load_main_invalid: "parse_vus (la_vus a) = Inl e \<Longrightarrow> load_main docker repo out a = ([], Inl e)"
  by (simp add: load_main_def)

end
