(* ===== verification/Custody.thy ===== *)
theory Custody
  imports End_To_End
begin

section \<open>The whole deployment: no job is lost\<close>

text \<open>
  API processes, relays and unified workers around one database and one Kafka cluster. The records
  Kafka has acknowledged are numbered in the order of acknowledgement; a partitioner (\<open>dp_part\<close>) puts
  each of them in a partition of its topic, where its number serves as its offset. A consumer that has
  a partition takes its records in order from its position; a handler runs in stages, between which
  anything else may happen. When a partition is taken away, by a rebalance, a crash or a restart, the
  next consumer starts at the committed offset. The old one may go on as long as it lives, with the
  record it handles and with the records it has polled and not yet handled, but it can no longer
  commit: \<open>cl_stale\<close> are the records such consumers still have in their hands.

  A worker may be so late with those that the lease of the handler that has the record now has run out,
  and take the job from it. \<open>dp_prompt\<close> says of a deployment that this does not happen.
\<close>

datatype stage = Working service JobLease | Failing "string option"

record work =
  wk_place :: nat
  wk_assigned :: bool
  wk_stage :: stage

record cluster =
  cl_world :: world
  cl_committed :: "topic_partition \<Rightarrow> nat"
  cl_position :: "topic_partition \<Rightarrow> nat"
  cl_work :: "nat \<rightharpoonup> work"
  cl_stale :: "nat set"

record deployment =
  dp_ext :: externals
  dp_cfg :: Settings
  dp_part :: "nat \<Rightarrow> int"
  dp_prompt :: bool

abbreviation cl_db :: "cluster \<Rightarrow> db" where
  "cl_db c \<equiv> wdb (cl_world c)"

abbreviation cl_log :: "cluster \<Rightarrow> kafka_record list" where
  "cl_log c \<equiv> acked (cl_world c)"

definition partition_of :: "deployment \<Rightarrow> cluster \<Rightarrow> nat \<Rightarrow> topic_partition" where
  "partition_of dp c n = (kr_topic (cl_log c ! n), dp_part dp n)"

definition message_at :: "deployment \<Rightarrow> cluster \<Rightarrow> nat \<Rightarrow> ConsumerRecord" where
  "message_at dp c n = redelivered (dp_part dp n) (int n) (cl_log c ! n)"

text \<open>The record a consumer of the partition reads next.\<close>

definition next_in :: "deployment \<Rightarrow> cluster \<Rightarrow> nat \<Rightarrow> bool" where
  "next_in dp c n \<longleftrightarrow>
     n < length (cl_log c) \<and> cl_position c (partition_of dp c n) \<le> n
     \<and> (\<forall>j < n. cl_position c (partition_of dp c n) \<le> j \<longrightarrow> partition_of dp c j \<noteq> partition_of dp c n)"

definition idle :: "deployment \<Rightarrow> cluster \<Rightarrow> topic_partition \<Rightarrow> bool" where
  "idle dp c tp \<longleftrightarrow>
     (\<forall>i wk. cl_work c i = Some wk \<longrightarrow> wk_assigned wk \<longrightarrow> partition_of dp c (wk_place wk) \<noteq> tp)"

definition with_db :: "db \<Rightarrow> cluster \<Rightarrow> cluster" where
  "with_db d c = c\<lparr>cl_world := (cl_world c)\<lparr>wdb := d\<rparr>\<rparr>"

definition pass_on :: "deployment \<Rightarrow> nat \<Rightarrow> cluster \<Rightarrow> cluster" where
  "pass_on dp n c = c\<lparr>cl_position := (cl_position c)(partition_of dp c n := Suc n)\<rparr>"

definition set_work :: "nat \<Rightarrow> work option \<Rightarrow> cluster \<Rightarrow> cluster" where
  "set_work i x c = c\<lparr>cl_work := (cl_work c)(i := x)\<rparr>"

text \<open>A handler returns: the consumer goes on behind its record, if the partition is still its own.\<close>

definition finished :: "deployment \<Rightarrow> nat \<Rightarrow> work \<Rightarrow> cluster \<Rightarrow> cluster" where
  "finished dp i wk c =
     (let c1 = set_work i None c in if wk_assigned wk then pass_on dp (wk_place wk) c1 else c1)"

definition taken_up :: "deployment \<Rightarrow> service \<Rightarrow> nat \<Rightarrow> nat \<Rightarrow> claim_result res \<Rightarrow> cluster \<Rightarrow> cluster" where
  "taken_up dp svc i n r c =
     (case r of
        Inl _ \<Rightarrow> c
      | Inr (Finished b msg) \<Rightarrow>
          if b then pass_on dp n c
          else set_work i (Some \<lparr>wk_place = n, wk_assigned = True, wk_stage = Failing msg\<rparr>) c
      | Inr (Claimed l) \<Rightarrow>
          set_work i (Some \<lparr>wk_place = n, wk_assigned = True, wk_stage = Working svc l\<rparr>) c)"

text \<open>The same for a record of a partition the worker has lost: the position is not its own to move.\<close>

definition late_taken_up :: "service \<Rightarrow> nat \<Rightarrow> nat \<Rightarrow> claim_result res \<Rightarrow> cluster \<Rightarrow> cluster" where
  "late_taken_up svc i n r c =
     (case r of
        Inl _ \<Rightarrow> c
      | Inr (Finished b msg) \<Rightarrow>
          if b then c
          else set_work i (Some \<lparr>wk_place = n, wk_assigned = False, wk_stage = Failing msg\<rparr>) c
      | Inr (Claimed l) \<Rightarrow>
          set_work i (Some \<lparr>wk_place = n, wk_assigned = False, wk_stage = Working svc l\<rparr>) c)"

text \<open>\<open>ns\<close> are the records of the partition the old consumer has polled and not yet handled.\<close>

definition polled_ahead :: "deployment \<Rightarrow> topic_partition \<Rightarrow> nat set \<Rightarrow> cluster \<Rightarrow> bool" where
  "polled_ahead dp tp ns c \<longleftrightarrow>
     (\<forall>n \<in> ns. n < length (cl_log c) \<and> partition_of dp c n = tp \<and> cl_position c tp \<le> n)"

definition taken_away :: "deployment \<Rightarrow> topic_partition \<Rightarrow> nat set \<Rightarrow> cluster \<Rightarrow> cluster" where
  "taken_away dp tp ns c =
     c\<lparr>cl_position := (cl_position c)(tp := cl_committed c tp), cl_stale := cl_stale c \<union> ns,
       cl_work := (\<lambda>i. map_option (\<lambda>wk. if partition_of dp c (wk_place wk) = tp
                                         then wk\<lparr>wk_assigned := False\<rparr> else wk) (cl_work c i))\<rparr>"

abbreviation dp_topics :: "deployment \<Rightarrow> topics" where
  "dp_topics dp \<equiv> worker_topics (dp_cfg dp)"

text \<open>The job a value names.\<close>

definition for_job :: "string \<Rightarrow> pyval \<Rightarrow> bool" where
  "for_job k v \<longleftrightarrow> py_getitem v ''job_id'' = Inr (PStr k)"

text \<open>The job is still held under the lease.\<close>

definition held :: "db \<Rightarrow> string \<Rightarrow> service \<Rightarrow> JobLease \<Rightarrow> bool" where
  "held d k svc l \<longleftrightarrow>
     (\<exists>r. jobs d k = Some r \<and> jm_status r = status_value PROCESSING
        \<and> jm_lease_owner r = Some (svc_worker_id svc) \<and> jm_lease_epoch r = lease_epoch l)"

text \<open>A handler that has its partition works on the job of the record \<open>n\<close> and holds it.\<close>

definition contested :: "cluster \<Rightarrow> nat \<Rightarrow> bool" where
  "contested c n \<longleftrightarrow>
     (\<exists>i wk svc l k. cl_work c i = Some wk \<and> wk_assigned wk \<and> wk_stage wk = Working svc l
        \<and> for_job k (kr_value (cl_log c ! wk_place wk)) \<and> for_job k (kr_value (cl_log c ! n))
        \<and> held (cl_db c) k svc l)"

text \<open>The answer of the role, for the rest of \<open>_handle_message\<close>.\<close>

definition answers :: "string option \<Rightarrow> pyval \<Rightarrow> world \<Rightarrow> handled \<times> world" where
  "answers err v w = (Inr (False, err), w)"

text \<open>
  Requests commit their transaction or not; a relay sends rows of the outbox, as often as it likes and
  possibly without hearing of it, and marks those it has sent; a worker takes up the next record of a
  partition with its claim, or, late, a record of a partition it has lost, and goes on to record success
  or failure and to pass a failure on; those who are late die or are done with their records. \<open>heard\<close>
  tells whether the acknowledgement of that last send reached the worker.
\<close>

inductive cluster_step :: "deployment \<Rightarrow> cluster \<Rightarrow> cluster \<Rightarrow> bool" for dp where
  request: "run_session f (create_block (container_job_service (dp_cfg dp)) env payload) (cl_db c) = (r, d) \<Longrightarrow>
    cluster_step dp c (with_db d c)"
| send: "row \<in> set (outbox_messages (cl_db c)) \<Longrightarrow>
    publish (dp_ext dp) (ob_topic row) (ob_payload row) (ob_headers row) (cl_world c) = (r, w) \<Longrightarrow>
    cluster_step dp c (c\<lparr>cl_world := w\<rparr>)"
| send_unheard: "row \<in> set (outbox_messages (cl_db c)) \<Longrightarrow>
    cluster_step dp c (c\<lparr>cl_world := (cl_world c)\<lparr>acked := cl_log c @ [wire_record (item_of_row row)]\<rparr>\<rparr>)"
| mark: "\<forall>row \<in> set (outbox_messages (cl_db c)). ob_id row \<in> set ids \<longrightarrow>
      wire_record (item_of_row row) \<in> set (cl_log c) \<Longrightarrow>
    cluster_step dp c (with_db (mark_published now ids (cl_db c)) c)"
| mark_failure: "cluster_step dp c (with_db (mark_failed oid err (cl_db c)) c)"
| skip: "next_in dp c n \<Longrightarrow> idle dp c (partition_of dp c n) \<Longrightarrow>
    skipped (dp_topics dp) (message_at dp c n) \<Longrightarrow>
    cluster_step dp c (pass_on dp n c)"
| take_up: "next_in dp c n \<Longrightarrow> idle dp c (partition_of dp c n) \<Longrightarrow> cl_work c i = None \<Longrightarrow>
    kr_topic (cl_log c ! n) \<in> {consume_topic (dp_topics dp), retry_topic (dp_topics dp)} \<Longrightarrow>
    \<not> skipped (dp_topics dp) (message_at dp c n) \<Longrightarrow>
    py_getitem (kr_value (cl_log c ! n)) ''job_id'' = Inr jid \<Longrightarrow>
    py_getitem (kr_value (cl_log c ! n)) ''trace_id'' = Inr tid \<Longrightarrow>
    run_session f (claim_block ''worker'' svc env jid tid) (cl_db c) = (r, d) \<Longrightarrow>
    cluster_step dp c (taken_up dp svc i n r (with_db d c))"
| finish: "cl_work c i = Some wk \<Longrightarrow> wk_stage wk = Working svc l \<Longrightarrow>
    py_getitem (kr_value (cl_log c ! wk_place wk)) ''job_id'' = Inr jid \<Longrightarrow>
    py_getitem (kr_value (cl_log c ! wk_place wk)) ''trace_id'' = Inr tid \<Longrightarrow>
    run_session f (success_block svc env jid tid l result) (cl_db c) = (r, d) \<Longrightarrow>
    cluster_step dp c (case r of Inl _ \<Rightarrow> with_db d c | Inr _ \<Rightarrow> finished dp i wk (with_db d c))"
| give_up: "cl_work c i = Some wk \<Longrightarrow> wk_stage wk = Working svc l \<Longrightarrow>
    py_getitem (kr_value (cl_log c ! wk_place wk)) ''job_id'' = Inr jid \<Longrightarrow>
    py_getitem (kr_value (cl_log c ! wk_place wk)) ''trace_id'' = Inr tid \<Longrightarrow>
    run_session f (failure_block ''worker'' svc env jid tid l exc) (cl_db c) = (r, d) \<Longrightarrow>
    cluster_step dp c (set_work i
      (case r of Inl _ \<Rightarrow> None | Inr _ \<Rightarrow> Some (wk\<lparr>wk_stage := Failing (Some (exc_str exc))\<rparr>)) (with_db d c))"
| pass_failure: "cl_work c i = Some wk \<Longrightarrow> wk_stage wk = Failing err \<Longrightarrow>
    handle_message (dp_ext dp) (dp_cfg dp) (dp_topics dp) (answers err) (message_at dp c (wk_place wk))
      (cl_world c) = (r, w) \<Longrightarrow>
    cluster_step dp c
      (if r = Inr () \<and> heard then finished dp i wk (c\<lparr>cl_world := w\<rparr>)
       else set_work i None (c\<lparr>cl_world := w\<rparr>))"
| commit: "cl_committed c tp \<le> n \<Longrightarrow> n \<le> cl_position c tp \<Longrightarrow>
    cluster_step dp c (c\<lparr>cl_committed := (cl_committed c)(tp := n)\<rparr>)"
| take_away: "polled_ahead dp tp ns c \<Longrightarrow> cluster_step dp c (taken_away dp tp ns c)"
| late_claim: "n \<in> cl_stale c \<Longrightarrow> n < length (cl_log c) \<Longrightarrow> cl_work c i = None \<Longrightarrow>
    kr_topic (cl_log c ! n) \<in> {consume_topic (dp_topics dp), retry_topic (dp_topics dp)} \<Longrightarrow>
    \<not> skipped (dp_topics dp) (message_at dp c n) \<Longrightarrow>
    py_getitem (kr_value (cl_log c ! n)) ''job_id'' = Inr jid \<Longrightarrow>
    py_getitem (kr_value (cl_log c ! n)) ''trace_id'' = Inr tid \<Longrightarrow>
    run_session f (claim_block ''worker'' svc env jid tid) (cl_db c) = (r, d) \<Longrightarrow>
    dp_prompt dp \<longrightarrow> contested c n \<longrightarrow> d = cl_db c \<Longrightarrow>
    cluster_step dp c (late_taken_up svc i n r (with_db d c))"
| die: "cl_work c i = Some wk \<Longrightarrow> \<not> wk_assigned wk \<Longrightarrow> cluster_step dp c (set_work i None c)"
| drop_stale: "ns \<subseteq> cl_stale c \<Longrightarrow> cluster_step dp c (c\<lparr>cl_stale := ns\<rparr>)"
| tick: "wdb w = cl_db c \<Longrightarrow> acked w = cl_log c \<Longrightarrow> cluster_step dp c (c\<lparr>cl_world := w\<rparr>)"

definition fresh_cluster :: cluster where
  "fresh_cluster = \<lparr>cl_world = sample_world empty_db, cl_committed = (\<lambda>_. 0), cl_position = (\<lambda>_. 0),
                    cl_work = Map.empty, cl_stale = {}\<rparr>"

subsection \<open>Custody\<close>

text \<open>The worker topic a record is meant for.\<close>

definition origin_header :: "kafka_record \<Rightarrow> string option" where
  "origin_header rec = map_of (decode_headers (m_headers (redelivered 0 0 rec))) ORIGINAL_TOPIC_HEADER"

definition addressed :: "topics \<Rightarrow> kafka_record \<Rightarrow> bool" where
  "addressed tps rec \<longleftrightarrow>
     kr_topic rec = consume_topic tps \<and> origin_header rec \<in> {None, Some (consume_topic tps)}
     \<or> kr_topic rec = retry_topic tps \<and> origin_header rec = Some (consume_topic tps)"

text \<open>The record is in the hands of a worker whose lease on its job is gone.\<close>

definition forsaken :: "cluster \<Rightarrow> string \<Rightarrow> nat \<Rightarrow> bool" where
  "forsaken c k n \<longleftrightarrow>
     (\<exists>i wk svc l. cl_work c i = Some wk \<and> wk_place wk = n \<and> wk_assigned wk
        \<and> wk_stage wk = Working svc l \<and> \<not> held (cl_db c) k svc l)"

definition deliverable :: "deployment \<Rightarrow> cluster \<Rightarrow> string \<Rightarrow> nat \<Rightarrow> bool" where
  "deliverable dp c k n \<longleftrightarrow>
     n < length (cl_log c) \<and> addressed (dp_topics dp) (cl_log c ! n) \<and> for_job k (kr_value (cl_log c ! n))
     \<and> cl_position c (partition_of dp c n) \<le> n \<and> \<not> forsaken c k n"

definition unsent :: "cluster \<Rightarrow> string \<Rightarrow> bool" where
  "unsent c k \<longleftrightarrow>
     (\<exists>row \<in> set (outbox_messages (cl_db c)). for_job k (kr_value (wire_record (item_of_row row)))
        \<and> wire_record (item_of_row row) \<notin> set (cl_log c))"

definition dead_lettered :: "deployment \<Rightarrow> cluster \<Rightarrow> string \<Rightarrow> bool" where
  "dead_lettered dp c k \<longleftrightarrow>
     (\<exists>rec \<in> set (cl_log c). kr_topic rec = kafka_dlq_topic (dp_cfg dp) \<and> for_job k (kr_value rec))"

definition kept :: "deployment \<Rightarrow> cluster \<Rightarrow> string \<Rightarrow> bool" where
  "kept dp c k \<longleftrightarrow>
     succeeded (cl_db c) k \<or> unsent c k \<or> dead_lettered dp c k \<or> (\<exists>n. deliverable dp c k n)"

subsection \<open>The invariant\<close>

definition record_ok :: "deployment \<Rightarrow> cluster \<Rightarrow> kafka_record \<Rightarrow> bool" where
  "record_ok dp c rec \<longleftrightarrow>
     (kr_topic rec = consume_topic (dp_topics dp) \<longrightarrow>
        origin_header rec \<in> {None, Some (consume_topic (dp_topics dp))})
     \<and> (kr_topic rec = retry_topic (dp_topics dp) \<longrightarrow> origin_header rec \<noteq> None)
     \<and> (\<exists>k. for_job k (kr_value rec) \<and> jobs (cl_db c) k \<noteq> None)"

definition row_sound :: "deployment \<Rightarrow> cluster \<Rightarrow> OutboxMessageModel \<Rightarrow> bool" where
  "row_sound dp c row \<longleftrightarrow>
     record_ok dp c (wire_record (item_of_row row))
     \<and> addressed (dp_topics dp) (wire_record (item_of_row row))
     \<and> kr_topic (wire_record (item_of_row row)) = consume_topic (dp_topics dp)
     \<and> (\<not> is_pending row \<longrightarrow> wire_record (item_of_row row) \<in> set (cl_log c))"

text \<open>The handlers: where they stand, and which epochs they have.\<close>

definition work_ok :: "deployment \<Rightarrow> cluster \<Rightarrow> work \<Rightarrow> bool" where
  "work_ok dp c wk \<longleftrightarrow>
     wk_place wk < length (cl_log c) \<and> addressed (dp_topics dp) (cl_log c ! wk_place wk)
     \<and> (wk_assigned wk \<longrightarrow> next_in dp c (wk_place wk))
     \<and> (\<forall>svc l k. wk_stage wk = Working svc l \<longrightarrow> for_job k (kr_value (cl_log c ! wk_place wk)) \<longrightarrow>
          (\<exists>r. jobs (cl_db c) k = Some r \<and> lease_epoch l \<le> jm_lease_epoch r))"

definition same_lease :: "cluster \<Rightarrow> work \<Rightarrow> work \<Rightarrow> bool" where
  "same_lease c a b \<longleftrightarrow>
     (\<exists>k svc l svc' l'. wk_stage a = Working svc l \<and> wk_stage b = Working svc' l'
        \<and> lease_epoch l = lease_epoch l' \<and> for_job k (kr_value (cl_log c ! wk_place a))
        \<and> for_job k (kr_value (cl_log c ! wk_place b)))"

definition works_apart :: "deployment \<Rightarrow> cluster \<Rightarrow> bool" where
  "works_apart dp c \<longleftrightarrow>
     (\<forall>i j a b. cl_work c i = Some a \<longrightarrow> cl_work c j = Some b \<longrightarrow>
        (wk_assigned a \<and> wk_assigned b
           \<and> partition_of dp c (wk_place a) = partition_of dp c (wk_place b) \<or> same_lease c a b) \<longrightarrow> i = j)"

definition sound :: "deployment \<Rightarrow> cluster \<Rightarrow> bool" where
  "sound dp c \<longleftrightarrow>
     (\<forall>rec \<in> set (cl_log c). record_ok dp c rec)
     \<and> (\<forall>row \<in> set (outbox_messages (cl_db c)). row_sound dp c row)
     \<and> (\<forall>tp. cl_committed c tp \<le> cl_position c tp \<and> cl_position c tp \<le> length (cl_log c))
     \<and> (\<forall>i wk. cl_work c i = Some wk \<longrightarrow> work_ok dp c wk)
     \<and> works_apart dp c"

definition all_kept :: "deployment \<Rightarrow> cluster \<Rightarrow> bool" where
  "all_kept dp c \<longleftrightarrow> (\<forall>k. jobs (cl_db c) k \<noteq> None \<longrightarrow> kept dp c k)"

lemma soundD:
  assumes "sound dp c"
  shows "rec \<in> set (cl_log c) \<Longrightarrow> record_ok dp c rec"
    and "row \<in> set (outbox_messages (cl_db c)) \<Longrightarrow> row_sound dp c row"
    and "cl_committed c tp \<le> cl_position c tp" and "cl_position c tp \<le> length (cl_log c)"
    and "cl_work c i = Some wk \<Longrightarrow> work_ok dp c wk"
    and "works_apart dp c"
  using assms unfolding sound_def by blast+

subsection \<open>What grows\<close>

text \<open>Jobs stay, their epochs grow, success is final, and the log is only appended to.\<close>

definition advances :: "cluster \<Rightarrow> cluster \<Rightarrow> bool" where
  "advances c c' \<longleftrightarrow>
     (\<exists>new. cl_log c' = cl_log c @ new)
     \<and> (\<forall>k r. jobs (cl_db c) k = Some r \<longrightarrow>
          (\<exists>r'. jobs (cl_db c') k = Some r' \<and> jm_lease_epoch r \<le> jm_lease_epoch r'
             \<and> (jm_status r = status_value SUCCESS \<longrightarrow> jm_status r' = status_value SUCCESS)))"

lemma advances_log:
  assumes "advances c c'" "n < length (cl_log c)"
  shows "cl_log c' ! n = cl_log c ! n" "n < length (cl_log c')" "partition_of dp c' n = partition_of dp c n"
  using assms by (auto simp: advances_def nth_append partition_of_def)

lemma advances_log_set: "advances c c' \<Longrightarrow> set (cl_log c) \<subseteq> set (cl_log c')"
  by (auto simp: advances_def)

lemma advances_length: "advances c c' \<Longrightarrow> length (cl_log c) \<le> length (cl_log c')"
  by (auto simp: advances_def)

lemma advances_jobs:
  assumes "advances c c'" "jobs (cl_db c) k = Some r"
  obtains r' where "jobs (cl_db c') k = Some r'" "jm_lease_epoch r \<le> jm_lease_epoch r'"
  using assms by (auto simp: advances_def)

lemma advances_record: "advances c c' \<Longrightarrow> record_ok dp c rec \<Longrightarrow> record_ok dp c' rec"
  unfolding record_ok_def advances_def by (metis option.distinct(1) option.exhaust)

lemma advances_succeeded: "advances c c' \<Longrightarrow> succeeded (cl_db c) k \<Longrightarrow> succeeded (cl_db c') k"
  by (fastforce simp: advances_def succeeded_def)

lemma advances_dead: "advances c c' \<Longrightarrow> dead_lettered dp c k \<Longrightarrow> dead_lettered dp c' k"
  using advances_log_set by (fastforce simp: dead_lettered_def)

lemma advances_row: "advances c c' \<Longrightarrow> row_sound dp c row \<Longrightarrow> row_sound dp c' row"
  using advances_log_set advances_record by (fastforce simp: row_sound_def)

lemma advances_next:
  assumes "advances c c'" "next_in dp c n"
    and "cl_position c' (partition_of dp c n) = cl_position c (partition_of dp c n)"
  shows "next_in dp c' n"
proof -
  have "n < length (cl_log c)" using assms(2) by (simp add: next_in_def)
  with assms(2,3) advances_log [OF assms(1)] show ?thesis
    by (auto simp: next_in_def)
qed

lemma advances_work:
  assumes "advances c c'" "work_ok dp c wk"
    and "wk_assigned wk \<Longrightarrow> cl_position c' (partition_of dp c (wk_place wk))
           = cl_position c (partition_of dp c (wk_place wk))"
  shows "work_ok dp c' wk"
proof -
  have n: "wk_place wk < length (cl_log c)" using assms(2) by (simp add: work_ok_def)
  have "wk_assigned wk \<longrightarrow> next_in dp c' (wk_place wk)"
    using assms advances_next [OF assms(1)] by (auto simp: work_ok_def)
  moreover have "\<exists>r'. jobs (cl_db c') k = Some r' \<and> lease_epoch l \<le> jm_lease_epoch r'"
    if "wk_stage wk = Working svc l" "for_job k (kr_value (cl_log c ! wk_place wk))" for svc l k
    using assms(1,2) that unfolding work_ok_def by (metis advances_jobs order_trans)
  ultimately show ?thesis
    using assms(2) advances_log [OF assms(1) n] by (auto simp: work_ok_def)
qed

text \<open>Handlers only lose: their partition, their stage, or their life.\<close>

definition works_from :: "cluster \<Rightarrow> cluster \<Rightarrow> bool" where
  "works_from c c' \<longleftrightarrow>
     (\<forall>i b. cl_work c' i = Some b \<longrightarrow>
        (\<exists>a. cl_work c i = Some a \<and> wk_place b = wk_place a \<and> (wk_assigned b \<longrightarrow> wk_assigned a)
           \<and> (\<forall>svc l. wk_stage b = Working svc l \<longrightarrow> wk_stage a = Working svc l)))"

lemma works_from_refl [simp]: "cl_work c' = cl_work c \<Longrightarrow> works_from c c'"
  by (simp add: works_from_def)

lemma works_fromE:
  assumes "works_from c c'" "cl_work c' i = Some b"
  obtains a where "cl_work c i = Some a" "wk_place b = wk_place a" "wk_assigned b \<longrightarrow> wk_assigned a"
    "\<forall>svc l. wk_stage b = Working svc l \<longrightarrow> wk_stage a = Working svc l"
  using assms unfolding works_from_def by blast

lemma works_from_apart:
  assumes "advances c c'" "works_from c c'" "sound dp c"
  shows "works_apart dp c'"
  unfolding works_apart_def
proof (intro allI impI)
  fix i j a b
  assume w: "cl_work c' i = Some a" "cl_work c' j = Some b"
    and clash: "wk_assigned a \<and> wk_assigned b
      \<and> partition_of dp c' (wk_place a) = partition_of dp c' (wk_place b) \<or> same_lease c' a b"
  from w(1) obtain a0 where a0: "cl_work c i = Some a0" "wk_place a = wk_place a0"
    "wk_assigned a \<longrightarrow> wk_assigned a0" "\<forall>svc l. wk_stage a = Working svc l \<longrightarrow> wk_stage a0 = Working svc l"
    using assms(2) by (auto elim: works_fromE)
  from w(2) obtain b0 where b0: "cl_work c j = Some b0" "wk_place b = wk_place b0"
    "wk_assigned b \<longrightarrow> wk_assigned b0" "\<forall>svc l. wk_stage b = Working svc l \<longrightarrow> wk_stage b0 = Working svc l"
    using assms(2) by (auto elim: works_fromE)
  have "wk_place a0 < length (cl_log c)" "wk_place b0 < length (cl_log c)"
    using soundD(5) [OF assms(3)] a0(1) b0(1) by (auto simp: work_ok_def)
  note log = this [THEN advances_log(1) [OF assms(1)]] this [THEN advances_log(3) [OF assms(1)]]
  have "wk_assigned a0 \<and> wk_assigned b0
      \<and> partition_of dp c (wk_place a0) = partition_of dp c (wk_place b0) \<or> same_lease c a0 b0"
    using clash
  proof
    assume "same_lease c' a b"
    with a0(2,4) b0(2,4) log(1,2) have "same_lease c a0 b0" by (auto simp: same_lease_def)
    then show ?thesis ..
  qed (use a0 b0 log in auto)
  with soundD(6) [OF assms(3)] a0(1) b0(1) show "i = j" unfolding works_apart_def by blast
qed

lemma works_from_working:
  assumes "works_from c c'" "cl_work c' i = Some b" "wk_assigned b" "wk_stage b = Working svc l"
  shows "cl_work c i = Some b"
  using assms by (auto elim!: works_fromE)

lemma deliverable_stays:
  assumes "deliverable dp c k n" "advances c c'" "cl_position c' (partition_of dp c n) \<le> n"
    and "\<And>i b svc l. cl_work c' i = Some b \<Longrightarrow> wk_place b = n \<Longrightarrow> wk_assigned b \<Longrightarrow>
          wk_stage b = Working svc l \<Longrightarrow>
          cl_work c i = Some b \<and> (held (cl_db c) k svc l \<longrightarrow> held (cl_db c') k svc l)"
  shows "deliverable dp c' k n"
proof -
  have n: "n < length (cl_log c)" using assms(1) by (simp add: deliverable_def)
  have "\<not> forsaken c' k n"
    using assms(1,4) unfolding forsaken_def deliverable_def by blast
  with assms(1,3) advances_log [OF assms(2) n] show ?thesis by (auto simp: deliverable_def)
qed

lemma sound_stays:
  assumes "sound dp c" "advances c c'" "works_from c c'"
    and "\<And>rec. rec \<in> set (cl_log c') \<Longrightarrow> rec \<notin> set (cl_log c) \<Longrightarrow> record_ok dp c' rec"
    and "\<And>row. row \<in> set (outbox_messages (cl_db c')) \<Longrightarrow> row \<notin> set (outbox_messages (cl_db c)) \<Longrightarrow>
          row_sound dp c' row"
    and "\<And>tp. cl_committed c' tp \<le> cl_position c' tp \<and> cl_position c' tp \<le> length (cl_log c')"
    and "\<And>i wk. cl_work c' i = Some wk \<Longrightarrow> wk_assigned wk \<Longrightarrow>
          cl_position c' (partition_of dp c (wk_place wk)) = cl_position c (partition_of dp c (wk_place wk))"
  shows "sound dp c'"
proof -
  have work: "work_ok dp c' b" if b: "cl_work c' i = Some b" for i b
  proof -
    from assms(3) b obtain a where a: "cl_work c i = Some a" "wk_place b = wk_place a"
      "wk_assigned b \<longrightarrow> wk_assigned a" "\<forall>svc l. wk_stage b = Working svc l \<longrightarrow> wk_stage a = Working svc l"
      by (rule works_fromE)
    then have "work_ok dp c b"
      using soundD(5) [OF assms(1) a(1)] by (auto simp: work_ok_def)
    then show ?thesis using assms(7) [OF b] by (intro advances_work [OF assms(2)]) simp_all
  qed
  have "record_ok dp c' rec" if "rec \<in> set (cl_log c')" for rec
    using that assms(4) soundD(1) [OF assms(1)] advances_record [OF assms(2)] by blast
  moreover have "row_sound dp c' row" if "row \<in> set (outbox_messages (cl_db c'))" for row
    using that assms(5) soundD(2) [OF assms(1)] advances_row [OF assms(2)] by blast
  ultimately show ?thesis
    unfolding sound_def using work assms(6) works_from_apart [OF assms(2,3,1)] by blast
qed

lemma kept_stays:
  assumes "sound dp c" "kept dp c k" "advances c c'" "cl_log c' = cl_log c @ new"
    and "messages_kept (cl_db c) (cl_db c')"
    and "\<And>n. deliverable dp c k n \<Longrightarrow> kept dp c' k"
    and "\<And>rec. rec \<in> set new \<Longrightarrow> addressed (dp_topics dp) rec \<Longrightarrow> for_job k (kr_value rec) \<Longrightarrow> kept dp c' k"
  shows "kept dp c' k"
proof -
  consider "succeeded (cl_db c) k" | "dead_lettered dp c k" | n where "deliverable dp c k n"
    | row where "row \<in> set (outbox_messages (cl_db c))"
      "for_job k (kr_value (wire_record (item_of_row row)))" "wire_record (item_of_row row) \<notin> set (cl_log c)"
    using assms(2) unfolding kept_def unsent_def by blast
  then show ?thesis
  proof cases
    case 1
    then show ?thesis using advances_succeeded [OF assms(3)] by (simp add: kept_def)
  next
    case 2
    then show ?thesis using advances_dead [OF assms(3)] by (simp add: kept_def)
  next
    case 3
    then show ?thesis by (rule assms(6))
  next
    case 4
    show ?thesis
    proof (cases "wire_record (item_of_row row) \<in> set new")
      case True
      then show ?thesis
        using 4 soundD(2) [OF assms(1)] assms(7) by (auto simp: row_sound_def)
    next
      case False
      from 4(1) assms(5) obtain row' where "row' \<in> set (outbox_messages (cl_db c'))"
        "wire_record (item_of_row row') = wire_record (item_of_row row)"
        unfolding messages_kept_def same_message_def by blast
      with False 4(2,3) assms(4) have "unsent c' k" by (auto simp: unsent_def intro!: bexI [of _ row'])
      then show ?thesis by (simp add: kept_def)
    qed
  qed
qed

lemma kept_deliverable: "deliverable dp c k n \<Longrightarrow> kept dp c k"
  by (auto simp: kept_def)

lemma appended_deliverable:
  assumes "cl_log c' = cl_log c @ [rec]" "\<And>i wk. cl_work c' i = Some wk \<Longrightarrow> wk_place wk < length (cl_log c)"
    and "addressed (dp_topics dp) rec" "for_job k (kr_value rec)"
    and "\<And>tp. cl_position c' tp \<le> length (cl_log c)"
  shows "deliverable dp c' k (length (cl_log c))"
  using assms(1,3-5)
  by (auto simp: deliverable_def forsaken_def dest!: assms(2))

text \<open>The consumers go on: behind the next record of a partition lie only later ones.\<close>

lemma next_in_passed:
  assumes "next_in dp c m" "cl_position c (partition_of dp c n) \<le> n" "n \<noteq> m"
  shows "cl_position (pass_on dp m c) (partition_of dp c n) \<le> n"
  using assms by (auto simp: pass_on_def next_in_def not_less_eq_eq [symmetric] nat_neq_iff)

lemma cluster_sel [simp]:
  "cl_world (with_db d c) = (cl_world c)\<lparr>wdb := d\<rparr>" "cl_position (with_db d c) = cl_position c"
  "cl_committed (with_db d c) = cl_committed c" "cl_work (with_db d c) = cl_work c"
  "cl_world (pass_on dp n c) = cl_world c" "cl_committed (pass_on dp n c) = cl_committed c"
  "cl_work (pass_on dp n c) = cl_work c"
  "cl_world (set_work i x c) = cl_world c" "cl_position (set_work i x c) = cl_position c"
  "cl_committed (set_work i x c) = cl_committed c" "cl_work (set_work i x c) = (cl_work c)(i := x)"
  by (simp_all add: with_db_def pass_on_def set_work_def)

lemma finished_sel [simp]:
  "cl_world (finished dp i wk c) = cl_world c" "cl_committed (finished dp i wk c) = cl_committed c"
  "cl_work (finished dp i wk c) = (cl_work c)(i := None)"
  by (simp_all add: finished_def Let_def)

lemma partition_of_cong: "cl_log c' = cl_log c \<Longrightarrow> partition_of dp c' n = partition_of dp c n"
  by (simp add: partition_of_def)

lemma pass_on_position:
  "cl_position (pass_on dp n c) tp = (if tp = partition_of dp c n then Suc n else cl_position c tp)"
  by (simp add: pass_on_def)

lemma finished_position:
  "cl_position (finished dp i wk c) tp =
     (if wk_assigned wk \<and> tp = partition_of dp c (wk_place wk) then Suc (wk_place wk) else cl_position c tp)"
  by (simp add: finished_def Let_def pass_on_def partition_of_def)

text \<open>Unified workers read where the service announces its jobs, and have a retry topic of their own.\<close>

definition wired :: "deployment \<Rightarrow> bool" where
  "wired dp \<longleftrightarrow>
     worker_role (dp_cfg dp) = ''unified''
     \<and> kafka_retry_topic_request (dp_cfg dp) \<noteq> kafka_request_topic (dp_cfg dp)
     \<and> utf8_wf (kafka_request_topic (dp_cfg dp))"

lemma wired_topics:
  assumes "wired dp"
  shows "consume_topic (dp_topics dp) = kafka_request_topic (dp_cfg dp)"
    and "retry_topic (dp_topics dp) \<noteq> consume_topic (dp_topics dp)"
    and "utf8_wf (consume_topic (dp_topics dp))"
  using assms
  by (simp_all add: wired_def worker_topics_def resolve_worker_topic_def resolve_worker_retry_topic_def)

end
