(* ===== verification/Custody_Steps.thy ===== *)
theory Custody_Steps
  imports Custody
begin

section \<open>Steps that keep custody\<close>

text \<open>
  What the transactions of the deployment do to the jobs, and that requests, relays, the consumers'
  book-keeping and the taking up of a record leave every job in somebody's custody.
\<close>

subsection \<open>What the transactions do to the jobs\<close>

definition job_only :: "string \<Rightarrow> db \<Rightarrow> db \<Rightarrow> bool" where
  "job_only k d d' \<longleftrightarrow>
     outbox_messages d' = outbox_messages d \<and> dom (jobs d') = dom (jobs d)
     \<and> (\<forall>k'. k' \<noteq> k \<longrightarrow> jobs d' k' = jobs d k')
     \<and> (\<forall>r. jobs d k = Some r \<longrightarrow>
          (\<exists>r'. jobs d' k = Some r' \<and> jm_lease_epoch r \<le> jm_lease_epoch r'
             \<and> (jm_status r = status_value SUCCESS \<longrightarrow> jm_status r' = status_value SUCCESS)))"

lemma job_only_refl [simp]: "job_only k d d"
  by (simp add: job_only_def)

lemma job_only_advances: "job_only k (cl_db c) d' \<Longrightarrow> advances c (with_db d' c)"
proof -
  assume j: "job_only k (cl_db c) d'"
  have "\<exists>r'. jobs d' k' = Some r' \<and> jm_lease_epoch r \<le> jm_lease_epoch r'
      \<and> (jm_status r = status_value SUCCESS \<longrightarrow> jm_status r' = status_value SUCCESS)"
    if "jobs (cl_db c) k' = Some r" for k' r
    using j that by (cases "k' = k") (simp_all add: job_only_def)
  then show ?thesis by (simp add: advances_def)
qed

lemma claim_job_only:
  assumes "run_session f (claim_block source svc env (PStr k) tid) d = (r, d')"
  shows "job_only k d d'"
  using assms
proof (cases rule: run_session_cases)
  case (committed a)
  from committed(1) show ?thesis
    by (elim claim_block_Commit) (auto simp: job_only_def claim_row_def claimable_def)
qed simp

lemma success_job_only:
  assumes "run_session f (success_block svc env (PStr k) tid l result) d = (r, d')"
  shows "job_only k d d'"
  using assms
proof (cases rule: run_session_cases)
  case (committed a)
  from committed(1) show ?thesis by (elim success_block_Commit) (auto simp: job_only_def)
qed simp

lemma failure_job_only:
  assumes "run_session f (failure_block source svc env (PStr k) tid l exc) d = (r, d')"
  shows "job_only k d d'"
  using assms
proof (cases rule: run_session_cases)
  case (committed a)
  from committed(1) show ?thesis by (elim failure_block_Commit) (auto simp: job_only_def)
qed simp

text \<open>A refused claim that counts as done found the job finished.\<close>

lemma claim_finished:
  assumes "run_session f (claim_block source svc env (PStr k) tid) d = (Inr (Finished True msg), d')"
  shows "succeeded d k \<and> d' = d"
  using assms
proof (cases rule: run_session_Inr)
  case rollback
  then show ?thesis
    by (auto simp: claim_block_def succeeded_def job_get_PStr job_of_row_def JobStatus_of_Inr
             split: option.splits if_splits)
next
  case commit
  then show ?thesis by (auto elim: claim_block_Commit)
qed

text \<open>A claim that succeeds holds the job, under an epoch of its own.\<close>

lemma claim_claimed:
  assumes "run_session f (claim_block source svc env (PStr k) tid) d = (Inr (Claimed l), d')"
  obtains r where "jobs d k = Some r" "lease_epoch l = jm_lease_epoch r + 1" "held d' k svc l"
  using assms
proof (cases rule: run_session_Inr)
  case rollback
  then show ?thesis by (auto simp: claim_block_def split: option.splits if_splits)
next
  case commit
  then show ?thesis
    by (elim claim_block_Commit) (auto intro!: that simp: held_def claim_row_def)
qed

text \<open>An update that is refused has no lease behind it, and one that is not has succeeded.\<close>

lemma success_settles:
  assumes "run_session f (success_block svc env (PStr k) tid l result) d = (Inr b, d')"
  shows "succeeded d' k \<or> \<not> held d k svc l"
  using assms
proof (cases rule: run_session_Inr)
  case rollback
  then show ?thesis
    by (auto simp: success_block_def held_def update_status_eq cas_matches_def success_opts_def
             default_opts_def split: option.splits if_splits)
next
  case commit
  then show ?thesis by (elim success_block_Commit) (auto simp: succeeded_def)
qed

lemma success_raised:
  assumes "run_session f (success_block svc env (PStr k) tid l result) d = (r, d')"
  shows "succeeded d' k \<or> d' = d"
  using assms
proof (cases rule: run_session_cases)
  case (committed a)
  from committed(1) show ?thesis by (elim success_block_Commit) (auto simp: succeeded_def)
qed simp

lemma failure_changes:
  assumes "run_session f (failure_block source svc env (PStr k) tid l exc) d = (r, d')" "d' \<noteq> d"
  obtains row where "jobs d k = Some row" "jm_lease_epoch row = lease_epoch l"
  using assms(1)
proof (cases rule: run_session_cases)
  case (committed a)
  from committed(1) show ?thesis by (elim failure_block_Commit) (auto intro: that)
qed (use assms(2) in simp)

lemma create_rows:
  assumes "create_block svc env payload d = Inr (Commit u d')"
  obtains row where "outbox_messages d' = outbox_messages d @ [row]" "is_pending row"
    "wire_record (item_of_row row) = \<lparr>kr_topic = js_topic svc, kr_value = request_event env payload, kr_headers = None\<rparr>"
  using assms
  by (auto simp: create_block_def job_add_def outbox_add_def varchar_Inr is_pending_def item_of_row_def
           wire_record_def wire_headers_def split: if_splits dest!: event_add_frame(2))

subsection \<open>Requests and relays\<close>

lemma for_job_request [simp]: "for_job k (request_event env payload) \<longleftrightarrow> k = tx_uuid env 1"
  by (auto simp: for_job_def request_event_def build_event_def)

lemma origin_header_None: "kr_headers rec = None \<Longrightarrow> origin_header rec = None"
  by (simp add: origin_header_def redelivered_def decode_headers_def)

lemma request_commit:
  assumes "wired dp" "sound dp c" "all_kept dp c"
    and "create_block (container_job_service (dp_cfg dp)) env payload (cl_db c) = Inr (Commit u d)"
  shows "sound dp (with_db d c) \<and> all_kept dp (with_db d c)"
proof -
  let ?c = "with_db d c" and ?k = "tx_uuid env 1"
  from assms(4) obtain row where row: "outbox_messages d = outbox_messages (cl_db c) @ [row]" "is_pending row"
    "wire_record (item_of_row row) = \<lparr>kr_topic = kafka_request_topic (dp_cfg dp),
       kr_value = request_event env payload, kr_headers = None\<rparr>"
    by (rule create_rows) (simp add: container_job_service_def)
  from assms(4) obtain job where job: "jobs (cl_db c) ?k = None" "jobs d = (jobs (cl_db c))(?k \<mapsto> job)"
    by (rule create_block_Commit)
  then have adv: "advances c ?c" by (auto simp: advances_def)
  have new: "row_sound dp ?c row"
    using wired_topics [OF assms(1)] row(2,3) job(2)
    by (auto simp: row_sound_def record_ok_def addressed_def origin_header_None)
  have sound: "sound dp ?c"
    by (rule sound_stays [OF assms(2) adv])
       (use new row(1) soundD(3,4) [OF assms(2)] in auto)
  have "\<not> for_job ?k (kr_value rec)" if "rec \<in> set (cl_log c)" for rec
    using soundD(1) [OF assms(2) that] job(1) by (auto simp: record_ok_def for_job_def)
  moreover have "for_job ?k (kr_value (wire_record (item_of_row row)))" by (simp add: row(3))
  ultimately have "unsent ?c ?k" using row(1) by (auto simp: unsent_def)
  moreover have "kept dp ?c k" if "jobs (cl_db c) k \<noteq> None" for k
  proof (rule kept_stays [OF assms(2) _ adv])
    show "kept dp c k" using that assms(3) by (simp add: all_kept_def)
    show "messages_kept (cl_db c) (cl_db ?c)"
      using row(1) by (auto simp: messages_kept_def intro!: bexI)
    show "kept dp ?c k" if "deliverable dp c k n" for n
      using that job
      by (intro kept_deliverable [of dp ?c k n] deliverable_stays [OF that adv])
         (auto simp: deliverable_def held_def)
    show "cl_log ?c = cl_log c @ []" by simp
  qed simp
  ultimately show ?thesis
    using sound job by (auto simp: all_kept_def kept_def)
qed

text \<open>Steps that touch neither the jobs nor the log.\<close>

lemma undisturbed_kept:
  assumes "sound dp c" "all_kept dp c" "works_from c c'"
    and "cl_log c' = cl_log c" "jobs (cl_db c') = jobs (cl_db c)" "messages_kept (cl_db c) (cl_db c')"
    and "\<And>k n. deliverable dp c k n \<Longrightarrow> cl_position c' (partition_of dp c n) \<le> n"
  shows "all_kept dp c'"
  unfolding all_kept_def
proof (intro allI impI)
  fix k
  assume "jobs (cl_db c') k \<noteq> None"
  then have kept: "kept dp c k" using assms(2,5) by (simp add: all_kept_def)
  have adv: "advances c c'" using assms(4,5) by (simp add: advances_def)
  show "kept dp c' k"
  proof (rule kept_stays [OF assms(1) kept adv _ assms(6)])
    show "kept dp c' k" if "deliverable dp c k n" for n
      using that assms(5,7) works_from_working [OF assms(3)]
      by (intro kept_deliverable [of dp c' k n] deliverable_stays [OF that adv]) (auto simp: held_def)
    show "cl_log c' = cl_log c @ []" by (simp add: assms(4))
  qed simp
qed

lemma tick_kept:
  assumes "sound dp c" "all_kept dp c" "wdb w = cl_db c" "acked w = cl_log c"
  shows "sound dp (c\<lparr>cl_world := w\<rparr>) \<and> all_kept dp (c\<lparr>cl_world := w\<rparr>)"
proof
  have adv: "advances c (c\<lparr>cl_world := w\<rparr>)" using assms(3,4) by (simp add: advances_def)
  show "sound dp (c\<lparr>cl_world := w\<rparr>)"
    by (rule sound_stays [OF assms(1) adv]) (use assms soundD(3,4) [OF assms(1)] in auto)
  show "all_kept dp (c\<lparr>cl_world := w\<rparr>)"
    by (rule undisturbed_kept [OF assms(1,2)]) (use assms(3,4) in \<open>auto simp: deliverable_def\<close>)
qed

lemma send_kept:
  assumes "sound dp c" "all_kept dp c" "row \<in> set (outbox_messages (cl_db c))"
    and "wdb w = cl_db c" "acked w = cl_log c @ [wire_record (item_of_row row)]"
  shows "sound dp (c\<lparr>cl_world := w\<rparr>) \<and> all_kept dp (c\<lparr>cl_world := w\<rparr>)"
proof
  let ?c = "c\<lparr>cl_world := w\<rparr>"
  have adv: "advances c ?c" using assms(4,5) by (simp add: advances_def)
  have row: "row_sound dp c row" using soundD(2) [OF assms(1,3)] .
  show "sound dp ?c"
    by (rule sound_stays [OF assms(1) adv])
       (use assms(4,5) row soundD(3,4) [OF assms(1)] advances_record [OF adv]
        in \<open>auto simp: row_sound_def intro: le_SucI\<close>)
  have "kept dp ?c k" if "jobs (cl_db c) k \<noteq> None" for k
  proof (rule kept_stays [OF assms(1) _ adv])
    show "kept dp c k" using that assms(2) by (simp add: all_kept_def)
    show "cl_log ?c = cl_log c @ [wire_record (item_of_row row)]" by (simp add: assms(5))
    show "kept dp ?c k" if "deliverable dp c k n" for n
      using that assms(4)
      by (intro kept_deliverable [of dp ?c k n] deliverable_stays [OF that adv]) (auto simp: deliverable_def)
    show "kept dp ?c k" if "rec \<in> set [wire_record (item_of_row row)]" "addressed (dp_topics dp) rec"
      "for_job k (kr_value rec)" for rec
      using that assms(5) soundD(4,5) [OF assms(1)]
      by (intro kept_deliverable [OF appended_deliverable [of _ _ rec]]) (auto simp: work_ok_def)
  qed (simp add: assms(4))
  then show "all_kept dp ?c" using assms(4) by (simp add: all_kept_def)
qed

lemma mark_kept:
  assumes "sound dp c" "all_kept dp c"
    and "\<forall>row \<in> set (outbox_messages (cl_db c)). ob_id row \<in> set ids \<longrightarrow>
      wire_record (item_of_row row) \<in> set (cl_log c)"
  shows "sound dp (with_db (mark_published now ids (cl_db c)) c)
    \<and> all_kept dp (with_db (mark_published now ids (cl_db c)) c)"
proof
  let ?d = "mark_published now ids (cl_db c)"
  have adv: "advances c (with_db ?d c)" by (simp add: advances_def)
  have rows: "row_sound dp (with_db ?d c) row'" if "row' \<in> set (outbox_messages ?d)" for row'
  proof -
    from that obtain row where row: "row \<in> set (outbox_messages (cl_db c))"
      "row' = row \<or> ob_id row \<in> set ids \<and> row' = publish_row now row"
      by (auto simp: mark_published_def split: if_splits)
    moreover have "row_sound dp (with_db ?d c) row" using advances_row [OF adv soundD(2) [OF assms(1) row(1)]] .
    moreover have "wire_record (item_of_row (publish_row now row)) = wire_record (item_of_row row)"
      using same_message_rows(1) by (simp add: same_message_def)
    ultimately show ?thesis using assms(3) by (auto simp: row_sound_def)
  qed
  show "sound dp (with_db ?d c)"
    by (rule sound_stays [OF assms(1) adv]) (use rows soundD(3,4) [OF assms(1)] in auto)
  show "all_kept dp (with_db ?d c)"
    by (rule undisturbed_kept [OF assms(1,2)]) (auto simp: deliverable_def messages_kept_published)
qed

lemma mark_failure_kept:
  assumes "sound dp c" "all_kept dp c"
  shows "sound dp (with_db (mark_failed oid err (cl_db c)) c)
    \<and> all_kept dp (with_db (mark_failed oid err (cl_db c)) c)"
proof
  let ?d = "mark_failed oid err (cl_db c)"
  have adv: "advances c (with_db ?d c)" by (simp add: advances_def)
  have rows: "row_sound dp (with_db ?d c) row'" if "row' \<in> set (outbox_messages ?d)" for row'
  proof -
    from that obtain row where row: "row \<in> set (outbox_messages (cl_db c))"
      "row' = row \<or> row' = fail_row err row"
      by (auto simp: mark_failed_def split: if_splits)
    moreover have "row_sound dp (with_db ?d c) row" using advances_row [OF adv soundD(2) [OF assms(1) row(1)]] .
    moreover have "wire_record (item_of_row (fail_row err row)) = wire_record (item_of_row row)"
      using same_message_rows(2) by (simp add: same_message_def)
    ultimately show ?thesis by (auto simp: row_sound_def is_pending_def fail_row_def)
  qed
  show "sound dp (with_db ?d c)"
    by (rule sound_stays [OF assms(1) adv]) (use rows soundD(3,4) [OF assms(1)] in auto)
  show "all_kept dp (with_db ?d c)"
    by (rule undisturbed_kept [OF assms(1,2)]) (auto simp: deliverable_def messages_kept_failed)
qed

subsection \<open>Consumers\<close>

lemma commit_kept:
  assumes "sound dp c" "all_kept dp c" "n \<le> cl_position c tp"
  shows "sound dp (c\<lparr>cl_committed := (cl_committed c)(tp := n)\<rparr>)
    \<and> all_kept dp (c\<lparr>cl_committed := (cl_committed c)(tp := n)\<rparr>)"
proof
  let ?c = "c\<lparr>cl_committed := (cl_committed c)(tp := n)\<rparr>"
  have adv: "advances c ?c" by (simp add: advances_def)
  show "sound dp ?c"
    by (rule sound_stays [OF assms(1) adv]) (use assms(3) soundD(3,4) [OF assms(1)] in auto)
  show "all_kept dp ?c" by (rule undisturbed_kept [OF assms(1,2)]) (auto simp: deliverable_def)
qed

lemma drop_stale_kept:
  assumes "sound dp c" "all_kept dp c"
  shows "sound dp (c\<lparr>cl_stale := ns\<rparr>) \<and> all_kept dp (c\<lparr>cl_stale := ns\<rparr>)"
proof
  have adv: "advances c (c\<lparr>cl_stale := ns\<rparr>)" by (simp add: advances_def)
  show "sound dp (c\<lparr>cl_stale := ns\<rparr>)"
    by (rule sound_stays [OF assms(1) adv]) (use soundD(3,4) [OF assms(1)] in auto)
  show "all_kept dp (c\<lparr>cl_stale := ns\<rparr>)" by (rule undisturbed_kept [OF assms]) (auto simp: deliverable_def)
qed

lemma taken_away_sel [simp]:
  "cl_world (taken_away dp tp ns c) = cl_world c" "cl_committed (taken_away dp tp ns c) = cl_committed c"
  "cl_position (taken_away dp tp ns c) = (cl_position c)(tp := cl_committed c tp)"
  by (simp_all add: taken_away_def)

lemma take_away_kept:
  assumes "sound dp c" "all_kept dp c"
  shows "sound dp (taken_away dp tp ns c) \<and> all_kept dp (taken_away dp tp ns c)"
proof
  let ?c = "taken_away dp tp ns c"
  have adv: "advances c ?c" by (simp add: advances_def)
  have wf: "works_from c ?c" by (auto simp: works_from_def taken_away_def split: if_splits)
  have com: "cl_committed c tp \<le> m" if "cl_position c tp \<le> m" for m
    using soundD(3) [OF assms(1)] that by (rule order_trans)
  have pos: "cl_committed c tp' \<le> cl_position ?c tp' \<and> cl_position ?c tp' \<le> length (cl_log ?c)" for tp'
    using soundD(3,4) [OF assms(1), of tp'] com [of "length (cl_log c)"] by auto
  show "sound dp ?c"
  proof (rule sound_stays [OF assms(1) adv wf])
    show "cl_committed ?c tp' \<le> cl_position ?c tp' \<and> cl_position ?c tp' \<le> length (cl_log ?c)" for tp'
      using pos [of tp'] by (simp only: taken_away_sel)
    show "cl_position ?c (partition_of dp c (wk_place wk)) = cl_position c (partition_of dp c (wk_place wk))"
      if "cl_work ?c i = Some wk" "wk_assigned wk" for i wk
    proof -
      from that have "partition_of dp c (wk_place wk) \<noteq> tp"
        by (cases "cl_work c i") (auto simp: taken_away_def split: if_splits)
      then show ?thesis by simp
    qed
  qed simp_all
  show "all_kept dp ?c"
  proof (rule undisturbed_kept [OF assms wf])
    show "cl_position ?c (partition_of dp c n) \<le> n" if "deliverable dp c k n" for k n
      using that com [of n] by (auto simp: deliverable_def)
  qed simp_all
qed

lemma drop_work_sound:
  assumes "sound dp c"
  shows "sound dp (set_work i None c)"
proof -
  have "advances c (set_work i None c)" by (simp add: advances_def)
  moreover have "works_from c (set_work i None c)" by (auto simp: works_from_def)
  ultimately show ?thesis
    by (rule sound_stays [OF assms]) (use soundD(3,4) [OF assms] in auto)
qed

lemma drop_work_kept:
  assumes "sound dp c" "all_kept dp c"
  shows "all_kept dp (set_work i None c)"
  by (rule undisturbed_kept [OF assms]) (auto simp: deliverable_def works_from_def)

text \<open>
  Going on behind a record: sound where nobody works on the partition, and harmless when what the
  record was for does not depend on it.
\<close>

lemma idle_position:
  assumes "idle dp c (partition_of dp c n)" "cl_work c i = Some wk" "wk_assigned wk"
  shows "cl_position (pass_on dp n c) (partition_of dp c (wk_place wk)) = cl_position c (partition_of dp c (wk_place wk))"
  using assms by (auto simp: idle_def pass_on_position)

lemma pass_on_sound:
  assumes "sound dp c" "next_in dp c n" "idle dp c (partition_of dp c n)"
  shows "sound dp (pass_on dp n c)"
proof -
  have adv: "advances c (pass_on dp n c)" by (simp add: advances_def)
  have "n < length (cl_log c)" "cl_position c (partition_of dp c n) \<le> n"
    using assms(2) by (auto simp: next_in_def)
  moreover have "cl_committed c (partition_of dp c n) \<le> n"
    using soundD(3) [OF assms(1)] calculation(2) by (rule order_trans)
  ultimately
  have "cl_committed c tp \<le> cl_position (pass_on dp n c) tp \<and> cl_position (pass_on dp n c) tp \<le> length (cl_log c)" for tp
    using soundD(3,4) [OF assms(1)] by (simp add: pass_on_position le_SucI)
  then show ?thesis
    using idle_position [OF assms(3)] by (intro sound_stays [OF assms(1) adv]) auto
qed

lemma pass_on_kept:
  assumes "sound dp c" "all_kept dp c" "next_in dp c n"
    and "\<And>k. for_job k (kr_value (cl_log c ! n)) \<Longrightarrow> deliverable dp c k n \<Longrightarrow> succeeded (cl_db c) k"
  shows "all_kept dp (pass_on dp n c)"
  unfolding all_kept_def
proof (intro allI impI)
  fix k
  assume "jobs (cl_db (pass_on dp n c)) k \<noteq> None"
  then have kept: "kept dp c k" using assms(2) by (simp add: all_kept_def)
  have adv: "advances c (pass_on dp n c)" by (simp add: advances_def)
  show "kept dp (pass_on dp n c) k"
  proof (rule kept_stays [OF assms(1) kept adv])
    show "kept dp (pass_on dp n c) k" if m: "deliverable dp c k m" for m
    proof (cases "m = n")
      case True
      with m assms(4) show ?thesis by (auto simp: kept_def deliverable_def)
    next
      case False
      with m next_in_passed [OF assms(3)] show ?thesis
        by (intro kept_deliverable [of dp _ k m] deliverable_stays [OF m adv]) (auto simp: deliverable_def)
    qed
    show "cl_log (pass_on dp n c) = cl_log c @ []" by simp
  qed simp_all
qed

lemma skipped_not_addressed:
  assumes "wired dp" "skipped (dp_topics dp) (message_at dp c n)"
  shows "\<not> addressed (dp_topics dp) (cl_log c ! n)"
  using wired_topics [OF assms(1)] assms(2)
  by (auto simp: skipped_def addressed_def message_at_def redelivered_def origin_header_def
           header_or_def split: option.splits)

lemma skip_kept:
  assumes "wired dp" "sound dp c" "all_kept dp c" "next_in dp c n" "idle dp c (partition_of dp c n)"
    and "skipped (dp_topics dp) (message_at dp c n)"
  shows "sound dp (pass_on dp n c) \<and> all_kept dp (pass_on dp n c)"
  using pass_on_sound [OF assms(2,4,5)] pass_on_kept [OF assms(2-4)] skipped_not_addressed [OF assms(1,6)]
  by (auto simp: deliverable_def)

subsection \<open>Handlers\<close>

lemma job_only_sound:
  assumes "sound dp c" "job_only k (cl_db c) d"
  shows "sound dp (with_db d c)"
  by (rule sound_stays [OF assms(1) job_only_advances [OF assms(2)]])
     (use assms(2) soundD(3,4) [OF assms(1)] in \<open>auto simp: job_only_def\<close>)

lemma job_only_messages: "job_only k d d' \<Longrightarrow> messages_kept d d'"
  by (auto simp: job_only_def messages_kept_def intro!: bexI)

text \<open>
  A step of a handler for the job \<open>k\<close>: the other jobs lose nothing as long as the records that carry
  them stay where they are, so only \<open>k\<close> is left to be seen to.
\<close>

lemma handler_kept:
  assumes "sound dp c" "all_kept dp c" "job_only k (cl_db c) (cl_db c')" "cl_log c' = cl_log c"
    and own: "jobs (cl_db c) k \<noteq> None \<Longrightarrow> kept dp c k \<Longrightarrow> kept dp c' k"
    and pos: "\<And>k' n. k' \<noteq> k \<Longrightarrow> deliverable dp c k' n \<Longrightarrow> cl_position c' (partition_of dp c n) \<le> n"
    and work: "\<And>k' n i b svc l. k' \<noteq> k \<Longrightarrow> deliverable dp c k' n \<Longrightarrow> cl_work c' i = Some b \<Longrightarrow>
      wk_place b = n \<Longrightarrow> wk_assigned b \<Longrightarrow> wk_stage b = Working svc l \<Longrightarrow> cl_work c i = Some b"
  shows "all_kept dp c'"
  unfolding all_kept_def
proof (intro allI impI)
  fix k'
  assume some: "jobs (cl_db c') k' \<noteq> None"
  have adv: "advances c c'"
    using job_only_advances [OF assms(3)] assms(4) by (simp add: advances_def)
  show "kept dp c' k'"
  proof (cases "k' = k")
    case True
    with some assms(3) have "jobs (cl_db c) k \<noteq> None" by (auto simp: job_only_def dom_def set_eq_iff)
    with True own assms(2) show ?thesis by (auto simp: all_kept_def)
  next
    case False
    then have same: "jobs (cl_db c') k' = jobs (cl_db c) k'" using assms(3) by (simp add: job_only_def)
    show ?thesis
    proof (rule kept_stays [OF assms(1) _ adv])
      show "kept dp c k'" using some same assms(2) by (simp add: all_kept_def)
      show "messages_kept (cl_db c) (cl_db c')" using assms(3) by (rule job_only_messages)
      show "cl_log c' = cl_log c @ []" by (simp add: assms(4))
      show "kept dp c' k'" if d: "deliverable dp c k' n" for n
        using pos [OF False d] work [OF False d] same
        by (intro kept_deliverable [of dp c' k' n] deliverable_stays [OF d adv]) (auto simp: held_def)
    qed simp
  qed
qed

lemma not_skipped_addressed:
  assumes "record_ok dp c (cl_log c ! n)"
    and "kr_topic (cl_log c ! n) \<in> {consume_topic (dp_topics dp), retry_topic (dp_topics dp)}"
    and "\<not> skipped (dp_topics dp) (message_at dp c n)"
  shows "addressed (dp_topics dp) (cl_log c ! n)"
  using assms
  by (auto simp: skipped_def addressed_def record_ok_def message_at_def redelivered_def origin_header_def
           header_or_def split: option.splits)

lemma with_db_same [simp]: "with_db (cl_db c) c = c"
  by (simp add: with_db_def)

lemma next_in_cong:
  "cl_log c' = cl_log c \<Longrightarrow> cl_position c' = cl_position c \<Longrightarrow> next_in dp c' n = next_in dp c n"
  by (simp add: next_in_def partition_of_def)

lemma idle_cong: "cl_log c' = cl_log c \<Longrightarrow> cl_work c' = cl_work c \<Longrightarrow> idle dp c' tp = idle dp c tp"
  by (simp add: idle_def partition_of_def)

text \<open>One more handler stays apart from the others if it is apart from each of them.\<close>

lemma works_apart_more:
  assumes "works_apart dp c"
    and alone: "\<And>j a. cl_work c j = Some a \<Longrightarrow> \<not> (wk_assigned a \<and> wk_assigned b
        \<and> partition_of dp c (wk_place a) = partition_of dp c (wk_place b))
      \<and> \<not> same_lease c a b \<and> \<not> same_lease c b a"
  shows "works_apart dp (set_work i (Some b) c)"
  unfolding works_apart_def
proof (intro allI impI)
  fix j j' x y
  assume w: "cl_work (set_work i (Some b) c) j = Some x" "cl_work (set_work i (Some b) c) j' = Some y"
    and clash: "wk_assigned x \<and> wk_assigned y \<and>
      partition_of dp (set_work i (Some b) c) (wk_place x) = partition_of dp (set_work i (Some b) c) (wk_place y)
      \<or> same_lease (set_work i (Some b) c) x y"
  then have clash': "wk_assigned x \<and> wk_assigned y \<and>
      partition_of dp c (wk_place x) = partition_of dp c (wk_place y) \<or> same_lease c x y"
    by (simp add: partition_of_def same_lease_def)
  consider "j = i" "j' = i" | "j = i" "j' \<noteq> i" | "j \<noteq> i" "j' = i" | "j \<noteq> i" "j' \<noteq> i" by blast
  then show "j = j'"
  proof cases
    case 2
    with w clash' alone [of j' y] show ?thesis by auto
  next
    case 3
    with w clash' alone [of j x] show ?thesis by auto
  next
    case 4
    with w clash' assms(1) show ?thesis by (auto simp: works_apart_def)
  qed simp
qed

lemma new_work_sound:
  assumes "sound dp c" "cl_work c i = None" "n < length (cl_log c)"
    and own: "a \<Longrightarrow> next_in dp c n \<and> idle dp c (partition_of dp c n)"
    and "addressed (dp_topics dp) (cl_log c ! n)" "for_job k (kr_value (cl_log c ! n))"
    and lease: "\<And>svc l. stg = Working svc l \<Longrightarrow> \<exists>r. jobs (cl_db c) k = Some r \<and> lease_epoch l = jm_lease_epoch r"
    and fresh: "\<And>svc l j b svc' l'. stg = Working svc l \<Longrightarrow> cl_work c j = Some b \<Longrightarrow> wk_stage b = Working svc' l' \<Longrightarrow>
      for_job k (kr_value (cl_log c ! wk_place b)) \<Longrightarrow> lease_epoch l' \<noteq> lease_epoch l"
  shows "sound dp (set_work i (Some \<lparr>wk_place = n, wk_assigned = a, wk_stage = stg\<rparr>) c)"
proof -
  let ?b = "\<lparr>wk_place = n, wk_assigned = a, wk_stage = stg\<rparr>"
  let ?c = "set_work i (Some ?b) c"
  have adv: "advances c ?c" by (simp add: advances_def)
  have job: "k' = k" if "for_job k' (kr_value (cl_log c ! n))" for k'
    using that assms(6) by (simp add: for_job_def)
  have "work_ok dp c ?b"
    using assms(3,5) own lease job by (auto simp: work_ok_def dest: job)
  then have work: "work_ok dp ?c wk" if "cl_work ?c j = Some wk" for j wk
    using that soundD(5) [OF assms(1)] advances_work [OF adv] by (auto split: if_splits)
  have alone: "\<not> (wk_assigned x \<and> a \<and> partition_of dp c (wk_place x) = partition_of dp c n)"
    "\<not> same_lease c x ?b" "\<not> same_lease c ?b x"
    if "cl_work c j = Some x" for j x
    using that own assms(6) fresh by (auto simp: idle_def same_lease_def dest!: job) metis+
  have "works_apart dp ?c"
    using soundD(6) [OF assms(1)] alone by (intro works_apart_more) simp_all
  moreover have "record_ok dp ?c rec" if "rec \<in> set (cl_log c)" for rec
    using advances_record [OF adv soundD(1) [OF assms(1) that]] .
  moreover have "row_sound dp ?c row" if "row \<in> set (outbox_messages (cl_db c))" for row
    using advances_row [OF adv soundD(2) [OF assms(1) that]] .
  ultimately show ?thesis
    unfolding sound_def using work soundD(3,4) [OF assms(1)] by simp
qed

text \<open>A handler that has just claimed holds the job under an epoch no other handler has.\<close>

lemma claimed_work_sound:
  assumes "sound dp c" "cl_work c i = None" "n < length (cl_log c)"
    and own: "a \<Longrightarrow> next_in dp c n \<and> idle dp c (partition_of dp c n)"
    and "addressed (dp_topics dp) (cl_log c ! n)" "for_job k (kr_value (cl_log c ! n))"
    and run: "run_session f (claim_block ''worker'' svc env (PStr k) tid) (cl_db c) = (r, d)"
    and stg: "\<And>svc' l. stg = Working svc' l \<Longrightarrow> svc' = svc \<and> r = Inr (Claimed l)"
  shows "sound dp (set_work i (Some \<lparr>wk_place = n, wk_assigned = a, wk_stage = stg\<rparr>) (with_db d c))"
proof -
  let ?c = "with_db d c"
  have sound: "sound dp ?c" using job_only_sound [OF assms(1) claim_job_only [OF run]] .
  have lease: "\<exists>row. jobs d k = Some row \<and> lease_epoch l = jm_lease_epoch row" if "stg = Working svc' l" for svc' l
    using stg [OF that] run by (auto elim!: claim_claimed simp: held_def)
  have fresh: "lease_epoch l' \<noteq> lease_epoch l"
    if "stg = Working svc0 l" "cl_work c j = Some b" "wk_stage b = Working svc' l'"
      "for_job k (kr_value (cl_log c ! wk_place b))" for svc0 l j b svc' l'
    using stg [OF that(1)] run soundD(5) [OF assms(1) that(2)] that(3,4)
    by (fastforce elim!: claim_claimed simp: work_ok_def)
  show ?thesis
    by (rule new_work_sound [OF sound, of _ _ _ k])
       (use assms(2-6) lease fresh in \<open>simp_all add: next_in_cong [of ?c c] idle_cong [of ?c c] partition_of_cong [of ?c c]\<close>)
qed

text \<open>Unless the job was finished before, the record stays, with a handler on it or without one.\<close>

lemma taken_up_cases:
  assumes "\<nexists>msg. r = Inr (Finished True msg)"
  obtains (raised) e where "taken_up dp svc i n r c = c" "r = Inl e"
  | (at_work) stg where
      "taken_up dp svc i n r c = set_work i (Some \<lparr>wk_place = n, wk_assigned = True, wk_stage = stg\<rparr>) c"
      "\<And>svc' l. stg = Working svc' l \<Longrightarrow> svc' = svc \<and> r = Inr (Claimed l)"
proof (cases r)
  case (Inl e)
  then show ?thesis by (intro raised) (simp_all add: taken_up_def)
next
  case (Inr x)
  with assms show ?thesis by (cases x) (auto simp: taken_up_def intro: at_work)
qed

lemma take_up_sound:
  assumes "sound dp c" "next_in dp c n" "idle dp c (partition_of dp c n)" "cl_work c i = None"
    and "addressed (dp_topics dp) (cl_log c ! n)" "for_job k (kr_value (cl_log c ! n))"
    and run: "run_session f (claim_block ''worker'' svc env (PStr k) tid) (cl_db c) = (r, d)"
    and "\<nexists>msg. r = Inr (Finished True msg)"
  shows "sound dp (taken_up dp svc i n r (with_db d c))"
  using assms(8)
proof (cases rule: taken_up_cases [where dp = dp and svc = svc and i = i and n = n and c = "with_db d c"])
  case raised
  then show ?thesis using job_only_sound [OF assms(1) claim_job_only [OF run]] by simp
next
  case (at_work stg)
  have "n < length (cl_log c)" using assms(2) by (simp add: next_in_def)
  from claimed_work_sound [OF assms(1,4) this _ assms(5,6) run at_work(2)] assms(2,3) show ?thesis
    unfolding at_work(1) by blast
qed

lemma take_up_deliverable:
  assumes "next_in dp c n" "idle dp c (partition_of dp c n)"
    and "addressed (dp_topics dp) (cl_log c ! n)" "for_job k (kr_value (cl_log c ! n))"
    and run: "run_session f (claim_block ''worker'' svc env (PStr k) tid) (cl_db c) = (r, d)"
    and "\<nexists>msg. r = Inr (Finished True msg)"
  shows "deliverable dp (taken_up dp svc i n r (with_db d c)) k n"
  using assms(6)
proof (cases rule: taken_up_cases [where dp = dp and svc = svc and i = i and n = n and c = "with_db d c"])
  case raised
  then show ?thesis
    using assms(1-4) by (auto simp: deliverable_def next_in_def forsaken_def idle_def partition_of_def)
next
  case (at_work stg)
  have "held d k svc l" if "stg = Working svc' l" for svc' l
    using at_work(2) [OF that] run by (auto elim!: claim_claimed)
  with at_work(2) have "\<not> forsaken (taken_up dp svc i n r (with_db d c)) k n"
    unfolding at_work(1) using assms(2) by (auto simp: forsaken_def idle_def split: if_splits)
  then show ?thesis
    using assms(1,3,4) unfolding at_work(1) by (auto simp: deliverable_def next_in_def partition_of_def)
qed

lemma take_up_kept:
  assumes "sound dp c" "all_kept dp c" "next_in dp c n" "idle dp c (partition_of dp c n)" "cl_work c i = None"
    and "addressed (dp_topics dp) (cl_log c ! n)" "for_job k (kr_value (cl_log c ! n))"
    and run: "run_session f (claim_block ''worker'' svc env (PStr k) tid) (cl_db c) = (r, d)"
  shows "sound dp (taken_up dp svc i n r (with_db d c)) \<and> all_kept dp (taken_up dp svc i n r (with_db d c))"
proof (cases "\<exists>msg. r = Inr (Finished True msg)")
  case True
  then obtain msg where "r = Inr (Finished True msg)" ..
  moreover from this run have "succeeded (cl_db c) k \<and> d = cl_db c" by (auto dest: claim_finished)
  moreover have "k' = k" if "for_job k' (kr_value (cl_log c ! n))" for k'
    using that assms(7) by (simp add: for_job_def)
  ultimately show ?thesis
    using pass_on_sound [OF assms(1,3,4)] pass_on_kept [OF assms(1-3)] by (auto simp: taken_up_def)
next
  case False
  let ?c = "taken_up dp svc i n r (with_db d c)"
  have sel: "cl_db ?c = d" "cl_log ?c = cl_log c" "cl_position ?c = cl_position c"
    "\<And>j b. cl_work ?c j = Some b \<Longrightarrow> cl_work c j = Some b \<or> wk_place b = n"
    by (rule taken_up_cases [OF False, of dp svc i n "with_db d c"], auto split: if_splits)+
  have "\<not> deliverable dp c k' n" if "k' \<noteq> k" for k'
    using that assms(7) by (auto simp: deliverable_def for_job_def)
  then have "all_kept dp ?c"
    using sel claim_job_only [OF run] kept_deliverable [OF take_up_deliverable [OF assms(3,4,6,7) run False]]
    by (intro handler_kept [OF assms(1,2), of k]) (auto simp: deliverable_def)
  with take_up_sound [OF assms(1,3-7) run False] show ?thesis ..
qed

subsection \<open>Late claims\<close>

lemma late_taken_up_cases:
  obtains (idle) "late_taken_up svc i n r c = c"
  | (at_work) stg where
      "late_taken_up svc i n r c = set_work i (Some \<lparr>wk_place = n, wk_assigned = False, wk_stage = stg\<rparr>) c"
      "\<And>svc' l. stg = Working svc' l \<Longrightarrow> svc' = svc \<and> r = Inr (Claimed l)"
proof (cases r)
  case (Inl e)
  then show ?thesis by (intro idle) (simp add: late_taken_up_def)
next
  case x: (Inr x)
  show ?thesis
  proof (cases x)
    case (Finished b msg)
    with x show ?thesis by (cases b) (auto simp: late_taken_up_def intro: idle at_work)
  next
    case (Claimed l)
    with x show ?thesis by (intro at_work [of "Working svc l"]) (simp_all add: late_taken_up_def)
  qed
qed

text \<open>
  A worker that claims late, for a partition it has lost, leaves every record where it is. It does no harm
  where it does not take the job from a handler that is at work on it.
\<close>

lemma late_claim_kept:
  assumes "sound dp c" "all_kept dp c" "cl_work c i = None" "n < length (cl_log c)"
    and "addressed (dp_topics dp) (cl_log c ! n)" "for_job k (kr_value (cl_log c ! n))"
    and run: "run_session f (claim_block ''worker'' svc env (PStr k) tid) (cl_db c) = (r, d)"
    and harmless: "contested c n \<Longrightarrow> d = cl_db c"
  shows "sound dp (late_taken_up svc i n r (with_db d c)) \<and> all_kept dp (late_taken_up svc i n r (with_db d c))"
proof
  let ?c = "late_taken_up svc i n r (with_db d c)"
  have only: "job_only k (cl_db c) d" using run by (rule claim_job_only)
  show "sound dp ?c"
  proof (cases rule: late_taken_up_cases [of svc i n r "with_db d c"])
    case idle
    then show ?thesis using job_only_sound [OF assms(1) only] by simp
  next
    case (at_work stg)
    with claimed_work_sound [OF assms(1,3,4) _ assms(5,6) run at_work(2), of False] show ?thesis by simp
  qed
  have sel: "cl_db ?c = d" "cl_log ?c = cl_log c" "cl_position ?c = cl_position c"
    "\<And>j b. cl_work ?c j = Some b \<Longrightarrow> wk_assigned b \<Longrightarrow> cl_work c j = Some b"
    by (rule late_taken_up_cases [of svc i n r "with_db d c"], auto split: if_splits)+
  have adv: "advances c ?c" using job_only_advances [OF only] sel by (simp add: advances_def)
  have "kept dp ?c k" if kept: "kept dp c k"
  proof (rule kept_stays [OF assms(1) kept adv])
    show "kept dp ?c k" if m: "deliverable dp c k m" for m
    proof (rule kept_deliverable [of dp ?c k m], rule deliverable_stays [OF m adv])
      show "cl_position ?c (partition_of dp c m) \<le> m" using m sel(3) by (simp add: deliverable_def)
      show "cl_work c j = Some b \<and> (held (cl_db c) k svc' l \<longrightarrow> held (cl_db ?c) k svc' l)"
        if b: "cl_work ?c j = Some b" "wk_place b = m" "wk_assigned b" "wk_stage b = Working svc' l" for j b svc' l
      proof
        show old: "cl_work c j = Some b" using sel(4) b(1,3) .
        show "held (cl_db c) k svc' l \<longrightarrow> held (cl_db ?c) k svc' l"
        proof
          assume h: "held (cl_db c) k svc' l"
          have "for_job k (kr_value (cl_log c ! wk_place b))" using m b(2) by (simp add: deliverable_def)
          with old b(3,4) assms(6) h have "contested c n" unfolding contested_def by blast
          with harmless sel(1) h show "held (cl_db ?c) k svc' l" by simp
        qed
      qed
    qed
    show "messages_kept (cl_db c) (cl_db ?c)" using job_only_messages [OF only] sel(1) by simp
    show "cl_log ?c = cl_log c @ []" using sel(2) by simp
  qed simp
  then show "all_kept dp ?c"
    using only sel by (intro handler_kept [OF assms(1,2), of k]) (auto simp: deliverable_def)
qed

end
