(* ===== verification/No_Loss.thy ===== *)
theory No_Loss
  imports Custody_Steps
begin

section \<open>No job is lost\<close>

text \<open>
  A handler ends by recording success, by recording a failure and passing it on, or by raising; none of
  it leaves a job without custody. With the steps before, this is so in every state of the deployment.
\<close>

subsection \<open>The end of a handler\<close>

lemma finished_sound:
  assumes "sound dp c" "cl_work c i = Some wk"
  shows "sound dp (finished dp i wk c)"
proof (cases "wk_assigned wk")
  case True
  let ?c = "set_work i None c"
  have sound: "sound dp ?c" using assms(1) by (rule drop_work_sound)
  have "next_in dp c (wk_place wk)" using soundD(5) [OF assms] True by (simp add: work_ok_def)
  then have "next_in dp ?c (wk_place wk)" by (simp add: next_in_cong [of ?c c])
  moreover have "idle dp ?c (partition_of dp ?c (wk_place wk))"
    using soundD(6) [OF assms(1)] assms(2) True
    by (auto simp: idle_def works_apart_def partition_of_cong [of ?c c] split: if_splits)
  ultimately show ?thesis using True pass_on_sound [OF sound] by (simp add: finished_def)
next
  case False
  then show ?thesis using drop_work_sound [OF assms(1)] by (simp add: finished_def)
qed

lemma finished_passes:
  assumes "sound dp c" "cl_work c i = Some wk" "cl_position c (partition_of dp c m) \<le> m"
    and "m \<noteq> wk_place wk \<or> \<not> wk_assigned wk"
    and "\<And>j. j < length (cl_log c) \<Longrightarrow> partition_of dp c' j = partition_of dp c j"
    and "cl_position c' = cl_position c"
  shows "cl_position (finished dp i wk c') (partition_of dp c m) \<le> m"
proof -
  note ok = soundD(5) [OF assms(1,2), unfolded work_ok_def]
  then have place: "partition_of dp c' (wk_place wk) = partition_of dp c (wk_place wk)" using assms(5) by blast
  show ?thesis
  proof (cases "wk_assigned wk")
    case True
    with ok have "next_in dp c (wk_place wk)" by blast
    from next_in_passed [OF this assms(3)] True assms(3,4,6) place show ?thesis
      by (auto simp: finished_position pass_on_position)
  qed (use assms(3,6) in \<open>simp add: finished_position\<close>)
qed

lemma finish_kept:
  assumes "sound dp c" "all_kept dp c" "cl_work c i = Some wk" "wk_stage wk = Working svc l"
    and "for_job k (kr_value (cl_log c ! wk_place wk))"
    and run: "run_session f (success_block svc env (PStr k) tid l result) (cl_db c) = (Inr b, d)"
  shows "all_kept dp (finished dp i wk (with_db d c))"
proof -
  let ?c = "finished dp i wk (with_db d c)"
  have other: "\<not> deliverable dp c k' (wk_place wk)" if "k' \<noteq> k" for k'
    using that assms(5) by (auto simp: deliverable_def for_job_def)
  have passes: "cl_position ?c (partition_of dp c m) \<le> m"
    if "deliverable dp c k' m" "m \<noteq> wk_place wk \<or> \<not> wk_assigned wk" for k' m
    using that by (intro finished_passes [OF assms(1,3)]) (auto simp: deliverable_def partition_of_def)
  have "kept dp ?c k" if kept: "kept dp c k"
  proof (cases "succeeded d k")
    case False
    with success_raised [OF run] success_settles [OF run] have "d = cl_db c" "\<not> held (cl_db c) k svc l" by auto
    then have place: "wk_assigned wk \<Longrightarrow> \<not> deliverable dp c k (wk_place wk)"
      using assms(3,4) by (auto simp: deliverable_def forsaken_def)
    have adv: "advances c ?c" using \<open>d = cl_db c\<close> by (simp add: advances_def)
    show ?thesis
    proof (rule kept_stays [OF assms(1) kept adv])
      show "kept dp ?c k" if m: "deliverable dp c k m" for m
        using passes [OF m] place m \<open>d = cl_db c\<close>
        by (intro kept_deliverable [of dp ?c k m] deliverable_stays [OF m adv]) (auto split: if_splits)
      show "cl_log ?c = cl_log c @ []" by simp
    qed (simp_all add: \<open>d = cl_db c\<close>)
  qed (simp add: kept_def)
  then show ?thesis
    using success_job_only [OF run] passes other
    by (intro handler_kept [OF assms(1,2), of k]) (auto split: if_splits)
qed

lemma finish_raised_kept:
  assumes "sound dp c" "all_kept dp c"
    and run: "run_session f (success_block svc env (PStr k) tid l result) (cl_db c) = (r, d)"
  shows "all_kept dp (with_db d c)"
proof (cases "d = cl_db c")
  case False
  with success_raised [OF run] have "kept dp (with_db d c) k" by (simp add: kept_def)
  then show ?thesis
    using success_job_only [OF run] by (intro handler_kept [OF assms(1,2), of k]) (auto simp: deliverable_def)
qed (use assms(2) in simp)

lemma give_up_kept:
  assumes "sound dp c" "all_kept dp c" "cl_work c i = Some wk" "wk_stage wk = Working svc l"
    and "for_job k (kr_value (cl_log c ! wk_place wk))"
    and run: "run_session f (failure_block ''worker'' svc env (PStr k) tid l exc) (cl_db c) = (r, d)"
    and "x = None \<or> x = Some (wk\<lparr>wk_stage := Failing err\<rparr>)"
  shows "sound dp (set_work i x (with_db d c)) \<and> all_kept dp (set_work i x (with_db d c))"
proof
  let ?c = "set_work i x (with_db d c)"
  have only: "job_only k (cl_db c) d" using run by (rule failure_job_only)
  have wf: "works_from (with_db d c) ?c" using assms(3,7) by (auto simp: works_from_def split: if_splits)
  show "sound dp ?c"
    by (rule sound_stays [OF job_only_sound [OF assms(1) only] _ wf])
       (use soundD(3,4) [OF assms(1)] in \<open>auto simp: advances_def\<close>)
  have adv: "advances c ?c" using job_only_advances [OF only] by (simp add: advances_def)
  have work: "cl_work c j = Some b \<and> j \<noteq> i" if "cl_work ?c j = Some b" "wk_stage b = Working svc' l'" for j b svc' l'
    using that assms(7) by (auto split: if_splits)
  have held: "held (cl_db c) k svc' l' \<longrightarrow> held d k svc' l'"
    if b: "cl_work ?c j = Some b" "wk_stage b = Working svc' l'"
      and m: "for_job k (kr_value (cl_log c ! wk_place b))" for j b svc' l'
  proof (cases "d = cl_db c")
    case False
    with run obtain row where "jobs (cl_db c) k = Some row" "jm_lease_epoch row = lease_epoch l"
      by (rule failure_changes)
    then have "same_lease c wk b" if "held (cl_db c) k svc' l'"
      using that assms(4,5) b(2) m by (auto simp: held_def same_lease_def)
    with soundD(6) [OF assms(1)] assms(3) work [OF b] show ?thesis by (auto simp: works_apart_def)
  qed simp
  have "kept dp ?c k" if kept: "kept dp c k"
  proof (rule kept_stays [OF assms(1) kept adv])
    show "kept dp ?c k" if m: "deliverable dp c k m" for m
      using m work held by (intro kept_deliverable [of dp ?c k m] deliverable_stays [OF m adv]) (auto simp: deliverable_def)
    show "cl_log ?c = cl_log c @ []" by simp
    show "messages_kept (cl_db c) (cl_db ?c)" using job_only_messages [OF only] by simp
  qed simp
  then show "all_kept dp ?c"
    using only work by (intro handler_kept [OF assms(1,2), of k]) (auto simp: deliverable_def)
qed

subsection \<open>Passing a failure on\<close>

lemma wire_origin:
  "origin_header (retry_record tps v n origin reason due) = Some (utf8_decode origin)"
  "origin_header (dlq_record cfg v n origin reason) = Some (utf8_decode origin)"
  by (simp_all add: origin_header_def redelivered_def retry_record_def dlq_record_def decode_headers_def decode_wire
        header_names del: list.map)

lemma publish_retry_record:
  assumes "publish_retry ext cfg tps m n origin reason w = (r, w')"
  shows "wdb w' = wdb w"
    and "r \<noteq> Inr () \<and> acked w' = acked w
      \<or> (\<exists>n' due. acked w' = acked w @ [retry_record tps (m_value m) n' origin reason due])"
proof -
  show "wdb w' = wdb w"
    using assms
    by (auto simp: publish_retry_def Let_def now_ms_def split: sum.splits prod.splits dest!: publish_Inr(3) publish_Inl(1))
  show "r \<noteq> Inr () \<and> acked w' = acked w
      \<or> (\<exists>n' due. acked w' = acked w @ [retry_record tps (m_value m) n' origin reason due])"
    using assms
    by (fastforce simp: publish_retry_def Let_def now_ms_def retry_record_def wire_headers_def
          split: sum.splits prod.splits dest!: publish_Inr(1) publish_Inl(1))
qed

lemma publish_dlq_record:
  assumes "publish_dlq ext cfg m n origin reason w = (r, w')"
  shows "wdb w' = wdb w"
    and "r \<noteq> Inr () \<and> acked w' = acked w
      \<or> acked w' = acked w @ [dlq_record cfg (m_value m) n origin reason]"
  subgoal
    using assms
    by (auto simp: publish_dlq_def Let_def split: sum.splits prod.splits dest!: publish_Inr(3) publish_Inl(1))
  subgoal
    using assms
    by (fastforce simp: publish_dlq_def Let_def dlq_record_def wire_headers_def
          split: sum.splits prod.splits dest!: publish_Inr(1) publish_Inl(1))
  done

text \<open>
  What a worker does with a failure: nothing that is heard of, or one more record with the same
  value, meant for the same workers or for the operators.
\<close>

lemma pass_failure_record:
  assumes "wired dp" "addressed (dp_topics dp) (cl_log c ! n)"
    and "handle_message (dp_ext dp) (dp_cfg dp) (dp_topics dp) (answers err) (message_at dp c n) w = (r, w')"
  obtains "wdb w' = wdb w" "r \<noteq> Inr ()" "acked w' = acked w"
  | rec where "wdb w' = wdb w" "acked w' = acked w @ [rec]" "kr_value rec = kr_value (cl_log c ! n)"
      "origin_header rec = Some (consume_topic (dp_topics dp))"
      "kr_topic rec \<in> {retry_topic (dp_topics dp), kafka_dlq_topic (dp_cfg dp)}"
proof -
  let ?m = "message_at dp c n"
  have hdr: "map_of (decode_headers (m_headers ?m)) ORIGINAL_TOPIC_HEADER = origin_header (cl_log c ! n)"
    "m_topic ?m = kr_topic (cl_log c ! n)" "m_value ?m = kr_value (cl_log c ! n)"
    by (simp_all add: message_at_def redelivered_def origin_header_def)
  with wired_topics [OF assms(1)] assms(2)
  have own: "\<not> skipped (dp_topics dp) ?m" "origin_of ?m = consume_topic (dp_topics dp)"
    by (auto simp: skipped_def origin_of_def addressed_def header_or_def split: option.splits)
  have dec: "utf8_decode (consume_topic (dp_topics dp)) = consume_topic (dp_topics dp)"
    using utf8_decode_wf [OF wired_topics(3) [OF assms(1)]] .
  let ?w = "count_metric RETRY_FAILURE_TOTAL 1 w"
  from assms(3) own consider
      "publish_retry (dp_ext dp) (dp_cfg dp) (dp_topics dp) ?m (retry_count_of ?m)
         (consume_topic (dp_topics dp)) (error_reason err) ?w = (r, w')"
    | "publish_dlq (dp_ext dp) (dp_cfg dp) ?m (retry_count_of ?m)
         (consume_topic (dp_topics dp)) (error_reason err) ?w = (r, w')"
    by (auto simp: handle_message_def answers_def origin_of_def retry_count_of_def Let_def split: if_splits)
  then show thesis
  proof cases
    case 1
    from publish_retry_record [OF 1] hdr dec show thesis
      by (auto intro: that simp: wire_origin)
  next
    case 2
    from publish_dlq_record [OF 2] hdr dec show thesis
      by (auto intro: that simp: wire_origin)
  qed
qed

lemma record_for_job:
  assumes "sound dp c" "n < length (cl_log c)"
  obtains k where "for_job k (kr_value (cl_log c ! n))" "jobs (cl_db c) k \<noteq> None"
  using soundD(1) [OF assms(1) nth_mem [OF assms(2)]] by (auto simp: record_ok_def)

lemma pass_failure_sound:
  assumes "wired dp" "sound dp c" "cl_work c i = Some wk"
    and "wdb w = cl_db c" "acked w = cl_log c @ [rec]" "kr_value rec = kr_value (cl_log c ! wk_place wk)"
    and "origin_header rec = Some (consume_topic (dp_topics dp))"
  shows "sound dp (c\<lparr>cl_world := w\<rparr>)"
proof -
  let ?c = "c\<lparr>cl_world := w\<rparr>"
  have "wk_place wk < length (cl_log c)" using soundD(5) [OF assms(2,3)] by (simp add: work_ok_def)
  then obtain k where "for_job k (kr_value rec)" "jobs (cl_db c) k \<noteq> None"
    using record_for_job [OF assms(2)] assms(6) by metis
  then have "record_ok dp ?c rec" using assms(4,7) by (auto simp: record_ok_def)
  then show ?thesis
    using assms(4,5) soundD(3,4) [OF assms(2)]
    by (intro sound_stays [OF assms(2)]) (auto simp: advances_def intro: le_SucI)
qed

lemma pass_failure_kept:
  assumes "wired dp" "sound dp c" "all_kept dp c" "cl_work c i = Some wk"
    and w: "wdb w = cl_db c" "acked w = cl_log c @ [rec]" "kr_value rec = kr_value (cl_log c ! wk_place wk)"
    and "origin_header rec = Some (consume_topic (dp_topics dp))"
      "kr_topic rec \<in> {retry_topic (dp_topics dp), kafka_dlq_topic (dp_cfg dp)}"
    and c': "c' = finished dp i wk (c\<lparr>cl_world := w\<rparr>) \<or> c' = set_work i None (c\<lparr>cl_world := w\<rparr>)"
  shows "all_kept dp c'"
proof -
  note place = soundD(5) [OF assms(2,4), unfolded work_ok_def, THEN conjunct1]
  have sel: "cl_db c' = cl_db c" "cl_log c' = cl_log c @ [rec]" "cl_work c' = (cl_work c)(i := None)"
    using c' w by auto
  have adv: "advances c c'" using sel by (simp add: advances_def)
  have pos: "cl_position c' tp \<le> length (cl_log c)" for tp
    using c' place soundD(4) [OF assms(2), of tp] by (auto simp: finished_position)
  have part: "partition_of dp (c\<lparr>cl_world := w\<rparr>) j = partition_of dp c j" if "j < length (cl_log c)" for j
    using that w(2) by (simp add: partition_of_def nth_append)
  have rec: "kept dp c' k" if "for_job k (kr_value rec)" for k
  proof (cases "kr_topic rec = retry_topic (dp_topics dp)")
    case True
    have "wk_place b < length (cl_log c)" if "cl_work c' j = Some b" for j b
      using that sel(3) soundD(5) [OF assms(2)] by (auto simp: work_ok_def split: if_splits)
    with True that sel(2) pos assms(8) show ?thesis
      by (intro kept_deliverable [OF appended_deliverable [of _ c rec]]) (auto simp: addressed_def)
  next
    case False
    with assms(9) that sel(2) show ?thesis by (auto simp: kept_def dead_lettered_def)
  qed
  have "kept dp c' k" if "kept dp c k" for k
  proof (rule kept_stays [OF assms(2) that adv sel(2)])
    show "kept dp c' k" if m: "deliverable dp c k m" for m
    proof (cases "m = wk_place wk")
      case True
      with m rec w(3) show ?thesis by (simp add: deliverable_def)
    next
      case False
      with m c' have "cl_position c' (partition_of dp c m) \<le> m"
        using finished_passes [OF assms(2,4) _ _ part, of m] by (auto simp: deliverable_def)
      with m sel show ?thesis
        by (intro kept_deliverable [of dp c' k m] deliverable_stays [OF m adv]) (auto split: if_splits)
    qed
  qed (use sel(1) rec in auto)
  then show ?thesis using assms(3) sel(1) by (simp add: all_kept_def)
qed

subsection \<open>Every step\<close>

lemma request_kept:
  assumes "wired dp" "sound dp c" "all_kept dp c"
    and "run_session f (create_block (container_job_service (dp_cfg dp)) env payload) (cl_db c) = (r, d)"
  shows "sound dp (with_db d c) \<and> all_kept dp (with_db d c)"
  using assms(4)
proof (cases rule: run_session_cases)
  case (committed a)
  then show ?thesis using request_commit [OF assms(1-3)] by simp
qed (use assms(2,3) in simp)

lemma publish_kept:
  assumes "sound dp c" "all_kept dp c" "row \<in> set (outbox_messages (cl_db c))"
    and "publish (dp_ext dp) (ob_topic row) (ob_payload row) (ob_headers row) (cl_world c) = (r, w)"
  shows "sound dp (c\<lparr>cl_world := w\<rparr>) \<and> all_kept dp (c\<lparr>cl_world := w\<rparr>)"
proof (cases r)
  case (Inl e)
  with assms(4) have "wdb w = cl_db c" "acked w = cl_log c" by (auto dest: publish_Inl(1))
  then show ?thesis by (rule tick_kept [OF assms(1,2)])
next
  case (Inr u)
  from publish_Inr [OF assms(4) [unfolded Inr]]
  have "wdb w = cl_db c" "acked w = cl_log c @ [wire_record (item_of_row row)]"
    by (simp_all add: wire_record_def item_of_row_def)
  then show ?thesis by (rule send_kept [OF assms(1-3)])
qed

lemma take_up_step_kept:
  assumes "sound dp c" "all_kept dp c" "next_in dp c n" "idle dp c (partition_of dp c n)" "cl_work c i = None"
    and "kr_topic (cl_log c ! n) \<in> {consume_topic (dp_topics dp), retry_topic (dp_topics dp)}"
    and "\<not> skipped (dp_topics dp) (message_at dp c n)"
    and "py_getitem (kr_value (cl_log c ! n)) ''job_id'' = Inr jid"
    and "run_session f (claim_block ''worker'' svc env jid tid) (cl_db c) = (r, d)"
  shows "sound dp (taken_up dp svc i n r (with_db d c)) \<and> all_kept dp (taken_up dp svc i n r (with_db d c))"
proof -
  have n: "n < length (cl_log c)" using assms(3) by (simp add: next_in_def)
  with assms(1) obtain k where k: "for_job k (kr_value (cl_log c ! n))" by (rule record_for_job)
  then have "jid = PStr k" using assms(8) by (simp add: for_job_def)
  moreover have "addressed (dp_topics dp) (cl_log c ! n)"
    using not_skipped_addressed [OF soundD(1) [OF assms(1) nth_mem [OF n]] assms(6,7)] .
  ultimately show ?thesis using take_up_kept [OF assms(1-5) _ k] assms(9) by simp
qed

lemma late_claim_step_kept:
  assumes "dp_prompt dp" "sound dp c" "all_kept dp c" "n < length (cl_log c)" "cl_work c i = None"
    and "kr_topic (cl_log c ! n) \<in> {consume_topic (dp_topics dp), retry_topic (dp_topics dp)}"
    and "\<not> skipped (dp_topics dp) (message_at dp c n)"
    and "py_getitem (kr_value (cl_log c ! n)) ''job_id'' = Inr jid"
    and "run_session f (claim_block ''worker'' svc env jid tid) (cl_db c) = (r, d)"
    and "dp_prompt dp \<longrightarrow> contested c n \<longrightarrow> d = cl_db c"
  shows "sound dp (late_taken_up svc i n r (with_db d c)) \<and> all_kept dp (late_taken_up svc i n r (with_db d c))"
proof -
  from assms(2,4) obtain k where k: "for_job k (kr_value (cl_log c ! n))" by (rule record_for_job)
  then have "jid = PStr k" using assms(8) by (simp add: for_job_def)
  moreover have "addressed (dp_topics dp) (cl_log c ! n)"
    using not_skipped_addressed [OF soundD(1) [OF assms(2) nth_mem [OF assms(4)]] assms(6,7)] .
  ultimately show ?thesis using late_claim_kept [OF assms(2,3,5,4) _ k] assms(1,9,10) by simp
qed

text \<open>The job a handler works for.\<close>

lemma work_for_job:
  assumes "sound dp c" "cl_work c i = Some wk"
    and "py_getitem (kr_value (cl_log c ! wk_place wk)) ''job_id'' = Inr jid"
  obtains k where "for_job k (kr_value (cl_log c ! wk_place wk))" "jid = PStr k"
proof -
  have "wk_place wk < length (cl_log c)" using soundD(5) [OF assms(1,2)] by (simp add: work_ok_def)
  with assms(1) obtain k where "for_job k (kr_value (cl_log c ! wk_place wk))" by (rule record_for_job)
  with assms(3) show thesis by (intro that) (simp_all add: for_job_def)
qed

lemma finish_step_kept:
  assumes "sound dp c" "all_kept dp c" "cl_work c i = Some wk" "wk_stage wk = Working svc l"
    and "py_getitem (kr_value (cl_log c ! wk_place wk)) ''job_id'' = Inr jid"
    and "run_session f (success_block svc env jid tid l result) (cl_db c) = (r, d)"
    and c': "c' = (case r of Inl _ \<Rightarrow> with_db d c | Inr _ \<Rightarrow> finished dp i wk (with_db d c))"
  shows "sound dp c' \<and> all_kept dp c'"
proof -
  from assms(1,3,5) obtain k where k: "for_job k (kr_value (cl_log c ! wk_place wk))" "jid = PStr k"
    by (rule work_for_job)
  note run = assms(6) [unfolded k(2)]
  have sound: "sound dp (with_db d c)" using job_only_sound [OF assms(1) success_job_only [OF run]] .
  show ?thesis
  proof (cases r)
    case (Inl e)
    then show ?thesis using c' sound finish_raised_kept [OF assms(1,2) run] by simp
  next
    case (Inr b)
    then show ?thesis
      using c' finished_sound [OF sound, of i wk] assms(3) finish_kept [OF assms(1-4) k(1) run [unfolded Inr]]
      by simp
  qed
qed

lemma give_up_step_kept:
  assumes "sound dp c" "all_kept dp c" "cl_work c i = Some wk" "wk_stage wk = Working svc l"
    and "py_getitem (kr_value (cl_log c ! wk_place wk)) ''job_id'' = Inr jid"
    and "run_session f (failure_block ''worker'' svc env jid tid l exc) (cl_db c) = (r, d)"
    and c': "c' = set_work i
      (case r of Inl _ \<Rightarrow> None | Inr _ \<Rightarrow> Some (wk\<lparr>wk_stage := Failing (Some (exc_str exc))\<rparr>)) (with_db d c)"
  shows "sound dp c' \<and> all_kept dp c'"
proof -
  from assms(1,3,5) obtain k where k: "for_job k (kr_value (cl_log c ! wk_place wk))" "jid = PStr k"
    by (rule work_for_job)
  show ?thesis
    unfolding c'
    by (rule give_up_kept [OF assms(1-4) k(1) assms(6) [unfolded k(2)], of _ "Some (exc_str exc)"])
       (simp split: sum.splits)
qed

lemma pass_failure_step_kept:
  assumes "wired dp" "sound dp c" "all_kept dp c" "cl_work c i = Some wk"
    and "handle_message (dp_ext dp) (dp_cfg dp) (dp_topics dp) (answers err) (message_at dp c (wk_place wk))
      (cl_world c) = (r, w)"
    and c': "c' = (if r = Inr () \<and> heard then finished dp i wk (c\<lparr>cl_world := w\<rparr>)
       else set_work i None (c\<lparr>cl_world := w\<rparr>))"
  shows "sound dp c' \<and> all_kept dp c'"
proof -
  have "addressed (dp_topics dp) (cl_log c ! wk_place wk)"
    using soundD(5) [OF assms(2,4)] by (simp add: work_ok_def)
  from pass_failure_record [OF assms(1) this assms(5)] show ?thesis
  proof cases
    case 1
    then have "c' = set_work i None (c\<lparr>cl_world := w\<rparr>)" using c' by simp
    then show ?thesis
      using tick_kept [OF assms(2,3) 1(1,3)] drop_work_sound drop_work_kept by blast
  next
    case (2 rec)
    have either: "c' = finished dp i wk (c\<lparr>cl_world := w\<rparr>) \<or> c' = set_work i None (c\<lparr>cl_world := w\<rparr>)"
      using c' by auto
    have "sound dp (c\<lparr>cl_world := w\<rparr>)" using pass_failure_sound [OF assms(1,2,4) 2(1-4)] .
    then have "sound dp c'"
      using either finished_sound [of dp "c\<lparr>cl_world := w\<rparr>" i wk] assms(4) drop_work_sound by auto
    then show ?thesis using pass_failure_kept [OF assms(1-4) 2 either] ..
  qed
qed

lemma cluster_step_kept:
  assumes "cluster_step dp c c'" "wired dp" "sound dp c" "all_kept dp c" "dp_prompt dp"
  shows "sound dp c' \<and> all_kept dp c'"
  using assms(1)
proof cases
  case finish
  then show ?thesis using finish_step_kept [OF assms(3,4)] by blast
next
  case give_up
  then show ?thesis using give_up_step_kept [OF assms(3,4)] by blast
next
  case pass_failure
  then show ?thesis using pass_failure_step_kept [OF assms(2-4)] by blast
next
  case take_up
  then show ?thesis using take_up_step_kept [OF assms(3,4)] by blast
next
  case late_claim
  then show ?thesis using late_claim_step_kept [OF assms(5,3,4)] by blast
next
  case request
  then show ?thesis using request_kept [OF assms(2-4)] by blast
next
  case send
  then show ?thesis using publish_kept [OF assms(3,4)] by blast
qed (use assms(2-4) in \<open>simp_all add: send_kept mark_kept mark_failure_kept skip_kept commit_kept take_away_kept drop_stale_kept
       drop_work_sound drop_work_kept tick_kept\<close>)

definition custody :: "deployment \<Rightarrow> cluster \<Rightarrow> bool" where
  "custody dp c \<longleftrightarrow> wired dp \<longrightarrow> dp_prompt dp \<longrightarrow> sound dp c \<and> all_kept dp c"

interpretation custody_kept: invariant_system "cluster_step dp" "custody dp" for dp
  by unfold_locales (simp add: custody_def cluster_step_kept)

lemma fresh_custody: "custody dp fresh_cluster"
  by (simp add: custody_def sound_def all_kept_def works_apart_def fresh_cluster_def empty_db_def)

text \<open>
  C2: No accepted job is lost, as long as no worker takes a job late. In every state the deployment can reach
  (any number of requests, relay passes, deliveries, duplicates, failed and unheard sends, failed and
  ambiguous commits, expired leases, rebalances, crashes and restarts, in any order, and claims by workers
  that have lost their partition) every job is SUCCESS, or its request waits in the outbox, or a record for
  it that the workers will not skip lies at or after the committed offset of its partition and so will be
  delivered (again), or a record for it is on the dead-letter topic. The one thing that must not happen
  (\<open>dp_prompt\<close>): a worker that has lost its partition claims a job, from its old poll, while a handler that
  has its partition is at work on the job under a lease that has run out. \<open>late_claim_loses_job\<close> shows that
  the job is lost otherwise.
\<close>

theorem no_job_lost:
  assumes "wired dp" and "dp_prompt dp" and "(cluster_step dp)\<^sup>*\<^sup>* fresh_cluster c" and "jobs (cl_db c) k = Some r"
  shows "jm_status r = status_value SUCCESS
    \<or> (\<exists>row \<in> set (outbox_messages (cl_db c)). is_pending row \<and> for_job k (ob_payload row)
         \<and> ob_topic row = consume_topic (dp_topics dp))
    \<or> (\<exists>n < length (cl_log c). for_job k (kr_value (cl_log c ! n))
         \<and> kr_topic (cl_log c ! n) \<in> {consume_topic (dp_topics dp), retry_topic (dp_topics dp)}
         \<and> \<not> skipped (dp_topics dp) (message_at dp c n)
         \<and> cl_committed c (partition_of dp c n) \<le> n)
    \<or> (\<exists>n < length (cl_log c). for_job k (kr_value (cl_log c ! n))
         \<and> kr_topic (cl_log c ! n) = kafka_dlq_topic (dp_cfg dp))"
proof -
  have "custody dp c" using custody_kept.inv_steps [OF assms(3) fresh_custody] .
  with assms(1,2,4) have sound: "sound dp c" and "kept dp c k" by (auto simp: custody_def all_kept_def)
  from this(2) consider "succeeded (cl_db c) k" | "unsent c k" | "dead_lettered dp c k" | n where "deliverable dp c k n"
    unfolding kept_def by blast
  then show ?thesis
  proof cases
    case 1
    with assms(4) show ?thesis by (simp add: succeeded_def)
  next
    case 2
    then obtain row where "row \<in> set (outbox_messages (cl_db c))" "for_job k (ob_payload row)"
      "wire_record (item_of_row row) \<notin> set (cl_log c)"
      by (auto simp: unsent_def wire_record_def item_of_row_def)
    moreover from this soundD(2) [OF sound this(1)] have "is_pending row" "ob_topic row = consume_topic (dp_topics dp)"
      by (auto simp: row_sound_def wire_record_def item_of_row_def)
    ultimately show ?thesis by blast
  next
    case 3
    then show ?thesis unfolding dead_lettered_def by (metis in_set_conv_nth)
  next
    case (4 n)
    then have "\<not> skipped (dp_topics dp) (message_at dp c n)" using skipped_not_addressed [OF assms(1)]
      by (auto simp: deliverable_def)
    moreover have "cl_committed c (partition_of dp c n) \<le> n"
      using 4 order_trans [OF soundD(3) [OF sound]] by (simp add: deliverable_def)
    ultimately show ?thesis using 4 by (auto simp: deliverable_def addressed_def)
  qed
qed

text \<open>A request, a send, and the mark in the outbox: from then on the job is on the request topic.\<close>

definition sample_deployment :: deployment where
  "sample_deployment = \<lparr>dp_ext = sample_externals, dp_cfg = default_settings, dp_part = (\<lambda>_. 0), dp_prompt = True\<rparr>"

lemma sample_cfg: "dp_cfg sample_deployment = default_settings"
  by (simp add: sample_deployment_def)

lemma sample_prompt: "dp_prompt sample_deployment"
  by (simp add: sample_deployment_def)

lemma sample_wired: "wired sample_deployment"
  and sample_topics: "dp_topics sample_deployment = \<lparr>consume_topic = ''request-topic'', retry_topic = ''retry-topic''\<rparr>"
proof -
  have "utf8_wf ''request-topic''" by (auto intro!: utf8_wf_ascii simp: is_ascii_def byte_in_def)
  then show "wired sample_deployment" by (simp add: wired_def sample_deployment_def default_settings_def)
  show "dp_topics sample_deployment = \<lparr>consume_topic = ''request-topic'', retry_topic = ''retry-topic''\<rparr>"
    by (simp add: sample_deployment_def worker_topics_def resolve_worker_topic_def
          resolve_worker_retry_topic_def default_settings_def)
qed

lemma sample_sent:
  obtains c where "(cluster_step sample_deployment)\<^sup>*\<^sup>* fresh_cluster c" "jobs (cl_db c) ''rx'' \<noteq> None"
    "\<not> succeeded (cl_db c) ''rx''" "list_all (\<lambda>row. \<not> is_pending row) (outbox_messages (cl_db c))"
    "\<forall>rec \<in> set (cl_log c). kr_topic rec = ''request-topic''"
    "length (cl_log c) = 1" "cl_position c = (\<lambda>_. 0)" "cl_work c = Map.empty" "outbox_ok (cl_db c)"
    "cl_committed c = (\<lambda>_. 0)" "\<exists>r. jobs (cl_db c) ''rx'' = Some r \<and> jm_status r = status_value PENDING"
    "map je_event_id (job_events (cl_db c)) = [''rxxx'']"
    "\<forall>rec \<in> set (cl_log c). kr_headers rec = None \<and> kr_value rec = request_event (sample_tx (CHR ''r'')) (PDict [])"
proof -
  obtain d where d: "create_block sample_js (sample_tx (CHR ''r'')) (PDict []) empty_db = Inr (Commit () d)"
    using sample_block by blast
  let ?c1 = "with_db d fresh_cluster"
  have js: "container_job_service (dp_cfg sample_deployment) = sample_js"
    by (simp add: container_job_service_def sample_js_def default_settings_def sample_deployment_def)
  have 1: "cluster_step sample_deployment fresh_cluster ?c1"
    by (rule cluster_step.request [where f = TxOk and env = "sample_tx (CHR ''r'')" and payload = "PDict []"])
       (simp add: js fresh_cluster_def d)
  from d obtain row where row: "outbox_messages d = [row]"
    "wire_record (item_of_row row) = \<lparr>kr_topic = js_topic sample_js,
       kr_value = request_event (sample_tx (CHR ''r'')) (PDict []), kr_headers = None\<rparr>"
    by (rule create_rows) (simp add: empty_db_def)
  let ?c2 = "?c1\<lparr>cl_world := (cl_world ?c1)\<lparr>acked := cl_log ?c1 @ [wire_record (item_of_row row)]\<rparr>\<rparr>"
  have 2: "cluster_step sample_deployment ?c1 ?c2"
    by (rule cluster_step.send_unheard) (simp add: row(1))
  let ?c3 = "with_db (mark_published 7 [ob_id row] (cl_db ?c2)) ?c2"
  have 3: "cluster_step sample_deployment ?c2 ?c3"
    by (rule cluster_step.mark) (simp add: row(1))
  from d have job: "jobs d ''rx'' \<noteq> None" "\<not> succeeded d ''rx''"
    "\<exists>r. jobs d ''rx'' = Some r \<and> jm_status r = status_value PENDING"
    "map je_event_id (job_events d) = [''rxxx'']"
    by (auto elim!: create_block_Commit simp: succeeded_def empty_db_def numeral_3_eq_3)
  show thesis
  proof (rule that [of ?c3])
    show "(cluster_step sample_deployment)\<^sup>*\<^sup>* fresh_cluster ?c3"
      by (rule rtranclp.rtrancl_into_rtrancl [of "cluster_step sample_deployment" _ ?c2, OF _ 3],
          rule rtranclp.rtrancl_into_rtrancl [of "cluster_step sample_deployment" _ ?c1, OF _ 2],
          rule r_into_rtranclp [of "cluster_step sample_deployment", OF 1])
    show "outbox_ok (cl_db ?c3)"
      using create_block_outbox_ok [OF d] relay_port.ok_published by (simp add: outbox_ok_def empty_db_def)
  qed (use job row in \<open>simp_all add: succeeded_def mark_published_def publish_row_def is_pending_def
        sample_js_def fresh_cluster_def\<close>)
qed

theorem no_job_lost_witness:
  "\<exists>c. (cluster_step sample_deployment)\<^sup>*\<^sup>* fresh_cluster c \<and> jobs (cl_db c) ''rx'' \<noteq> None
     \<and> (\<exists>n < length (cl_log c). for_job ''rx'' (kr_value (cl_log c ! n))
          \<and> kr_topic (cl_log c ! n) \<in> {''request-topic'', ''retry-topic''}
          \<and> cl_committed c (partition_of sample_deployment c n) \<le> n)"
proof -
  obtain c where c: "(cluster_step sample_deployment)\<^sup>*\<^sup>* fresh_cluster c" "jobs (cl_db c) ''rx'' \<noteq> None"
    "\<not> succeeded (cl_db c) ''rx''" "list_all (\<lambda>row. \<not> is_pending row) (outbox_messages (cl_db c))"
    "\<forall>rec \<in> set (cl_log c). kr_topic rec = ''request-topic''"
    by (rule sample_sent)
  from c(2) obtain r where r: "jobs (cl_db c) ''rx'' = Some r" by blast
  from no_job_lost [OF sample_wired sample_prompt c(1) r] c(3-5) r have "\<exists>n < length (cl_log c).
      for_job ''rx'' (kr_value (cl_log c ! n)) \<and> kr_topic (cl_log c ! n) \<in> {''request-topic'', ''retry-topic''}
      \<and> cl_committed c (partition_of sample_deployment c n) \<le> n"
    unfolding sample_topics by (auto simp: succeeded_def list_all_iff sample_cfg dest: nth_mem)
  with c(1,2) show ?thesis by blast
qed

end
