(* ===== verification/Cluster_Runs.thy ===== *)
theory Cluster_Runs
  imports No_Loss
begin

section \<open>The operations are runs of the deployment\<close>

text \<open>
  The functions that model the code, put beside the steps of the deployment: what \<open>create_job\<close>,
  \<open>drain_once\<close> and the handling of a message by the unified worker do to the world is a sequence of
  steps, with the steps of others wherever their surroundings let others in.
\<close>

abbreviation in_world :: "world \<Rightarrow> cluster \<Rightarrow> cluster" where
  "in_world w c \<equiv> c\<lparr>cl_world := w\<rparr>"

text \<open>
  What others may commit in between from wherever the cluster stands: requests and the book-keeping of
  relays, for example. What depends on the records at hand, such as the claims of other workers, falls
  between the steps of a run.
\<close>

definition beside :: "deployment \<Rightarrow> (db \<Rightarrow> db) \<Rightarrow> bool" where
  "beside dp f \<longleftrightarrow> (\<forall>c. (cluster_step dp)\<^sup>*\<^sup>* c (in_world (world_env f (cl_world c)) c))"

lemma beside_id: "beside dp (\<lambda>d. d)"
  by (simp add: beside_def world_env_def)

lemma beside_request:
  "beside dp (\<lambda>d. snd (run_session f (create_block (container_job_service (dp_cfg dp)) env payload) d))"
  unfolding beside_def
proof
  fix c
  have "cluster_step dp c (with_db (snd (run_session f (create_block (container_job_service (dp_cfg dp)) env payload)
      (cl_db c))) c)"
    by (rule cluster_step.request) (rule surjective_pairing)
  then show "(cluster_step dp)\<^sup>*\<^sup>* c (in_world (world_env (\<lambda>d. snd (run_session f
      (create_block (container_job_service (dp_cfg dp)) env payload) d)) (cl_world c)) c)"
    by (simp add: with_db_def world_env_def)
qed

lemma beside_mark_failure: "beside dp (mark_failed oid err)"
  unfolding beside_def
proof
  fix c
  show "(cluster_step dp)\<^sup>*\<^sup>* c (in_world (world_env (mark_failed oid err) (cl_world c)) c)"
    using cluster_step.mark_failure [of dp c oid err] by (simp add: with_db_def world_env_def)
qed

lemma beside_comp: "beside dp f \<Longrightarrow> beside dp g \<Longrightarrow> beside dp (\<lambda>d. g (f d))"
  unfolding beside_def
proof
  fix c
  assume f: "\<forall>c. (cluster_step dp)\<^sup>*\<^sup>* c (in_world (world_env f (cl_world c)) c)"
    and g: "\<forall>c. (cluster_step dp)\<^sup>*\<^sup>* c (in_world (world_env g (cl_world c)) c)"
  have "(cluster_step dp)\<^sup>*\<^sup>* (in_world (world_env f (cl_world c)) c) (in_world (world_env (\<lambda>d. g (f d)) (cl_world c)) c)"
    using g [rule_format, of "in_world (world_env f (cl_world c)) c"] by (simp add: world_env_def)
  with f show "(cluster_step dp)\<^sup>*\<^sup>* c (in_world (world_env (\<lambda>d. g (f d)) (cl_world c)) c)"
    by (meson rtranclp_trans)
qed

lemma beside_run:
  assumes "beside dp f" "(cluster_step dp)\<^sup>*\<^sup>* c (in_world w c')"
  shows "(cluster_step dp)\<^sup>*\<^sup>* c (in_world (world_env f w) c')"
proof -
  have "(cluster_step dp)\<^sup>*\<^sup>* (in_world w c') (in_world (world_env f w) c')"
    using assms(1) [unfolded beside_def, rule_format, of "in_world w c'"] by simp
  with assms(2) show ?thesis by (rule rtranclp_trans)
qed

lemma tick_run:
  assumes "(cluster_step dp)\<^sup>*\<^sup>* c (in_world w c')" "wdb w' = wdb w" "acked w' = acked w"
  shows "(cluster_step dp)\<^sup>*\<^sup>* c (in_world w' c')"
proof -
  have "cluster_step dp (in_world w c') (in_world w' (in_world w c'))"
    using assms(2,3) by (intro cluster_step.tick) simp_all
  then show ?thesis using assms(1) by simp
qed

subsection \<open>Requests\<close>

lemma create_job_run:
  assumes "create_job st (container_job_service (dp_cfg dp)) env payload ikey (cl_world c) s = (r, w', s')"
    and "beside dp (ce_db env)"
  shows "(cluster_step dp)\<^sup>*\<^sup>* c (in_world w' c)"
proof -
  let ?w = "world_env (ce_db env) (cl_world c)"
  have before: "(cluster_step dp)\<^sup>*\<^sup>* c (in_world ?w c)" using beside_run [OF assms(2), of c "cl_world c" c] by simp
  have "wdb w' = wdb ?w \<or> (\<exists>x. run_session (tx_fault (ce_tx env))
      (create_block (container_job_service (dp_cfg dp)) (ce_tx env) payload) (wdb ?w) = (x, wdb w'))"
    and log: "acked w' = acked ?w"
    using assms(1)
    by (auto simp: create_job_def write_job_def Let_def return_existing_def
        split: sum.splits option.splits prod.splits bool.splits)
  then consider "wdb w' = wdb ?w" | x where "run_session (tx_fault (ce_tx env))
      (create_block (container_job_service (dp_cfg dp)) (ce_tx env) payload) (wdb ?w) = (x, wdb w')" by blast
  then show ?thesis
  proof cases
    case 1
    then show ?thesis using tick_run [OF before] log by simp
  next
    case 2
    then have "cluster_step dp (in_world ?w c) (with_db (wdb w') (in_world ?w c))"
      by (intro cluster_step.request) simp
    with before have "(cluster_step dp)\<^sup>*\<^sup>* c (in_world (?w\<lparr>wdb := wdb w'\<rparr>) c)"
      by (simp add: with_db_def)
    then show ?thesis by (rule tick_run) (simp_all add: log)
  qed
qed

subsection \<open>Relay passes\<close>

lemma publish_db:
  "publish ext t v hs w = (r, w') \<Longrightarrow> publish ext t v hs (w\<lparr>wdb := d\<rparr>) = (r, w'\<lparr>wdb := d\<rparr>)"
  by (auto simp: publish_def Let_def count_metric_def split: option.splits)

lemma drain_loop_run:
  assumes "drain_loop (dp_ext dp) items sent d w = (sent', d', w')"
    and "\<forall>m \<in> set items. \<exists>row \<in> set (outbox_messages d). item_of_row row = m"
    and "(cluster_step dp)\<^sup>*\<^sup>* c (in_world (w\<lparr>wdb := d\<rparr>) c')"
  shows "(cluster_step dp)\<^sup>*\<^sup>* c (in_world (w'\<lparr>wdb := d\<rparr>) c')
    \<and> (cluster_step dp)\<^sup>*\<^sup>* c (in_world (w'\<lparr>wdb := d'\<rparr>) c')"
  using assms
proof (induction items arbitrary: sent w)
  case (Cons m ms)
  from Cons.prems(2) obtain row where row: "row \<in> set (outbox_messages d)" "m = item_of_row row" by auto
  obtain r w1 where pub: "publish (dp_ext dp) (oi_topic m) (oi_payload m) (oi_headers m) w = (r, w1)" by fastforce
  have "cluster_step dp (in_world (w\<lparr>wdb := d\<rparr>) c') (in_world (w1\<lparr>wdb := d\<rparr>) (in_world (w\<lparr>wdb := d\<rparr>) c'))"
    by (rule cluster_step.send [of row _ _ r])
       (use row publish_db [OF pub, of d] in \<open>simp_all add: item_of_row_def\<close>)
  with Cons.prems(3) have sent: "(cluster_step dp)\<^sup>*\<^sup>* c (in_world (w1\<lparr>wdb := d\<rparr>) c')" by simp
  show ?case
  proof (cases r)
    case (Inl e)
    with Cons.prems(1) pub have w': "w' = count_metric OUTBOX_PUBLISH_FAILURE_TOTAL 1 w1"
      "d' = mark_failed (oi_id m) (exc_type e @ '': '' @ exc_str e) d" by simp_all
    have "cluster_step dp (in_world (w1\<lparr>wdb := d\<rparr>) c') (with_db d' (in_world (w1\<lparr>wdb := d\<rparr>) c'))"
      using cluster_step.mark_failure [of dp "in_world (w1\<lparr>wdb := d\<rparr>) c'"] by (simp add: w'(2))
    with sent have "(cluster_step dp)\<^sup>*\<^sup>* c (in_world (w1\<lparr>wdb := d'\<rparr>) c')" by (simp add: with_db_def)
    then have "(cluster_step dp)\<^sup>*\<^sup>* c (in_world (w'\<lparr>wdb := d'\<rparr>) c')"
      by (rule tick_run) (simp_all add: w'(1))
    moreover from sent have "(cluster_step dp)\<^sup>*\<^sup>* c (in_world (w'\<lparr>wdb := d\<rparr>) c')"
      by (rule tick_run) (simp_all add: w'(1))
    ultimately show ?thesis by blast
  next
    case (Inr u)
    with Cons pub sent show ?thesis by auto
  qed
qed simp

text \<open>What a pass has sent is in the log, so it may be marked.\<close>

lemma drain_loop_sent:
  assumes "drain_loop ext items [] d w = (sent, d1, w1)" "outbox_ok d"
    and "\<forall>m \<in> set items. \<exists>row \<in> set (outbox_messages d). item_of_row row = m"
    and "row \<in> set (outbox_messages d1)" "ob_id row \<in> set sent"
  shows "wire_record (item_of_row row) \<in> set (acked w1)"
proof -
  from drain_loop_rows(3) [OF assms(1)] assms(4) obtain row0 where row0: "row0 \<in> set (outbox_messages d)"
    "ob_id row0 = ob_id row" "wire_record (item_of_row row0) = wire_record (item_of_row row)" by blast
  from drain_loop_rows(1) [OF assms(1)] assms(3,5) obtain row1 where row1: "row1 \<in> set (outbox_messages d)"
    "ob_id row1 = ob_id row" "wire_record (item_of_row row1) \<in> set (acked w1)"
    by (fastforce simp: item_of_row_def)
  have "row1 = row0" using assms(2) row1(1) row0(1) by (rule outbox_unique) (simp add: row0(2) row1(2))
  with row1(3) row0(3) show ?thesis by simp
qed

lemma drain_once_run:
  assumes "drain_once rl (dp_ext dp) re (cl_world c) = (r, w')"
    and "beside dp (re_during re)" "only_adds (cl_db c) (re_during re (cl_db c))"
  shows "(cluster_step dp)\<^sup>*\<^sup>* c (in_world w' c)"
proof -
  let ?w = "cl_world c" and ?d0 = "re_during re (cl_db c)"
  let ?items = "fetch_pending (re_dialect re) (re_locked re) (rl_batch_size rl) (cl_db c)"
  let ?wg = "set_gauge OUTBOX_PENDING_BACKLOG (of_nat (length ?items)) ?w"
  obtain sent d1 w1 where loop: "drain_loop (dp_ext dp) ?items [] ?d0 ?wg = (sent, d1, w1)"
    by (cases "drain_loop (dp_ext dp) ?items [] ?d0 ?wg")
  have before: "(cluster_step dp)\<^sup>*\<^sup>* c (in_world (?w\<lparr>wdb := ?d0\<rparr>) c)"
    using beside_run [OF assms(2), of c ?w c] by (simp add: world_env_def)
  then have "(cluster_step dp)\<^sup>*\<^sup>* c (in_world (?wg\<lparr>wdb := ?d0\<rparr>) c)" by (rule tick_run) simp_all
  moreover have rows: "\<forall>m \<in> set ?items. \<exists>row \<in> set (outbox_messages ?d0). item_of_row row = m"
    using fetch_pending_rows assms(3) by (fastforce simp: only_adds_def)
  ultimately have looped: "(cluster_step dp)\<^sup>*\<^sup>* c (in_world (w1\<lparr>wdb := ?d0\<rparr>) c)"
      "(cluster_step dp)\<^sup>*\<^sup>* c (in_world (w1\<lparr>wdb := d1\<rparr>) c)"
    using drain_loop_run [OF loop] by blast+
  let ?d2 = "mark_published (re_now re) sent d1"
  have ok: "outbox_ok ?d0" using assms(3) by (simp add: only_adds_def)
  have "cluster_step dp (in_world (w1\<lparr>wdb := d1\<rparr>) c) (with_db ?d2 (in_world (w1\<lparr>wdb := d1\<rparr>) c))"
    using cluster_step.mark [of "in_world (w1\<lparr>wdb := d1\<rparr>) c" sent dp "re_now re"] drain_loop_sent [OF loop ok rows]
    by simp
  with looped(2) have marked: "(cluster_step dp)\<^sup>*\<^sup>* c (in_world (w1\<lparr>wdb := ?d2\<rparr>) c)"
    by (simp add: with_db_def)
  from assms(1) loop consider "wdb w' = ?d0" "acked w' = acked ?w" | "w' = w1\<lparr>wdb := ?d0\<rparr>"
    | "wdb w' = ?d2" "acked w' = acked w1"
    by (auto simp: drain_once_def Let_def split: option.splits if_splits tx_fault.splits)
  then show ?thesis
    by cases (use looped(1) in \<open>simp_all add: tick_run [OF before] tick_run [OF marked]\<close>)
qed

subsection \<open>Deliveries\<close>

abbreviation at_work :: "nat \<Rightarrow> nat \<Rightarrow> stage \<Rightarrow> cluster \<Rightarrow> cluster" where
  "at_work i n stg c \<equiv> set_work i (Some \<lparr>wk_place = n, wk_assigned = True, wk_stage = stg\<rparr>) c"

lemma in_world_commutes:
  "in_world w (set_work i x c) = set_work i x (in_world w c)"
  "acked w = cl_log c \<Longrightarrow> in_world w (pass_on dp n c) = pass_on dp n (in_world w c)"
  "in_world w (with_db d c) = in_world w c"
  by (simp_all add: set_work_def pass_on_def partition_of_def with_db_def)

lemma with_db_commutes:
  "with_db d (set_work i x c) = set_work i x (with_db d c)"
  "with_db d (in_world w c) = in_world (w\<lparr>wdb := d\<rparr>) c"
  by (simp_all add: set_work_def with_db_def)

lemma set_work_twice [simp]: "set_work i x (set_work i y c) = set_work i x c"
  by (simp add: set_work_def)

lemma taken_up_world:
  "acked w = cl_log c \<Longrightarrow> in_world w (taken_up dp svc i n r (with_db d c)) = taken_up dp svc i n r (in_world w c)"
  by (auto simp: taken_up_def in_world_commutes split: sum.splits claim_result.splits)

lemma claim_phase_log: "claim_phase source svc env jid tid w = (r, w') \<Longrightarrow> acked w' = acked w"
  by (auto simp: claim_phase_def count_takeover_def Let_def
      split: prod.splits sum.splits claim_result.splits bool.splits option.splits if_splits)

lemma claim_phase_run:
  assumes "claim_phase ''worker'' svc env jid tid (cl_world c) = (r, w)"
    and "next_in dp c n" "idle dp c (partition_of dp c n)" "cl_work c i = None"
    and "kr_topic (cl_log c ! n) \<in> {consume_topic (dp_topics dp), retry_topic (dp_topics dp)}"
    and "\<not> skipped (dp_topics dp) (message_at dp c n)"
    and "py_getitem (kr_value (cl_log c ! n)) ''job_id'' = Inr jid"
    and "py_getitem (kr_value (cl_log c ! n)) ''trace_id'' = Inr tid"
  shows "(cluster_step dp)\<^sup>*\<^sup>* c (taken_up dp svc i n r (in_world w c))"
proof -
  have run: "run_session (tx_fault env) (claim_block ''worker'' svc env jid tid) (cl_db c) = (r, wdb w)"
    using assms(1)
    by (auto simp: claim_phase_def Let_def split: prod.splits sum.splits claim_result.splits bool.splits)
  have log: "acked w = cl_log c" using assms(1) by (rule claim_phase_log)
  have "cluster_step dp c (taken_up dp svc i n r (with_db (wdb w) c))"
    using assms(2-8) run by (rule cluster_step.take_up)
  moreover have "cluster_step dp (taken_up dp svc i n r (with_db (wdb w) c))
      (in_world w (taken_up dp svc i n r (with_db (wdb w) c)))"
    by (rule cluster_step.tick)
       (simp_all add: log taken_up_def split: sum.splits claim_result.splits)
  ultimately show ?thesis unfolding taken_up_world [OF log] by (meson converse_rtranclp_into_rtranclp r_into_rtranclp)
qed

lemma beside_work_run:
  assumes "beside dp f" "(cluster_step dp)\<^sup>*\<^sup>* c0 (at_work i n stg (in_world w c))"
  shows "(cluster_step dp)\<^sup>*\<^sup>* c0 (at_work i n stg (in_world (world_env f w) c))"
  using beside_run [OF assms(1), of c0 w "at_work i n stg c"] assms(2) by (simp add: in_world_commutes)

lemma tick_work_run:
  assumes "(cluster_step dp)\<^sup>*\<^sup>* c0 (set_work i x (in_world w c))" "wdb w' = wdb w" "acked w' = acked w"
  shows "(cluster_step dp)\<^sup>*\<^sup>* c0 (set_work i x (in_world w' c))"
  using tick_run [of dp c0 w "set_work i x c" w'] assms by (simp add: in_world_commutes)

text \<open>The block that records success: the handler is done, or stays at work if it raised.\<close>

lemma success_phase_run:
  assumes "(cluster_step dp)\<^sup>*\<^sup>* c0 (at_work i n (Working svc l) (in_world w c))"
    and "success_phase svc env jid tid l result w = (r, w')"
    and "py_getitem (kr_value (acked w ! n)) ''job_id'' = Inr jid"
    and "py_getitem (kr_value (acked w ! n)) ''trace_id'' = Inr tid"
  shows "acked w' = acked w \<and> (case r of
      Inl _ \<Rightarrow> (cluster_step dp)\<^sup>*\<^sup>* c0 (at_work i n (Working svc l) (in_world w' c))
    | Inr (ok, _) \<Rightarrow> ok \<and> (cluster_step dp)\<^sup>*\<^sup>* c0 (pass_on dp n (set_work i None (in_world w' c))))"
proof -
  let ?wk = "\<lparr>wk_place = n, wk_assigned = True, wk_stage = Working svc l\<rparr>"
  let ?c = "set_work i (Some ?wk) (in_world w c)"
  obtain x d where run: "run_session (tx_fault env) (success_block svc env jid tid l result) (wdb w) = (x, d)"
    by fastforce
  have step: "cluster_step dp ?c (case x of Inl _ \<Rightarrow> with_db d ?c | Inr _ \<Rightarrow> finished dp i ?wk (with_db d ?c))"
    by (rule cluster_step.finish) (use assms(3,4) run in simp_all)
  show ?thesis
  proof (cases x)
    case (Inl e)
    with assms(2) run have "r = Inl e" "w' = w\<lparr>wdb := d\<rparr>" by (simp_all add: success_phase_def)
    with Inl step assms(1) show ?thesis by (simp add: with_db_commutes)
  next
    case (Inr b)
    with assms(2) run obtain ok where r: "r = Inr (True, ok)" "wdb w' = d" "acked w' = acked w"
      by (cases b) (auto simp: success_phase_def)
    from Inr step assms(1) have "(cluster_step dp)\<^sup>*\<^sup>* c0 (pass_on dp n (set_work i None (in_world (w\<lparr>wdb := d\<rparr>) c)))"
      by (simp add: finished_def with_db_commutes)
    then have "(cluster_step dp)\<^sup>*\<^sup>* c0 (in_world (w\<lparr>wdb := d\<rparr>) (pass_on dp n (set_work i None (in_world w c))))"
      by (simp add: in_world_commutes)
    then have "(cluster_step dp)\<^sup>*\<^sup>* c0 (in_world w' (pass_on dp n (set_work i None (in_world w c))))"
      by (rule tick_run) (simp_all add: r)
    with r show ?thesis by (simp add: in_world_commutes)
  qed
qed

lemma failure_phase_run:
  assumes "(cluster_step dp)\<^sup>*\<^sup>* c0 (at_work i n (Working svc l) (in_world w c))"
    and "failure_phase ''worker'' svc env jid tid l exc w = (r, w')"
    and "py_getitem (kr_value (acked w ! n)) ''job_id'' = Inr jid"
    and "py_getitem (kr_value (acked w ! n)) ''trace_id'' = Inr tid"
  shows "acked w' = acked w \<and> (case r of
      Inl _ \<Rightarrow> (cluster_step dp)\<^sup>*\<^sup>* c0 (set_work i None (in_world w' c))
    | Inr (ok, err) \<Rightarrow> \<not> ok \<and> (cluster_step dp)\<^sup>*\<^sup>* c0 (at_work i n (Failing err) (in_world w' c)))"
proof -
  let ?wk = "\<lparr>wk_place = n, wk_assigned = True, wk_stage = Working svc l\<rparr>"
  let ?c = "set_work i (Some ?wk) (in_world w c)"
  obtain x d where run: "run_session (tx_fault env) (failure_block ''worker'' svc env jid tid l exc) (wdb w) = (x, d)"
    by fastforce
  have "cluster_step dp ?c (set_work i
      (case x of Inl _ \<Rightarrow> None | Inr _ \<Rightarrow> Some (?wk\<lparr>wk_stage := Failing (Some (exc_str exc))\<rparr>)) (with_db d ?c))"
    by (rule cluster_step.give_up) (use assms(3,4) run in simp_all)
  with assms(1) have "(cluster_step dp)\<^sup>*\<^sup>* c0 (set_work i
      (case x of Inl _ \<Rightarrow> None | Inr _ \<Rightarrow> Some (?wk\<lparr>wk_stage := Failing (Some (exc_str exc))\<rparr>)) (in_world (w\<lparr>wdb := d\<rparr>) c))"
    by (simp add: with_db_commutes)
  note run' = tick_work_run [OF this, of w']
  show ?thesis
  proof (cases x)
    case (Inl e)
    with assms(2) run have "r = Inl e" "w' = w\<lparr>wdb := d\<rparr>" by (simp_all add: failure_phase_def)
    with Inl run' show ?thesis by simp
  next
    case (Inr b)
    with assms(2) run have "r = Inr (False, Some (exc_str exc))" "wdb w' = d" "acked w' = acked w"
      by (cases b; auto simp: failure_phase_def)+
    with Inr run' show ?thesis by simp
  qed
qed

text \<open>The answer of the role is passed on as \<open>_handle_message\<close> does, and the worker is free again.\<close>

lemma handle_message_answers:
  "role (m_value m) w = (Inr (False, err), w') \<Longrightarrow> \<not> skipped tps m \<Longrightarrow>
     handle_message ext cfg tps role m w = handle_message ext cfg tps (answers err) m w'"
  by (simp add: handle_message_def answers_def)

lemma pass_failure_run:
  assumes "(cluster_step dp)\<^sup>*\<^sup>* c0 (at_work i n (Failing err) (in_world w c))" "acked w = cl_log c"
    and "handle_message (dp_ext dp) (dp_cfg dp) (dp_topics dp) (answers err) (message_at dp c n) w = (r, w')"
  shows "(cluster_step dp)\<^sup>*\<^sup>* c0
    (if r = Inr () then pass_on dp n (set_work i None (in_world w' c)) else set_work i None (in_world w' c))"
proof -
  let ?wk = "\<lparr>wk_place = n, wk_assigned = True, wk_stage = Failing err\<rparr>"
  let ?c = "set_work i (Some ?wk) (in_world w c)"
  have m: "message_at dp ?c n = message_at dp c n" by (simp add: message_at_def assms(2))
  have "cluster_step dp ?c (if r = Inr () \<and> True then finished dp i ?wk (in_world w' ?c)
      else set_work i None (in_world w' ?c))"
    by (rule cluster_step.pass_failure) (use assms(3) m in simp_all)
  with assms(1) show ?thesis by (simp add: finished_def in_world_commutes split: if_splits)
qed

text \<open>The whole delivery, from the record that is next in an idle partition.\<close>

definition deliver :: "deployment \<Rightarrow> service \<Rightarrow> svc_env \<Rightarrow> processor \<Rightarrow> cluster \<Rightarrow> nat \<Rightarrow> unit res \<times> world" where
  "deliver dp svc env process c n =
     handle_message (dp_ext dp) (dp_cfg dp) (dp_topics dp) (worker_handle_event svc env process)
       (message_at dp c n) (cl_world c)"

lemma worker_attempt_run:
  assumes "(cluster_step dp)\<^sup>*\<^sup>* c0 (at_work i n (Working svc l) (in_world w c))" "acked w = cl_log c"
    and "worker_try svc env process event jid tid l w = (r, w')" "beside dp (ev_during env)"
    and "py_getitem (kr_value (cl_log c ! n)) ''job_id'' = Inr jid"
    and "py_getitem (kr_value (cl_log c ! n)) ''trace_id'' = Inr tid"
  shows "acked w' = cl_log c \<and> (case r of
      Inl _ \<Rightarrow> (cluster_step dp)\<^sup>*\<^sup>* c0 (at_work i n (Working svc l) (in_world w' c))
    | Inr (ok, _) \<Rightarrow> ok \<and> (cluster_step dp)\<^sup>*\<^sup>* c0 (pass_on dp n (set_work i None (in_world w' c))))"
proof -
  let ?w = "world_env (ev_during env) w"
  have during: "(cluster_step dp)\<^sup>*\<^sup>* c0 (at_work i n (Working svc l) (in_world ?w c))"
    using beside_work_run [OF assms(4,1)] .
  have log: "acked ?w = cl_log c" using assms(2) by (simp add: world_env_def)
  show ?thesis
  proof (cases "process_request process event")
    case (Inl e)
    with assms(3) have "r = Inl e" "w' = ?w" by (simp_all add: worker_try_def)
    with during log show ?thesis by simp
  next
    case (Inr x)
    with assms(3) have "success_phase svc (ev_finish env) jid tid l (snd x) ?w = (r, w')"
      by (simp add: worker_try_def split_beta)
    from success_phase_run [OF during this] assms(5,6) log show ?thesis by simp
  qed
qed

text \<open>Where the cluster stands when the role has answered.\<close>

definition returned :: "deployment \<Rightarrow> nat \<Rightarrow> nat \<Rightarrow> handled \<Rightarrow> cluster \<Rightarrow> cluster" where
  "returned dp i n r c =
     (case r of
        Inl _ \<Rightarrow> set_work i None c
      | Inr (ok, err) \<Rightarrow> if ok then pass_on dp n (set_work i None c) else at_work i n (Failing err) c)"

lemma tick_returned:
  assumes "(cluster_step dp)\<^sup>*\<^sup>* c0 (returned dp i n r (in_world w c))" "wdb w' = wdb w" "acked w' = acked w"
  shows "(cluster_step dp)\<^sup>*\<^sup>* c0 (returned dp i n r (in_world w' c))"
proof -
  have "in_world w' (returned dp i n r (in_world w c)) = returned dp i n r (in_world w' c)"
    if "acked w' = acked w" for w'
    using that by (auto simp: returned_def in_world_commutes split: sum.splits)
  from this [OF assms(3)] this [of w] assms show ?thesis
    using tick_run [of dp c0 w "returned dp i n r (in_world w c)" w'] by simp
qed

lemma worker_claimed_run:
  assumes "(cluster_step dp)\<^sup>*\<^sup>* c0 (at_work i n (Working svc l) (in_world w c))" "acked w = cl_log c"
    and "beside dp (ev_during env)" "beside dp (ev_before_fail env)"
    and "py_getitem (kr_value (cl_log c ! n)) ''job_id'' = Inr jid"
    and "py_getitem (kr_value (cl_log c ! n)) ''trace_id'' = Inr tid"
    and "worker_try svc env process event jid tid l w = (r, w2)"
    and "(case r of Inr x \<Rightarrow> (Inr x, w2)
          | Inl exc \<Rightarrow> failure_phase ''worker'' svc (ev_fail env) jid tid l exc (world_env (ev_before_fail env) w2))
        = (r', w3)"
  shows "acked w3 = cl_log c \<and> (cluster_step dp)\<^sup>*\<^sup>* c0 (returned dp i n r' (in_world w3 c))"
proof (cases r)
  case (Inr x)
  with assms(8) worker_attempt_run [OF assms(1,2,7,3,5,6)] show ?thesis
    by (cases x) (auto simp: returned_def)
next
  case (Inl exc)
  let ?w = "world_env (ev_before_fail env) w2"
  from worker_attempt_run [OF assms(1,2,7,3,5,6)] Inl have t: "acked w2 = cl_log c"
    "(cluster_step dp)\<^sup>*\<^sup>* c0 (at_work i n (Working svc l) (in_world w2 c))" by simp_all
  have "(cluster_step dp)\<^sup>*\<^sup>* c0 (at_work i n (Working svc l) (in_world ?w c))"
    using beside_work_run [OF assms(4) t(2)] .
  moreover have "failure_phase ''worker'' svc (ev_fail env) jid tid l exc ?w = (r', w3)" using assms(8) Inl by simp
  moreover have "acked ?w = cl_log c" using t(1) by (simp add: world_env_def)
  ultimately show ?thesis
    using failure_phase_run [of dp c0 i n svc l ?w c "ev_fail env" jid tid exc r' w3] assms(5,6)
    by (auto simp: returned_def split: sum.splits prod.splits)
qed

lemma free_worker: "cl_work c i = None \<Longrightarrow> set_work i None (in_world w c) = in_world w c"
  by (simp add: set_work_def fun_upd_idem)

lemma handler_run:
  assumes "worker_handle_event svc env process (kr_value (cl_log c ! n)) (cl_world c) = (r, w)"
    and "next_in dp c n" "idle dp c (partition_of dp c n)" "cl_work c i = None"
    and "kr_topic (cl_log c ! n) \<in> {consume_topic (dp_topics dp), retry_topic (dp_topics dp)}"
    and "\<not> skipped (dp_topics dp) (message_at dp c n)"
    and ids: "py_getitem (kr_value (cl_log c ! n)) ''job_id'' = Inr jid"
      "py_getitem (kr_value (cl_log c ! n)) ''trace_id'' = Inr tid"
    and "beside dp (ev_during env)" "beside dp (ev_before_fail env)"
  shows "acked w = cl_log c \<and> (cluster_step dp)\<^sup>*\<^sup>* c (returned dp i n r (in_world w c))"
proof -
  obtain rc w1 where claim: "claim_phase ''worker'' svc (ev_claim env) jid tid (cl_world c) = (rc, w1)" by fastforce
  have run: "(cluster_step dp)\<^sup>*\<^sup>* c (taken_up dp svc i n rc (in_world w1 c))"
    using claim_phase_run [OF claim assms(2-6) ids] .
  have log: "acked w1 = cl_log c" using claim by (rule claim_phase_log)
  show ?thesis
  proof (cases "\<exists>l. rc = Inr (Claimed l)")
    case False
    with assms(1) ids claim log run free_worker [OF assms(4), of w1] show ?thesis
      by (auto simp: worker_handle_event_def taken_up_def returned_def split: sum.splits claim_result.splits if_splits)
  next
    case True
    then obtain l where l: "rc = Inr (Claimed l)" ..
    obtain r2 w2 where t: "worker_try svc env process (kr_value (cl_log c ! n)) jid tid l w1 = (r2, w2)" by fastforce
    obtain r3 w3 where f: "(case r2 of Inr x \<Rightarrow> (Inr x, w2)
          | Inl exc \<Rightarrow> failure_phase ''worker'' svc (ev_fail env) jid tid l exc (world_env (ev_before_fail env) w2))
        = (r3, w3)" by fastforce
    from run l have "(cluster_step dp)\<^sup>*\<^sup>* c (at_work i n (Working svc l) (in_world w1 c))" by (simp add: taken_up_def)
    from worker_claimed_run [OF this log assms(9,10) ids t f]
    have ended: "acked w3 = cl_log c" "(cluster_step dp)\<^sup>*\<^sup>* c (returned dp i n r3 (in_world w3 c))" by simp_all
    from assms(1) ids claim l t f have "r = r3" "w = count_metric JOB_PROCESSING_SECONDS 1 w3"
      by (simp_all add: worker_handle_event_def)
    with ended(1) tick_returned [OF ended(2), of w] show ?thesis by simp
  qed
qed

lemma deliver_run:
  assumes "deliver dp svc env process c n = (r, w')"
    and "next_in dp c n" "idle dp c (partition_of dp c n)" "cl_work c i = None"
    and "kr_topic (cl_log c ! n) \<in> {consume_topic (dp_topics dp), retry_topic (dp_topics dp)}"
    and "beside dp (ev_during env)" "beside dp (ev_before_fail env)"
  shows "(cluster_step dp)\<^sup>*\<^sup>* c (if r = Inr () then pass_on dp n (in_world w' c) else in_world w' c)"
proof -
  let ?m = "message_at dp c n" and ?v = "kr_value (cl_log c ! n)"
  have v: "m_value ?m = ?v" by (simp add: message_at_def)
  consider (skipped) "skipped (dp_topics dp) ?m"
    | (unreadable) e where "\<not> skipped (dp_topics dp) ?m" "worker_handle_event svc env process ?v (cl_world c) = (Inl e, cl_world c)"
    | (readable) jid tid where "\<not> skipped (dp_topics dp) ?m" "py_getitem ?v ''job_id'' = Inr jid"
        "py_getitem ?v ''trace_id'' = Inr tid"
    by (cases "py_getitem ?v ''job_id''"; cases "py_getitem ?v ''trace_id''"; fastforce simp: worker_handle_event_def)
  then show ?thesis
  proof cases
    case skipped
    then have "r = Inr ()" "w' = cl_world c" using assms(1) by (simp_all add: deliver_def handle_message_def)
    then show ?thesis using cluster_step.skip [OF assms(2,3) skipped] by auto
  next
    case unreadable
    then have "r = Inl e" "w' = cl_world c" using assms(1) v by (simp_all add: deliver_def handle_message_def)
    then show ?thesis by simp
  next
    case readable
    obtain rh w where h: "worker_handle_event svc env process ?v (cl_world c) = (rh, w)" by fastforce
    from handler_run [OF h assms(2-5) readable assms(6,7)] have log: "acked w = cl_log c"
      and run: "(cluster_step dp)\<^sup>*\<^sup>* c (returned dp i n rh (in_world w c))" by simp_all
    note free = free_worker [OF assms(4)]
    consider e where "rh = Inl e" | err where "rh = Inr (True, err)" | err where "rh = Inr (False, err)"
      by (cases rh) (blast, metis (full_types) prod.collapse)
    then show ?thesis
    proof cases
      case 3
      with assms(1) h v readable(1) have "handle_message (dp_ext dp) (dp_cfg dp) (dp_topics dp) (answers err) ?m w = (r, w')"
        by (simp add: deliver_def handle_message_answers)
      note passed = pass_failure_run [OF _ log this]
      from run 3 have "(cluster_step dp)\<^sup>*\<^sup>* c (at_work i n (Failing err) (in_world w c))" by (simp add: returned_def)
      from passed [OF this, unfolded free] show ?thesis .
    qed (use assms(1) h v readable(1) run free in \<open>auto simp: deliver_def handle_message_def returned_def\<close>)
  qed
qed

text \<open>
  C10: The code runs as the deployment does. From any state the deployment can reach, what \<open>create_job\<close>,
  a relay pass, and the handling of the next message of a partition by the unified worker do, however
  they end and with requests and the relays' book-keeping in between, leads to a state the deployment
  can reach; and the consumer goes on behind the message exactly when the handling returned. So what
  holds of every reachable state (above all that no job is lost) holds after any of them.
\<close>

theorem operations_are_runs:
  assumes "(cluster_step dp)\<^sup>*\<^sup>* fresh_cluster c"
  shows "(\<forall>cenv payload ikey r w s'.
      create_job st (container_job_service (dp_cfg dp)) cenv payload ikey (cl_world c) s = (r, w, s') \<longrightarrow>
      beside dp (ce_db cenv) \<longrightarrow>
      (cluster_step dp)\<^sup>*\<^sup>* fresh_cluster (in_world w c))
    \<and> (\<forall>rl re r w.
      drain_once rl (dp_ext dp) re (cl_world c) = (r, w) \<longrightarrow>
      beside dp (re_during re) \<longrightarrow> only_adds (cl_db c) (re_during re (cl_db c)) \<longrightarrow>
      (cluster_step dp)\<^sup>*\<^sup>* fresh_cluster (in_world w c))
    \<and> (\<forall>svc env process n i r w.
      deliver dp svc env process c n = (r, w) \<longrightarrow>
      beside dp (ev_during env) \<longrightarrow> beside dp (ev_before_fail env) \<longrightarrow>
      next_in dp c n \<longrightarrow> idle dp c (partition_of dp c n) \<longrightarrow> cl_work c i = None \<longrightarrow>
      kr_topic (cl_log c ! n) \<in> {consume_topic (dp_topics dp), retry_topic (dp_topics dp)} \<longrightarrow>
      (cluster_step dp)\<^sup>*\<^sup>* fresh_cluster (if r = Inr () then pass_on dp n (in_world w c) else in_world w c))"
proof (intro conjI allI impI)
  note go = rtranclp_trans [of "cluster_step dp", OF assms]
  show "(cluster_step dp)\<^sup>*\<^sup>* fresh_cluster (in_world w c)"
    if "create_job st (container_job_service (dp_cfg dp)) cenv payload ikey (cl_world c) s = (r, w, s')"
      "beside dp (ce_db cenv)" for cenv payload ikey r w s'
    using create_job_run [OF that] by (rule go)
  show "(cluster_step dp)\<^sup>*\<^sup>* fresh_cluster (in_world w c)"
    if "drain_once rl (dp_ext dp) re (cl_world c) = (r, w)" "beside dp (re_during re)"
      "only_adds (cl_db c) (re_during re (cl_db c))" for rl re r w
    using drain_once_run [OF that] by (rule go)
  show "(cluster_step dp)\<^sup>*\<^sup>* fresh_cluster (if r = Inr () then pass_on dp n (in_world w c) else in_world w c)"
    if "deliver dp svc env process c n = (r, w)" "beside dp (ev_during env)" "beside dp (ev_before_fail env)"
      "next_in dp c n" "idle dp c (partition_of dp c n)" "cl_work c i = None"
      "kr_topic (cl_log c ! n) \<in> {consume_topic (dp_topics dp), retry_topic (dp_topics dp)}"
    for svc env process n i r w
    using deliver_run [OF that(1,4-7,2,3)] by (rule go)
qed

theorem operations_are_runs_witness:
  "\<exists>c r1 w1 s1 r2 w2 r3 w3. (cluster_step sample_deployment)\<^sup>*\<^sup>* fresh_cluster c
     \<and> create_job (redis_store map_redis sample_rs) (container_job_service (dp_cfg sample_deployment)) sample_create
         (PDict []) (Some ''k1'') (cl_world c) Map.empty = (r1, w1, s1)
     \<and> (cluster_step sample_deployment)\<^sup>*\<^sup>* fresh_cluster (in_world w1 c)
     \<and> drain_once (relay_init 2 1) (dp_ext sample_deployment) sample_pass (cl_world c) = (r2, w2)
     \<and> (cluster_step sample_deployment)\<^sup>*\<^sup>* fresh_cluster (in_world w2 c)
     \<and> deliver sample_deployment sample_svc sample_env sample_process c 0 = (r3, w3)
     \<and> (cluster_step sample_deployment)\<^sup>*\<^sup>* fresh_cluster
          (if r3 = Inr () then pass_on sample_deployment 0 (in_world w3 c) else in_world w3 c)"
proof -
  obtain c where c: "(cluster_step sample_deployment)\<^sup>*\<^sup>* fresh_cluster c"
    "\<forall>rec \<in> set (cl_log c). kr_topic rec = ''request-topic''" "length (cl_log c) = 1"
    "cl_position c = (\<lambda>_. 0)" "cl_work c = Map.empty" "outbox_ok (cl_db c)"
    by (rule sample_sent)
  obtain r1 w1 s1 where q: "create_job (redis_store map_redis sample_rs)
      (container_job_service (dp_cfg sample_deployment)) sample_create (PDict []) (Some ''k1'') (cl_world c) Map.empty
      = (r1, w1, s1)" by (metis prod_cases3)
  obtain r2 w2 where p: "drain_once (relay_init 2 1) (dp_ext sample_deployment) sample_pass (cl_world c) = (r2, w2)"
    by fastforce
  obtain r3 w3 where h: "deliver sample_deployment sample_svc sample_env sample_process c 0 = (r3, w3)" by fastforce
  have "kr_topic (cl_log c ! 0) = ''request-topic''" using c(2,3) nth_mem [of 0 "cl_log c"] by simp
  moreover note runs = operations_are_runs [OF c(1), of "redis_store map_redis sample_rs" Map.empty]
  ultimately have "(cluster_step sample_deployment)\<^sup>*\<^sup>* fresh_cluster
      (if r3 = Inr () then pass_on sample_deployment 0 (in_world w3 c) else in_world w3 c)"
    by (intro runs [THEN conjunct2, THEN conjunct2, rule_format, OF h, of 0])
       (use c(3-6) in \<open>simp_all add: beside_def world_env_def next_in_def idle_def sample_topics\<close>)
  moreover have "(cluster_step sample_deployment)\<^sup>*\<^sup>* fresh_cluster (in_world w1 c)"
    by (rule runs [THEN conjunct1, rule_format, OF q]) (simp add: beside_def world_env_def)
  moreover have "(cluster_step sample_deployment)\<^sup>*\<^sup>* fresh_cluster (in_world w2 c)"
    by (rule runs [THEN conjunct2, THEN conjunct1, rule_format, OF p])
       (use c(6) in \<open>simp_all add: beside_def world_env_def sample_pass_def only_adds_def\<close>)
  ultimately show ?thesis using c(1) q p h by blast
qed

end
