(* ===== verification/Late_Claim.thy ===== *)
theory Late_Claim
  imports No_Loss
begin

section \<open>A late claim loses the job\<close>

text \<open>
  What happens without the condition of \<open>no_job_lost\<close>. A worker that has lost its partition in a rebalance
  goes on with the records of its last poll; the code does not look at the assignment before it claims. If
  the lease of the handler that has the partition now has run out, the late worker takes the job. That
  handler then finds its lease gone, counts the message as done (\<open>worker_service.py\<close>, lines 91 to 95) and
  its consumer commits the offset; when the late worker dies, nobody has the job.
\<close>

text \<open>A claim that finds the job claimable commits.\<close>

lemma claim_block_claims:
  assumes "jobs d k = Some r" "claimable (tx_now env) r" "tx_fault env = TxOk"
    and "uuid_fresh (tx_uuid env 0) d" "short_names k t" "str_len source \<le> 64"
  obtains d' where
    "run_session (tx_fault env) (claim_block source svc env (PStr k) (PStr t)) d
       = (Inr (Claimed (claimed_lease svc env r)), d')"
    "jobs d' = (jobs d)(k \<mapsto> claim_row (tx_now env) (tx_dbnow env) (svc_worker_id svc) (svc_lease_seconds svc) r)"
    "je_event_id ` set (job_events d') = insert (tx_uuid env 0) (je_event_id ` set (job_events d))"
    "outbox_messages d' = outbox_messages d"
  using assms
  by (simp add: claim_block_def claim_eq short_names_def event_add_new uuid_fresh_def new_event_def
        claimed_lease_def run_session_def)

text \<open>An update for an epoch that is gone is refused, and the handler is done with its record.\<close>

lemma success_refused:
  assumes "jobs d k = Some r" "jm_lease_epoch r \<noteq> lease_epoch l"
  shows "run_session TxOk (success_block svc env (PStr k) tid l result) d = (Inr False, d)"
  using assms
  by (simp add: run_session_def success_block_def update_status_eq cas_matches_def success_opts_def default_opts_def)

lemma claim_row_epoch [simp]:
  "jm_lease_epoch (claim_row now dbnow ow secs r) = jm_lease_epoch r + 1"
  "jm_status (claim_row now dbnow ow secs r) = status_value PROCESSING"
  "jm_lease_owner (claim_row now dbnow ow secs r) = Some ow"
  by (simp_all add: claim_row_def)

lemma claim_row_expired:
  "lease_until now secs < later \<Longrightarrow> claimable later (claim_row now dbnow ow secs r)"
  by (simp add: claimable_def claim_row_def)

text \<open>The run, from the state in which the record has been polled by a consumer that then loses its partition.\<close>

lemma late_claim_run:
  assumes "\<not> dp_prompt dp" "next_in dp c n" "idle dp c (partition_of dp c n)" "cl_work c = Map.empty"
    and "cl_committed c (partition_of dp c n) = cl_position c (partition_of dp c n)"
    and own: "kr_topic (cl_log c ! n) \<in> {consume_topic (dp_topics dp), retry_topic (dp_topics dp)}"
      "\<not> skipped (dp_topics dp) (message_at dp c n)"
    and names: "py_getitem (kr_value (cl_log c ! n)) ''job_id'' = Inr (PStr k)"
      "py_getitem (kr_value (cl_log c ! n)) ''trace_id'' = Inr (PStr t)"
    and first: "run_session TxOk (claim_block ''worker'' new env1 (PStr k) (PStr t)) (cl_db c) = (Inr (Claimed l1), d1)"
    and second: "run_session TxOk (claim_block ''worker'' old env2 (PStr k) (PStr t)) d1 = (Inr (Claimed l2), d2)"
    and refused: "run_session TxOk (success_block new env3 (PStr k) (PStr t) l1 result) d2 = (Inr False, d2)"
  shows "\<exists>c'. (cluster_step dp)\<^sup>*\<^sup>* c c' \<and> cl_db c' = d2 \<and> cl_log c' = cl_log c \<and> cl_work c' = Map.empty
    \<and> cl_stale c' = {} \<and> cl_committed c' (partition_of dp c n) = Suc n"
proof -
  let ?tp = "partition_of dp c n"
  let ?b = "\<lparr>wk_place = n, wk_assigned = True, wk_stage = Working new l1\<rparr>"
  let ?a = "\<lparr>wk_place = n, wk_assigned = False, wk_stage = Working old l2\<rparr>"
  define c1 where "c1 = taken_away dp ?tp {n} c"
  have sel1: "cl_world c1 = cl_world c" "cl_position c1 = cl_position c" "cl_work c1 = Map.empty" "n \<in> cl_stale c1"
    using assms(4,5) by (auto simp: c1_def taken_away_def)
  have n: "n < length (cl_log c)" "cl_position c ?tp \<le> n" using assms(2) by (auto simp: next_in_def)
  have 1: "cluster_step dp c c1"
    unfolding c1_def by (rule cluster_step.take_away) (use n in \<open>simp add: polled_ahead_def\<close>)
  have same: "partition_of dp c1 m = partition_of dp c m" "message_at dp c1 m = message_at dp c m" for m
    by (simp_all add: partition_of_def message_at_def sel1)
  have 2: "cluster_step dp c1 (set_work 0 (Some ?b) (with_db d1 c1))"
    using cluster_step.take_up [of dp c1 n 0 "PStr k" "PStr t" TxOk new env1 "Inr (Claimed l1)" d1]
      assms(2) own names first
    by (simp add: sel1 same next_in_cong [of c1 c] idle_def taken_up_def)
  let ?c2 = "set_work 0 (Some ?b) (with_db d1 c1)"
  have 3: "cluster_step dp ?c2 (set_work 1 (Some ?a) (with_db d2 ?c2))"
    using cluster_step.late_claim [of n ?c2 1 dp "PStr k" "PStr t" TxOk old env2 "Inr (Claimed l2)" d2]
      assms(1) sel1 n own names second
    by (simp add: sel1 same message_at_def with_db_def set_work_def late_taken_up_def)
  let ?c3 = "set_work 1 (Some ?a) (with_db d2 ?c2)"
  have 4: "cluster_step dp ?c3 (finished dp 0 ?b (with_db d2 ?c3))"
    using cluster_step.finish [of ?c3 0 ?b new l1 "PStr k" "PStr t" TxOk env3 result "Inr False" d2 dp]
      names refused by (simp add: sel1)
  let ?c4 = "finished dp 0 ?b (with_db d2 ?c3)"
  have pos: "cl_position ?c4 ?tp = Suc n" "cl_committed ?c4 = cl_committed c1"
    by (simp_all add: finished_position partition_of_def sel1)
  have com: "cl_committed c1 ?tp \<le> n" using n assms(5) by (simp add: c1_def)
  let ?c5 = "?c4\<lparr>cl_committed := (cl_committed ?c4)(?tp := Suc n)\<rparr>"
  have 5: "cluster_step dp ?c4 ?c5"
    by (rule cluster_step.commit) (use pos com in simp_all)
  have 6: "cluster_step dp ?c5 (set_work 1 None ?c5)"
    by (rule cluster_step.die [of _ _ ?a]) simp_all
  let ?c6 = "set_work 1 None ?c5"
  have 7: "cluster_step dp ?c6 (?c6\<lparr>cl_stale := {}\<rparr>)" by (rule cluster_step.drop_stale) simp
  have "(cluster_step dp)\<^sup>*\<^sup>* c (?c6\<lparr>cl_stale := {}\<rparr>)"
    using 1 2 3 4 5 6 7 by (meson converse_rtranclp_into_rtranclp r_into_rtranclp)
  moreover have "cl_work ?c6 = Map.empty" by (simp add: sel1 fun_eq_iff)
  ultimately show ?thesis
    by (intro exI [of _ "?c6\<lparr>cl_stale := {}\<rparr>"]) (simp add: sel1)
qed

text \<open>
  C32: Without that condition an accepted job is lost. Take any state the deployment can reach in which a
  job waits as the next record of its partition, and that record is the only one for it. Let a consumer
  poll it and lose the partition, let the next consumer's worker claim the job and its lease run out while
  it works, and let the first worker, still alive, claim the job from its old poll. Then there is a run
  after which the job is PROCESSING and nothing is left to take it up: its only record is committed, no
  handler has it and nothing waits in the outbox. The lease is with a worker that is dead, although the
  worker that had the partition finished its work.
\<close>

theorem late_claim_loses_job:
  fixes new old :: service and env1 env2 :: tx_env
  assumes "\<not> dp_prompt dp" and "(cluster_step dp)\<^sup>*\<^sup>* fresh_cluster c"
    and "next_in dp c n" "idle dp c (partition_of dp c n)" "cl_work c = Map.empty"
    and "cl_committed c (partition_of dp c n) = cl_position c (partition_of dp c n)"
    and "kr_topic (cl_log c ! n) \<in> {consume_topic (dp_topics dp), retry_topic (dp_topics dp)}"
      "\<not> skipped (dp_topics dp) (message_at dp c n)"
    and "names_job (kr_value (cl_log c ! n)) k t" "short_names k t"
    and only: "\<forall>m < length (cl_log c). for_job k (kr_value (cl_log c ! m)) \<longrightarrow> m = n"
      "\<forall>row \<in> set (outbox_messages (cl_db c)). for_job k (ob_payload row) \<longrightarrow> \<not> is_pending row"
    and "jobs (cl_db c) k = Some r" "claimable (tx_now env1) r"
    and "lease_until (tx_now env1) (svc_lease_seconds new) < tx_now env2"
    and "tx_fault env1 = TxOk" "tx_fault env2 = TxOk"
    and "uuid_fresh (tx_uuid env1 0) (cl_db c)" "uuid_fresh (tx_uuid env2 0) (cl_db c)"
      "tx_uuid env1 0 \<noteq> tx_uuid env2 0"
  shows "\<exists>c' r'. (cluster_step dp)\<^sup>*\<^sup>* fresh_cluster c' \<and> cl_log c' = cl_log c
    \<and> jobs (cl_db c') k = Some r' \<and> jm_status r' = status_value PROCESSING
    \<and> jm_lease_owner r' = Some (svc_worker_id old)
    \<and> cl_work c' = Map.empty \<and> cl_stale c' = {}
    \<and> (\<forall>row \<in> set (outbox_messages (cl_db c')). for_job k (ob_payload row) \<longrightarrow> \<not> is_pending row)
    \<and> (\<forall>m < length (cl_log c'). for_job k (kr_value (cl_log c' ! m)) \<longrightarrow> m < cl_committed c' (partition_of dp c' m))"
proof -
  have names: "py_getitem (kr_value (cl_log c ! n)) ''job_id'' = Inr (PStr k)"
    "py_getitem (kr_value (cl_log c ! n)) ''trace_id'' = Inr (PStr t)"
    using assms(9) by (simp_all add: names_job_def)
  have src: "str_len ''worker'' \<le> 64" by (simp add: str_len_le)
  from claim_block_claims [where svc = new, OF assms(13,14,16,18,10) src] obtain d1 where
    one: "run_session TxOk (claim_block ''worker'' new env1 (PStr k) (PStr t)) (cl_db c)
        = (Inr (Claimed (claimed_lease new env1 r)), d1)"
      "jobs d1 k = Some (claim_row (tx_now env1) (tx_dbnow env1) (svc_worker_id new) (svc_lease_seconds new) r)"
      "je_event_id ` set (job_events d1) = insert (tx_uuid env1 0) (je_event_id ` set (job_events (cl_db c)))"
      "outbox_messages d1 = outbox_messages (cl_db c)"
    by (metis assms(16) fun_upd_same)
  have "uuid_fresh (tx_uuid env2 0) d1" using assms(19,20) one(3) by (auto simp: uuid_fresh_def)
  from claim_block_claims [where svc = old, OF one(2) claim_row_expired [OF assms(15)] assms(17) this assms(10) src]
  obtain l2 d2 r2 where
    two: "run_session TxOk (claim_block ''worker'' old env2 (PStr k) (PStr t)) d1 = (Inr (Claimed l2), d2)"
      "jobs d2 k = Some r2" "jm_lease_epoch r2 = jm_lease_epoch r + 2" "jm_status r2 = status_value PROCESSING"
      "jm_lease_owner r2 = Some (svc_worker_id old)"
      "outbox_messages d2 = outbox_messages (cl_db c)"
    by (metis (no_types, lifting) add.assoc assms(17) claim_row_epoch fun_upd_same one(4) one_add_one)
  have "run_session TxOk (success_block new env1 (PStr k) (PStr t) (claimed_lease new env1 r) result) d2
      = (Inr False, d2)" for result
    using two(3) by (intro success_refused [OF two(2)]) (simp add: claimed_lease_def)
  from late_claim_run [OF assms(1,3-8) names one(1) two(1) this]
  obtain c' where c': "(cluster_step dp)\<^sup>*\<^sup>* c c'" "cl_db c' = d2" "cl_log c' = cl_log c" "cl_work c' = Map.empty"
    "cl_stale c' = {}" "cl_committed c' (partition_of dp c n) = Suc n" by blast
  have "(cluster_step dp)\<^sup>*\<^sup>* fresh_cluster c'" using assms(2) c'(1) by (rule rtranclp_trans)
  with c' two only show ?thesis
    by (intro exI [of _ c'] exI [of _ r2]) (auto simp: partition_of_def)
qed

subsection \<open>A concrete run\<close>

definition late_deployment :: deployment where
  "late_deployment = sample_deployment\<lparr>dp_prompt := False\<rparr>"

lemma late_deployment_fields [simp]:
  "dp_ext late_deployment = dp_ext sample_deployment" "dp_cfg late_deployment = dp_cfg sample_deployment"
  "dp_part late_deployment = dp_part sample_deployment" "\<not> dp_prompt late_deployment"
  by (simp_all add: late_deployment_def)

lemma late_deployment_same:
  "partition_of late_deployment = partition_of sample_deployment"
  "message_at late_deployment = message_at sample_deployment"
  "next_in late_deployment = next_in sample_deployment" "idle late_deployment = idle sample_deployment"
  "pass_on late_deployment = pass_on sample_deployment"
  by (simp_all add: fun_eq_iff partition_of_def message_at_def next_in_def idle_def pass_on_def)

lemma late_deployment_moves:
  "finished late_deployment = finished sample_deployment"
  "taken_up late_deployment = taken_up sample_deployment" "taken_away late_deployment = taken_away sample_deployment"
  "polled_ahead late_deployment = polled_ahead sample_deployment"
  by (simp_all add: fun_eq_iff finished_def taken_up_def taken_away_def polled_ahead_def late_deployment_same
        Let_def split: sum.splits claim_result.splits)

text \<open>Whatever happens when nobody is late can happen here too.\<close>

lemma late_step: "cluster_step sample_deployment c c' \<Longrightarrow> cluster_step late_deployment c c'"
  by (simp only: cluster_step.simps late_deployment_same late_deployment_moves late_deployment_fields sample_prompt)
     (elim disj_forward; (assumption | blast))

lemma late_reach: "(cluster_step sample_deployment)\<^sup>*\<^sup>* c c' \<Longrightarrow> (cluster_step late_deployment)\<^sup>*\<^sup>* c c'"
  by (erule rtranclp_induct) (auto intro: rtranclp.rtrancl_into_rtrancl late_step)

theorem late_claim_loses_job_witness:
  "\<exists>c r. (cluster_step late_deployment)\<^sup>*\<^sup>* fresh_cluster c \<and> length (cl_log c) = 1
     \<and> jobs (cl_db c) ''rx'' = Some r \<and> jm_status r = status_value PROCESSING
     \<and> jm_lease_owner r = Some ''z''
     \<and> cl_work c = Map.empty \<and> cl_stale c = {}
     \<and> (\<forall>m < length (cl_log c). for_job ''rx'' (kr_value (cl_log c ! m))
           \<longrightarrow> m < cl_committed c (partition_of late_deployment c m))"
proof -
  obtain c where c: "(cluster_step sample_deployment)\<^sup>*\<^sup>* fresh_cluster c"
    "list_all (\<lambda>row. \<not> is_pending row) (outbox_messages (cl_db c))"
    "\<forall>rec \<in> set (cl_log c). kr_topic rec = ''request-topic''"
    "length (cl_log c) = 1" "cl_position c = (\<lambda>_. 0)" "cl_work c = Map.empty" "cl_committed c = (\<lambda>_. 0)"
    "\<exists>r. jobs (cl_db c) ''rx'' = Some r \<and> jm_status r = status_value PENDING"
    "map je_event_id (job_events (cl_db c)) = [''rxxx'']"
    "\<forall>rec \<in> set (cl_log c). kr_headers rec = None \<and> kr_value rec = request_event (sample_tx (CHR ''r'')) (PDict [])"
    by (rule sample_sent)
  from c(8) obtain r where r: "jobs (cl_db c) ''rx'' = Some r" "jm_status r = status_value PENDING" by blast
  have rec: "kr_topic (cl_log c ! 0) = ''request-topic''" "kr_headers (cl_log c ! 0) = None"
    "kr_value (cl_log c ! 0) = request_event (sample_tx (CHR ''r'')) (PDict [])"
    using c(3,4,10) by simp_all
  have names: "names_job (kr_value (cl_log c ! 0)) ''rx'' ''rxx''"
    using request_event_names [of "sample_tx (CHR ''r'')"] rec(3) by (simp add: numeral_2_eq_2)
  have fresh: "uuid_fresh [x] (cl_db c)" for x
    using arg_cong [OF c(9), of set] by (simp add: uuid_fresh_def str_len_le)
  have "\<exists>c' r'. (cluster_step late_deployment)\<^sup>*\<^sup>* fresh_cluster c' \<and> cl_log c' = cl_log c
    \<and> jobs (cl_db c') ''rx'' = Some r' \<and> jm_status r' = status_value PROCESSING
    \<and> jm_lease_owner r' = Some (svc_worker_id (sample_svc\<lparr>svc_worker_id := ''z''\<rparr>))
    \<and> cl_work c' = Map.empty \<and> cl_stale c' = {}
    \<and> (\<forall>row \<in> set (outbox_messages (cl_db c')). for_job ''rx'' (ob_payload row) \<longrightarrow> \<not> is_pending row)
    \<and> (\<forall>m < length (cl_log c'). for_job ''rx'' (kr_value (cl_log c' ! m))
          \<longrightarrow> m < cl_committed c' (partition_of late_deployment c' m))"
    by (rule late_claim_loses_job [where n = 0 and t = "''rxx''" and r = r and new = sample_svc
          and ?env1.0 = "sample_tx (CHR ''b'')" and ?env2.0 = "(sample_tx (CHR ''c''))\<lparr>tx_now := 2000000\<rparr>"])
       (use late_reach [OF c(1)] c(2,4-7) r rec names fresh in \<open>simp_all add: late_deployment_same sample_topics
          next_in_def idle_def short_names_def str_len_le list_all_iff claimable_def lease_until_def
          skipped_def message_at_def redelivered_def decode_headers_def header_or_def\<close>)
  then obtain c' r' where l: "(cluster_step late_deployment)\<^sup>*\<^sup>* fresh_cluster c'" "cl_log c' = cl_log c"
    "jobs (cl_db c') ''rx'' = Some r'" "jm_status r' = status_value PROCESSING"
    "jm_lease_owner r' = Some (svc_worker_id (sample_svc\<lparr>svc_worker_id := ''z''\<rparr>))"
    "cl_work c' = Map.empty" "cl_stale c' = {}"
    "\<forall>m < length (cl_log c'). for_job ''rx'' (kr_value (cl_log c' ! m))
       \<longrightarrow> m < cl_committed c' (partition_of late_deployment c' m)"
    by (elim exE conjE)
  from l(2) c(4) have "length (cl_log c') = 1" by simp
  moreover from l(5) have "jm_lease_owner r' = Some ''z''" by simp
  ultimately show ?thesis using l by (intro exI conjI)
qed

end
