(* ===== verification/Http_App.thy ===== *)
theory Http_App
  imports Api
begin

section \<open>The application behind the server\<close>

text \<open>
  \<open>app/main.py\<close> with its three routers and the middleware around them, and \<open>app/core/metrics.py\<close> as the
  registry it exposes. Matching a path, and answering what matches no route or has an invalid body, is
  FastAPI's: such a request arrives as \<open>Refused\<close> with the answer FastAPI gives. The text format of
  \<open>/metrics\<close> is a parameter (\<open>generate_latest\<close> of \<open>prometheus_client\<close>).
\<close>

subsection \<open>The registry\<close>

datatype metric_kind = Counter | Gauge | Histogram

fun kind_of :: "metric \<Rightarrow> metric_kind" where
  "kind_of JOB_PROCESSING_SECONDS = Histogram"
| "kind_of INFERENCE_PROCESSING_SECONDS = Histogram"
| "kind_of INFERENCE_SEMAPHORE_WAIT_SECONDS = Histogram"
| "kind_of DOWNSTREAM_PROCESSING_SECONDS = Histogram"
| "kind_of INFERENCE_ACTIVE_JOBS = Gauge"
| "kind_of INFERENCE_SIMULATED_GPU_UTILIZATION = Gauge"
| "kind_of OUTBOX_PENDING_BACKLOG = Gauge"
| "kind_of _ = Counter"

record text_response =
  tr_content :: string
  tr_media_type :: string

definition metrics_response :: "(metrics \<Rightarrow> string) \<Rightarrow> string \<Rightarrow> metrics \<Rightarrow> text_response" where
  "metrics_response generate_latest content_type_latest m =
     \<lparr>tr_content = generate_latest m, tr_media_type = content_type_latest\<rparr>"

subsection \<open>Routing\<close>

datatype 's http_request =
    PostJobs JobCreateRequest "string option" "'s create_env"
  | GetJob string "py_exc option"
  | GetLive
  | GetReady "unit res" "unit res" "bool \<times> string"
  | GetMetrics
  | Refused string string int pyval

text \<open>Method and path, as the routers declare them.\<close>

fun route :: "'s http_request \<Rightarrow> string \<times> string" where
  "route (PostJobs _ _ _) = (''POST'', ''/jobs'')"
| "route (GetJob jid _) = (''GET'', ''/jobs/'' @ jid)"
| "route GetLive = (''GET'', ''/health/live'')"
| "route (GetReady _ _ _) = (''GET'', ''/health/ready'')"
| "route GetMetrics = (''GET'', ''/metrics'')"
| "route (Refused method path _ _) = (method, path)"

definition dependency_body :: "dependency \<Rightarrow> pyval" where
  "dependency_body d = PDict [(''status'', PStr (dep_status d)), (''detail'', PStr (dep_detail d))]"

definition health_body :: "HealthResponse \<Rightarrow> pyval" where
  "health_body h =
     PDict [(''status'', PStr (hr_status h)),
            (''dependencies'', PDict (map (\<lambda>(n, d). (n, dependency_body d)) (hr_dependencies h))),
            (''details'', PDict (map (\<lambda>(n, t). (n, PStr t)) (hr_details h)))]"

record 's http_app =
  app_redis :: "'s redis_api"
  app_settings :: Settings
  app_generate_latest :: "metrics \<Rightarrow> string"
  app_content_type :: string
  app_validation_text :: string

definition metrics_route :: "'s http_app \<Rightarrow> metrics \<Rightarrow> http_outcome" where
  "metrics_route app m =
     Response 200 (PStr (tr_content (metrics_response (app_generate_latest app) (app_content_type app) m)))"

fun call_next :: "'s http_app \<Rightarrow> 's http_request \<Rightarrow> world \<Rightarrow> 's \<Rightarrow> http_outcome \<times> world \<times> 's" where
  "call_next app (PostJobs request key env) w st =
     create_job_route (app_redis app) (app_settings app) env request key w st"
| "call_next app (GetJob jid fault) w st =
     (get_job_route (app_validation_text app) fault jid (wdb w), w, st)"
| "call_next app GetLive w st = (Response 200 (health_body live), w, st)"
| "call_next app (GetReady select1 ping kafka) w st =
     (let (code, h) = ready select1 ping kafka in (Response code (health_body h), w, st))"
| "call_next app GetMetrics w st =
     (metrics_route app (metrics w), w, st)"
| "call_next app (Refused _ _ code body) w st = (Response code body, w, st)"

text \<open>A request through the middleware, and requests one after the other.\<close>

definition serve :: "'s http_app \<Rightarrow> 's http_request \<Rightarrow> world \<Rightarrow> 's \<Rightarrow> http_outcome \<times> world \<times> 's" where
  "serve app rq w st =
     (let (r, w', st') = call_next app rq w st;
          (method, path) = route rq
      in (r, w'\<lparr>metrics := record_http_metrics method path r (metrics w')\<rparr>, st'))"

fun serve_all ::
  "'s http_app \<Rightarrow> 's http_request list \<Rightarrow> world \<Rightarrow> 's \<Rightarrow> http_outcome list \<times> world \<times> 's" where
  "serve_all app [] w st = ([], w, st)"
| "serve_all app (rq # rqs) w st =
     (let (r, w1, s1) = serve app rq w st; (rs, w2, s2) = serve_all app rqs w1 s1 in (r # rs, w2, s2))"

subsection \<open>What is counted\<close>

text \<open>
  The status the client sees: an exception that no handler catches leaves the middleware as it is, and the
  server answers 500 outside of it.
\<close>

definition client_status :: "http_outcome \<Rightarrow> int" where
  "client_status r = (case r of Response code _ \<Rightarrow> code | Unhandled _ \<Rightarrow> 500)"

text \<open>The refusals of the framework (no such route, wrong method, invalid body) are answers below 500.\<close>

definition framework_answers :: "'s http_request \<Rightarrow> bool" where
  "framework_answers rq \<longleftrightarrow> (case rq of Refused _ _ code _ \<Rightarrow> code < 500 | _ \<Rightarrow> True)"

definition answered_with :: "string \<Rightarrow> string \<Rightarrow> int \<Rightarrow> 's http_request \<Rightarrow> http_outcome \<Rightarrow> bool" where
  "answered_with method path code rq r \<longleftrightarrow> route rq = (method, path) \<and> client_status r = code"

definition accepted_job :: "'s http_request \<Rightarrow> http_outcome \<Rightarrow> bool" where
  "accepted_job rq r \<longleftrightarrow> (\<exists>request key env body. rq = PostJobs request key env \<and> r = Response 202 body)"

definition posts_job :: "'s http_request \<Rightarrow> bool" where
  "posts_job rq \<longleftrightarrow> (\<exists>request key env. rq = PostJobs request key env)"

abbreviation count_answers :: "('s http_request \<Rightarrow> http_outcome \<Rightarrow> bool) \<Rightarrow> 's http_request list
    \<Rightarrow> http_outcome list \<Rightarrow> rat" where
  "count_answers P rqs rs \<equiv> of_nat (length (filter (\<lambda>(rq, r). P rq r) (zip rqs rs)))"

text \<open>The jobs a registry has counted, new and repeated.\<close>

abbreviation jobs_counted :: "metrics \<Rightarrow> rat" where
  "jobs_counted m \<equiv> m JOB_CREATED_TOTAL + m JOB_DUPLICATE_TOTAL"

lemma create_job_counts:
  assumes "create_job st svc env payload key w s = (r, w', s')"
  obtains "metrics w' = metric_inc JOB_CREATED_TOTAL (metrics w)"
  | "metrics w' = metric_inc JOB_DUPLICATE_TOTAL (metrics w)"
  | e where "r = Inl e" "metrics w' = metrics w"
proof -
  have "metrics w' = metric_inc JOB_CREATED_TOTAL (metrics w)
    \<or> metrics w' = metric_inc JOB_DUPLICATE_TOTAL (metrics w) \<or> (\<exists>e. r = Inl e) \<and> metrics w' = metrics w"
    using assms
    by (auto simp: create_job_def write_job_def return_existing_def world_env_def Let_def
        split: sum.splits option.splits prod.splits bool.splits)
  with that show thesis by blast
qed

lemma metric_add_le: "0 \<le> n \<Longrightarrow> m k \<le> metric_add k' n m k"
  by (cases "k = k'") simp_all

lemma record_http_metrics_job [simp]:
  "record_http_metrics method path r m JOB_CREATED_TOTAL = m JOB_CREATED_TOTAL"
  "record_http_metrics method path r m JOB_DUPLICATE_TOTAL = m JOB_DUPLICATE_TOTAL"
  by (simp_all add: record_http_metrics_def split: http_outcome.splits)

lemma record_http_metrics_http:
  "record_http_metrics method path r m (HTTP_REQUESTS_TOTAL method' path' code) =
     m (HTTP_REQUESTS_TOTAL method' path' code)
     + (if method = method' \<and> path = path' \<and> (\<exists>body. r = Response code body) then 1 else 0)"
  by (auto simp: record_http_metrics_def metric_add_def split: http_outcome.splits)

lemma record_http_metrics_le: "m k \<le> record_http_metrics method path r m k"
  by (simp add: record_http_metrics_def metric_add_le split: http_outcome.splits)

text \<open>What the endpoint itself counts: jobs, and only when one is posted.\<close>

lemma call_next_counts:
  assumes "call_next app rq w st = (r, w', st')"
  shows "m = HTTP_REQUESTS_TOTAL me p c \<Longrightarrow> metrics w' m = metrics w m"
    and "metrics w m \<le> metrics w' m"
    and "jobs_counted (metrics w) + of_bool (accepted_job rq r) \<le> jobs_counted (metrics w')"
    and "jobs_counted (metrics w') \<le> jobs_counted (metrics w) + of_bool (posts_job rq)"
proof -
  have post: "(m = HTTP_REQUESTS_TOTAL me p c \<longrightarrow> metrics w' m = metrics w m) \<and> metrics w m \<le> metrics w' m
    \<and> jobs_counted (metrics w) + of_bool (accepted_job rq r) \<le> jobs_counted (metrics w')
    \<and> jobs_counted (metrics w') \<le> jobs_counted (metrics w) + of_bool (posts_job rq)"
    if rq: "rq = PostJobs request key env" for request key env
  proof -
    from assms rq obtain x where
      run: "create_job (container_store (app_redis app) (app_settings app)) (container_job_service (app_settings app))
        env (model_dump request) key w st = (x, w', st')" and "(\<exists>b. r = Response 202 b) = (\<exists>j. x = Inr j)"
      by (auto simp: create_job_route_def split: prod.splits sum.splits)
    then have acc: "accepted_job rq r = (\<exists>j. x = Inr j)" "posts_job rq"
      using rq by (simp_all add: accepted_job_def posts_job_def)
    from run show ?thesis
      by (rule create_job_counts) (auto simp: acc metric_add_le)
  qed
  have others: "metrics w' = metrics w \<and> \<not> accepted_job rq r" if "\<not> posts_job rq"
    using assms that by (cases rq) (auto simp: posts_job_def accepted_job_def split: prod.splits)
  show "m = HTTP_REQUESTS_TOTAL me p c \<Longrightarrow> metrics w' m = metrics w m" "metrics w m \<le> metrics w' m"
    "jobs_counted (metrics w) + of_bool (accepted_job rq r) \<le> jobs_counted (metrics w')"
    "jobs_counted (metrics w') \<le> jobs_counted (metrics w) + of_bool (posts_job rq)"
    using post others by (cases "posts_job rq"; auto simp: posts_job_def)+
qed

lemma serve_counts:
  assumes "serve app rq w st = (r, w', st')"
  shows "metrics w' (HTTP_REQUESTS_TOTAL method path code)
      = metrics w (HTTP_REQUESTS_TOTAL method path code) + of_bool (route rq = (method, path) \<and> (\<exists>body. r = Response code body))"
    and "metrics w m \<le> metrics w' m"
    and "jobs_counted (metrics w) + of_bool (accepted_job rq r) \<le> jobs_counted (metrics w')"
    and "jobs_counted (metrics w') \<le> jobs_counted (metrics w) + of_bool (posts_job rq)"
proof -
  obtain w1 where call: "call_next app rq w st = (r, w1, st')"
    and w': "w' = w1\<lparr>metrics := record_http_metrics (fst (route rq)) (snd (route rq)) r (metrics w1)\<rparr>"
    using assms by (auto simp: serve_def Let_def split: prod.splits)
  note counts = call_next_counts [OF call]
  show "metrics w' (HTTP_REQUESTS_TOTAL method path code)
      = metrics w (HTTP_REQUESTS_TOTAL method path code) + of_bool (route rq = (method, path) \<and> (\<exists>body. r = Response code body))"
    using counts(1) by (simp add: w' record_http_metrics_http prod_eq_iff)
  show "metrics w m \<le> metrics w' m"
    using counts(2) [of m] record_http_metrics_le [of "metrics w1" m] by (simp add: w') (meson order_trans)
qed (use call_next_counts(3,4) assms in
      \<open>fastforce simp: serve_def Let_def split: prod.splits\<close>)+

text \<open>No handler answers 500 itself, so what the client sees as 500 is an exception, and the rest an answer.\<close>

lemma served_500:
  assumes "serve app rq w st = (r, w', st')" "framework_answers rq"
  shows "(\<exists>body. r = Response code body) \<longleftrightarrow> code \<noteq> 500 \<and> client_status r = code"
proof -
  have "r \<noteq> Response 500 body" for body
    using assms
    by (cases rq)
       (auto simp: serve_def Let_def create_job_route_def get_job_route_def ready_def metrics_route_def
         framework_answers_def split: prod.splits sum.splits option.splits if_splits)
  then show ?thesis by (cases r) (auto simp: client_status_def)
qed

text \<open>
  C30: What the metrics say of the requests. After any requests, one after the other, the HTTP counter of a
  method, a path and a status other than 500 has grown by exactly the number of times a client got that
  status for them; the counter of status 500 has not moved, although clients get a 500 whenever a handler
  raises. Jobs created and duplicates together have grown by at least the posts that were accepted and at
  most the posts; and nothing the API counts ever goes down.
\<close>

theorem requests_accounted:
  assumes "serve_all app rqs w st = (rs, w', st')" and "\<forall>rq \<in> set rqs. framework_answers rq"
  shows "metrics w' (HTTP_REQUESTS_TOTAL method path code)
      = metrics w (HTTP_REQUESTS_TOTAL method path code)
        + (if code = 500 then 0 else count_answers (answered_with method path code) rqs rs)
    \<and> jobs_counted (metrics w) + count_answers accepted_job rqs rs \<le> jobs_counted (metrics w')
    \<and> jobs_counted (metrics w') \<le> jobs_counted (metrics w) + of_nat (length (filter posts_job rqs))
    \<and> metrics w m \<le> metrics w' m"
  using assms
proof (induction rqs arbitrary: w st rs)
  case (Cons rq rqs)
  obtain r w1 s1 where one: "serve app rq w st = (r, w1, s1)" by (metis prod_cases3)
  obtain rs' where rest: "serve_all app rqs w1 s1 = (rs', w', st')" and rs: "rs = r # rs'"
    using Cons.prems(1) one by (auto split: prod.splits)
  note counts = serve_counts [OF one]
  note IH = Cons.IH [OF rest] 
  have ok: "framework_answers rq" "\<forall>rq \<in> set rqs. framework_answers rq" using Cons.prems(2) by simp_all
  have "metrics w m \<le> metrics w' m" using counts(2) [of m] IH ok by auto
  moreover have "jobs_counted (metrics w) + count_answers accepted_job (rq # rqs) rs \<le> jobs_counted (metrics w')"
    using counts(3) IH ok by (cases "accepted_job rq r") (auto simp: rs)
  moreover have "jobs_counted (metrics w') \<le> jobs_counted (metrics w) + of_nat (length (filter posts_job (rq # rqs)))"
    using counts(4) IH ok by (cases "posts_job rq") auto
  moreover have "metrics w' (HTTP_REQUESTS_TOTAL method path code) = metrics w (HTTP_REQUESTS_TOTAL method path code)
      + (if code = 500 then 0 else count_answers (answered_with method path code) (rq # rqs) rs)"
    using counts(1) IH ok served_500 [OF one ok(1)] by (simp add: rs answered_with_def)
  ultimately show ?case by blast
qed simp

definition sample_app :: "(string \<rightharpoonup> json_text) http_app" where
  "sample_app = \<lparr>app_redis = map_redis, app_settings = default_settings, app_generate_latest = (\<lambda>_. []),
                 app_content_type = ''text/plain'', app_validation_text = ''invalid''\<rparr>"

theorem requests_accounted_witness:
  "\<exists>rs w st. serve_all sample_app [PostJobs sample_request (Some ''k1'') sample_create, GetLive,
         Refused ''GET'' ''/nowhere'' 404 PNone]
       (sample_world empty_db) Map.empty = (rs, w, st)
     \<and> metrics w (HTTP_REQUESTS_TOTAL ''POST'' ''/jobs'' 202) = 1 \<and> jobs_counted (metrics w) = 1"
proof -
  let ?rqs = "[PostJobs sample_request (Some ''k1'') sample_create, GetLive, Refused ''GET'' ''/nowhere'' 404 PNone]"
  obtain rs w st where run: "serve_all sample_app ?rqs (sample_world empty_db) Map.empty = (rs, w, st)"
    by (metis prod_cases3)
  obtain body w1 s1 where post: "create_job_route map_redis default_settings sample_create sample_request (Some ''k1'')
      (sample_world empty_db) Map.empty = (Response 202 body, w1, s1)"
    using sample_route by blast
  then obtain b c where "rs = [Response 202 body, Response 200 b, Response 404 c]"
    using run by (auto simp: serve_def sample_app_def metrics_route_def split: prod.splits)
  moreover have "\<forall>rq \<in> set ?rqs. framework_answers rq" by (simp add: framework_answers_def)
  ultimately show ?thesis
    using requests_accounted [OF run, of "''POST''" "''/jobs''" 202 JOB_CREATED_TOTAL] run
    by (simp add: answered_with_def client_status_def accepted_job_def posts_job_def sample_world_def)
qed

text \<open>
  The service level objective of \<open>docs/operations/monitoring.md\<close> is the share of 5xx in this counter; a
  request that ends in an exception, which the client sees as a 500, has no part in it.
\<close>

lemma raised_uncounted:
  assumes "serve app rq w st = (Unhandled e, w', st')"
  shows "client_status (Unhandled e) = 500
    \<and> metrics w' (HTTP_REQUESTS_TOTAL method path code) = metrics w (HTTP_REQUESTS_TOTAL method path code)"
  using serve_counts(1) [OF assms] by (simp add: client_status_def)

end
