(* ===== verification/Spec2Isabelle.thy ===== *)
theory Spec2Isabelle
  imports Journeys Event_Log Ports Migration_Env Lifecycle Load_Script Cluster_Runs Late_Claim Http_App
begin

text \<open>
  \<^bold>\<open>MorphFlow: a verification library.\<close>

  MorphFlow is an asynchronous job service in Python. A client posts a job to the HTTP API; the job
  service reserves the request's idempotency key in Redis and writes, in one transaction, the job
  row, an event and an outbox message. A relay publishes the outbox to Kafka. A worker consumes the
  request topic: it claims the job under a lease with an epoch (a fencing token), runs a processor,
  and records the outcome with a conditional update that carries the epoch. In the split deployment
  an inference worker hands the job on to a downstream worker through the outbox again. Failures go
  to a retry topic with a back-off carried in headers, and after a limit to a dead-letter topic.

  \<^bold>\<open>Theories and the code they model\<close> (paths under \<open>src/\<close>):

  \<^item> \<open>Prelude\<close>: exceptions as values and the result type, insertion-ordered dictionaries, the
    locales \<open>invariant_system\<close>, \<open>monotone_system\<close> and \<open>simulation\<close> that carry one-step facts along
    runs.
  \<^item> \<open>Py_Text\<close>, \<open>Py_Value\<close>: the pieces of Python the sources use: UTF-8 text, \<open>strip\<close>, \<open>int\<close> and
    \<open>str\<close> of integers, JSON-like values with their subscripts and exceptions, floats as exact
    rationals with the overflow of \<open>**\<close>.
  \<^item> \<open>Domain\<close>: \<open>app/domain/models.py\<close>, \<open>app/domain/events.py\<close>, the metric registry of
    \<open>app/core/metrics.py\<close>.
  \<^item> \<open>Database\<close>: \<open>app/adapters/db/models.py\<close> as records, the database as the contents of its
    tables, session blocks and the ways a transaction may end (\<open>tx_fault\<close>).
  \<^item> \<open>Job_Repository\<close>: the job and event repositories of \<open>app/adapters/db/repositories.py\<close>; the
    locale \<open>lease_store\<close> (a store with fencing tokens) and its interpretation on the repository.
  \<^item> \<open>Kafka\<close>: the process state \<open>world\<close> (database, metrics, history of acknowledged sends) and
    \<open>app/adapters/messaging/kafka.py\<close>.
  \<^item> \<open>Outbox\<close>: the outbox repository and \<open>app/adapters/messaging/outbox_relay.py\<close>; the locale
    \<open>outbox_port\<close> (a queue with keys) and its interpretation.
  \<^item> \<open>Ports\<close>: \<open>app/ports/repositories.py\<close> as records of operations with the SQLAlchemy repositories as
    instances; the locale \<open>job_store\<close> states the contract of the job repository.
  \<^item> \<open>Worker_Service\<close>: \<open>app/application/worker_service.py\<close>, the handler as its three transactions
    with the other processes' work between them (\<open>svc_env\<close>); the locale \<open>role_port\<close>.
  \<^item> \<open>Pipeline_Services\<close>: \<open>app/application/pipeline_services.py\<close>.
  \<^item> \<open>Job_Service\<close>: \<open>app/application/job_service.py\<close>, \<open>app/adapters/cache/redis_idempotency.py\<close> and
    the in-memory store of \<open>tests/conftest.py\<close>; the locale \<open>idempotency_port\<close>, interpreted on the
    in-memory store and shown of the Redis store under the documented laws of its client.
  \<^item> \<open>Config\<close>: \<open>app/core/config.py\<close>, \<open>app/workers/roles.py\<close>, \<open>app/adapters/processing/factory.py\<close>,
    the partition targets of \<open>app/core/kafka_topics.py\<close>.
  \<^item> \<open>Processing\<close>: \<open>app/adapters/processing/dummy.py\<close>, \<open>downstream_dummy.py\<close> and the single runs and
    batches of \<open>gpu_simulator.py\<close>; \<open>Batching\<close>: its queue and flush task as a step relation.
  \<^item> \<open>Kafka_Topics\<close>: \<open>ensure_kafka_topics\<close> of \<open>app/core/kafka_topics.py\<close> over an admin client.
  \<^item> \<open>Api\<close>: \<open>app/core/container.py\<close>, \<open>app/api\<close> (schemas, job and health routes) and the middleware of
    \<open>app/main.py\<close>.
  \<^item> \<open>Http_App\<close>: the application of \<open>app/main.py\<close> with its routes behind the middleware, the kinds of the
    metrics and the response of \<open>/metrics\<close>.
  \<^item> \<open>Runner\<close>: \<open>app/workers/runner.py\<close>, one definition per function, the loop as a recursion over
    the polls.
  \<^item> \<open>Delivery\<close>: the partitions of a poll interleaved in every order, and the consumer group with
    positions, committed offsets, lost commits and restarts.
  \<^item> \<open>Lease_Protocol\<close>: any number of API processes, unified workers and relays as a transition system
    on the database.
  \<^item> \<open>End_To_End\<close>: request, relay pass, delivery and read-back composed; \<open>Journeys\<close>: the same through
    the split pipeline, and through a failed attempt and its retry.
  \<^item> \<open>Custody\<close>, \<open>Custody_Steps\<close>, \<open>No_Loss\<close>: the whole unified deployment as a transition system: API processes,
    relays, the log of acknowledged records in partitions, consumers with positions and committed
    offsets, handlers in stages; and the invariant that every job is in somebody's custody.
    \<open>Cluster_Runs\<close>: the functions that model the code are runs of that system. \<open>Late_Claim\<close>: the run in
    which a worker that has lost its partition takes a job and it is lost.
  \<^item> \<open>Migrations\<close>: \<open>alembic/versions\<close> as schema statements and the tables \<open>app/adapters/db/models.py\<close>
    declares; \<open>Migration_Env\<close>: \<open>alembic/env.py\<close>.
  \<^item> \<open>Transactions\<close>: the locale \<open>tx_invariant\<close>: what every transaction keeps, every handler, request and
    relay pass keeps. \<open>Conformance\<close> interprets it on the invariant behind the schema and on
    reachability, \<open>Job_Lifecycle\<close> on the databases ahead of a given one.
  \<^item> \<open>Job_Lifecycle\<close>: the abstract machine of a job and the simulation of every committed transaction
    by it; \<open>Event_Log\<close>: the event log and the outbox as records of the jobs.
  \<^item> \<open>Lifecycle\<close>: \<open>app/core/logging.py\<close>, \<open>app/core/tracing.py\<close>, \<open>app/core/lifespan.py\<close> and the
    start-up and clean-up of \<open>run_worker\<close>.
  \<^item> \<open>Load_Script\<close>: \<open>scripts/run_k6_load.py\<close>.

  \<^bold>\<open>What the properties show.\<close> The whole: a posted job is announced, processed and read back with its
  result (\<open>request_to_result\<close>), also through the split pipeline (\<open>split_request_to_result\<close>) and after a
  failed attempt (\<open>retry_recovers\<close>); across crashes, rebalances, duplicates and failures of every kind no
  job is lost as long as no worker takes one late (\<open>no_job_lost\<close>, and \<open>late_claim_loses_job\<close> for what
  happens otherwise), and what the code does is a run of the system this is shown of
  (\<open>operations_are_runs\<close>); an accepted job never disappears (\<open>accepted_job_readable\<close>); every
  reachable database conforms to the schema the migrations build (\<open>database_conforms\<close>), which is the one
  the models declare (a lemma) and can be taken down again (\<open>migrations_roundtrip\<close>).
  Jobs: whatever the components commit is a run of one abstract machine (\<open>job_lifecycle_refined\<close>), the
  event log accounts for it (\<open>event_log_accounts\<close>), every job is announced once
  (\<open>every_job_announced\<close>), a superseded worker cannot write (\<open>stale_writer_fenced\<close>), of racing reports
  of its end one wins (\<open>status_race_one_winner\<close>), SUCCESS is final (\<open>success_outcome_stable\<close>); both hold for
  updates that do not name an end among their \<open>expected_statuses\<close>, as none in the program does. A job is completed
  once (\<open>job_completed_once\<close>).
  Handlers: every branch of the unified worker, the hand-over and the downstream step, with atomicity
  of what they write. Creation: atomic and idempotent. Outbox: FIFO passes, no loss under any failure,
  the backlog drains. Consumer: a partition commits exactly its handled prefix, in every interleaving;
  no message is skipped across restarts; a failing message is retried the configured number of times
  and then dead-lettered; headers survive the trip; the back-off starts at its base and multiplies up to its bound. Processing:
  a batch answers like single runs (\<open>batch_matches_single\<close>), the queue keeps its invariant
  (\<open>batcher_invariant\<close>) and the flush loop serves it (\<open>flush_loop_serves\<close>). Topics reach their partition
  counts unless the cluster refuses, which goes unnoticed (\<open>ensure_topics_reach_targets\<close>). The metrics
  account for the requests, but for those that end in a 500 (\<open>requests_accounted\<close>). Lemmas beside the properties cover readiness, lost leases and
  ambiguous commits in the unified worker, the interleaved partitions of a poll, instrumenting once, the
  relay never running without a started publisher, the identities of workers, and the load script's
  parsing and files.

  Some properties state where the code does not do what it means to:
  \<open>rejected_request_strands_batch\<close>, \<open>downstream_retry_leaves_failed\<close>, \<open>retry_without_origin_lost\<close>,
  \<open>poison_message_blocks_partition\<close>, \<open>create_job_failed_commit_blocks_key\<close>, \<open>failed_start_leaks\<close>,
  \<open>migration_dsn\<close>, \<open>late_claim_loses_job\<close>, in part \<open>requests_accounted\<close> and
  \<open>ensure_topics_reach_targets\<close>, and the lemma \<open>default_backoff_shorter_than_lease\<close>.

  \<^bold>\<open>Modelling choices.\<close> Strings are their UTF-8 bytes. Instants are microseconds, clocks are parameters.
  A session block reads and writes one state of the database: conditional updates are single
  statements, and what other processes commit falls between blocks, except that the read after a
  refused claim sees the state the claim saw. Turns of concurrent partitions are interleaved message
  by message; what other processes do during a turn is part of the handler's environment. Floats are
  not rounded. Loops over polls and relay passes are recursions over the list of what the
  surroundings answer, so no fuel is needed; \<open>deliveries\<close> counts deliveries, and
  \<open>retry_max_count + 1\<close> of them are shown to be enough. The parser of the migration configuration
  follows references at most ten levels deep, as Python does. In the deployment of \<open>Custody\<close> records are
  numbered in the order Kafka acknowledged them and the number serves as the offset, so offsets grow in
  every partition but have gaps; which partition a record goes to is a parameter. A handler whose
  partition was taken away may go on, also with the records it has polled and not yet handled, but cannot
  move the position or commit. It may claim jobs from those records as the code does; \<open>dp_prompt\<close> restricts
  such late claims for \<open>no_job_lost\<close> only: they change nothing while the handler that has the partition
  works on the same job and still holds it. That deployment is the unified one; the split pipeline is covered by
  the properties of its handlers and journeys.

  \<^bold>\<open>Parameters.\<close> The Kafka producer (\<open>send_result\<close>), the Kafka admin client (\<open>admin_api\<close> with
  \<open>admin_laws\<close>, which let the cluster refuse topics in its response), alembic's configuration
  (\<open>alembic_config\<close> with \<open>config_laws\<close>), the clock (\<open>clock_ms\<close>), the Redis client (\<open>redis_api\<close> with \<open>redis_laws\<close>), random draws, what
  the consumer polls, what the clients answer at start and stop, the processor a service runs, the
  identifiers \<open>uuid4\<close> draws, what alembic was asked to run, and the verdict on each transaction.

  \<^bold>\<open>Not modelled.\<close> Log lines, spans and what OpenTelemetry does; matching paths, parsing and validation of
  request bodies, which are FastAPI's and pydantic's; the construction of SQLAlchemy engines and sessions; the
  reading of settings from the environment; the width of SQL integers and their autoincrement in the
  schema; the passing of time in sleeps; cancellation of a waiting request at shut-down. What is left
  of the sources are imports, these library calls and the unused \<open>JobEvent\<close>.
\<close>

end
